theory Spec2Isabelle
  imports Complex_Main "HOL-Library.Char_ord" "HOL-Library.List_Lexorder"
begin

section \<open>JavaScript values\<close>

text \<open>
  The plan, the goal, the saving fields of a stage and the body of a request are what
  \<^verbatim>\<open>JSON.parse\<close> made of a JSON text. \<open>JUndefined\<close> is what reading an absent
  property gives. A string is a list of code units (here 8-bit); \<open>\<le>\<close> on strings is
  the code-unit lexicographic order that JavaScript's \<^verbatim>\<open><=\<close> uses on two strings.
  \<open>JObj\<close> lists the own properties of an object. The type of the numbers is a
  parameter. The values of the dashboard are of type \<open>jsval\<close>, with real numbers: a
  real stands for a finite double, sums and comparisons of numbers are exact in the
  model, and the rounding of the engine is kept where the long-term projection
  computes its growth. The values of the server, further down, have numbers that may be
  infinite.
\<close>

datatype 'n js =
    JUndefined
  | JNull
  | JBool bool
  | JNum 'n
  | JStr string
  | JArr "'n js list"
  | JObj "(string \<times> 'n js) list"

type_synonym jsval = "real js"

datatype error = TypeError

text \<open>Truthiness, as \<^verbatim>\<open>!v\<close> and \<^verbatim>\<open>v && ...\<close> test it.\<close>

fun truthy :: "jsval \<Rightarrow> bool" where
  "truthy JUndefined = False"
| "truthy JNull = False"
| "truthy (JBool b) = b"
| "truthy (JNum x) = (x \<noteq> 0)"
| "truthy (JStr s) = (s \<noteq> [])"
| "truthy (JArr xs) = True"
| "truthy (JObj kvs) = True"

text \<open>
  Reading a property \<^verbatim>\<open>v.k\<close> (or \<^verbatim>\<open>v?.k\<close>) for the keys the program
  reads (none of them is a property of a primitive's or an array's prototype).
\<close>

fun get :: "'n js \<Rightarrow> string \<Rightarrow> 'n js" where
  "get (JObj kvs) k = (case map_of kvs k of Some v \<Rightarrow> v | None \<Rightarrow> JUndefined)"
| "get v k = JUndefined"

text \<open>\<^verbatim>\<open>Object.prototype.hasOwnProperty.call(g, k)\<close> for a key that is neither an index nor \<^verbatim>\<open>length\<close>.\<close>

fun hasOwnProperty :: "'n js \<Rightarrow> string \<Rightarrow> bool" where
  "hasOwnProperty (JObj kvs) k = (map_of kvs k \<noteq> None)"
| "hasOwnProperty v k = False"

text \<open>\<^verbatim>\<open>const safeNumber = (v) => (typeof v === "number" ? v : null)\<close>; \<open>None\<close> is null.\<close>

fun safeNumber :: "jsval \<Rightarrow> real option" where
  "safeNumber (JNum x) = Some x"
| "safeNumber v = None"

section \<open>Strings of digits\<close>

text \<open>The decimal digits, by position.\<close>

definition decimal_digits :: string where
  "decimal_digits = ''0123456789''"

fun position :: "char \<Rightarrow> string \<Rightarrow> nat option" where
  "position c [] = None"
| "position c (x # xs) = (if c = x then Some 0 else map_option Suc (position c xs))"

definition digit_char :: "nat \<Rightarrow> char" where
  "digit_char d = decimal_digits ! d"

definition digit_val :: "char \<Rightarrow> nat option" where
  "digit_val c = position c decimal_digits"

text \<open>\<^verbatim>\<open>\d\<close> of a JavaScript regular expression: an ASCII digit.\<close>

definition is_digit :: "char \<Rightarrow> bool" where
  "is_digit c = (digit_val c \<noteq> None)"

text \<open>\<^verbatim>\<open>String(n)\<close> for a natural number and for an integer.\<close>

fun String_nat :: "nat \<Rightarrow> string" where
  "String_nat n =
     (if n < 10 then [digit_char n] else String_nat (n div 10) @ [digit_char (n mod 10)])"

declare String_nat.simps [simp del]

definition String_int :: "int \<Rightarrow> string" where
  "String_int i = (if i < 0 then CHR ''-'' # String_nat (nat (- i)) else String_nat (nat i))"

text \<open>
  \<^verbatim>\<open>Number(s)\<close> for a string: modelled where \<open>s\<close> is a string of ASCII digits,
  where it is the decimal value (leading zeros allowed, 0 for the empty string).
  \<open>None\<close> stands for every other string; the program passes none to
  \<^verbatim>\<open>parseYearMonth\<close>, whose argument is a string that \<^verbatim>\<open>isValidYearMonth\<close>
  accepted or that \<^verbatim>\<open>getCurrentYearMonth\<close> printed.
\<close>

fun digits_value :: "nat \<Rightarrow> string \<Rightarrow> nat option" where
  "digits_value acc [] = Some acc"
| "digits_value acc (c # cs) =
     (case digit_val c of None \<Rightarrow> None | Some d \<Rightarrow> digits_value (10 * acc + d) cs)"

definition Number_digits :: "string \<Rightarrow> nat option" where
  "Number_digits s = digits_value 0 s"

text \<open>\<^verbatim>\<open>s.padStart(2, "0")\<close>.\<close>

definition padStart2 :: "string \<Rightarrow> string" where
  "padStart2 s = replicate (2 - length s) CHR ''0'' @ s"

text \<open>\<^verbatim>\<open>s.split("-")\<close>: the pieces between the hyphens, never an empty list.\<close>

fun split_dash :: "string \<Rightarrow> string list" where
  "split_dash [] = [[]]"
| "split_dash (c # cs) =
     (if c = CHR ''-'' then [] # split_dash cs
      else (case split_dash cs of [] \<Rightarrow> [[c]] | p # ps \<Rightarrow> (c # p) # ps))"

section \<open>Dates\<close>

text \<open>
  Every \<^verbatim>\<open>Date\<close> the modelled functions read is read through
  \<^verbatim>\<open>getFullYear\<close> and \<^verbatim>\<open>getMonth\<close> only, and every date they build is the
  first day of a month at local midnight, so a date is its year and its month
  (0 to 11). A \<^verbatim>\<open>Date\<close> object that may be an Invalid Date is a \<open>date option\<close>.
  The time value of a \<^verbatim>\<open>Date\<close> is at most 8.64e15 ms from the epoch: the first
  day of a month is a valid date from May of year -271821 to September of year 275760.
\<close>

datatype date = Date (getFullYear: int) (getMonth: int)

definition month_index :: "date \<Rightarrow> int" where
  "month_index d = 12 * getFullYear d + getMonth d"

definition min_month_index :: int where
  "min_month_index = 12 * (- 271821) + 4"

definition max_month_index :: int where
  "max_month_index = 12 * 275760 + 8"

text \<open>
  The first day of month \<open>m\<close> of year \<open>y\<close>, as \<^verbatim>\<open>MakeDay\<close> and
  \<^verbatim>\<open>TimeClip\<close> compute it: months outside 0 to 11 carry into the year, and a date
  out of range is an Invalid Date.
\<close>

definition MakeDate :: "int \<Rightarrow> int \<Rightarrow> date option" where
  "MakeDate y m =
     (let d = Date (y + m div 12) (m mod 12)
      in if min_month_index \<le> month_index d \<and> month_index d \<le> max_month_index
         then Some d else None)"

text \<open>
  \<^verbatim>\<open>new Date(y, m, 1, 0, 0, 0, 0)\<close>: a year from 0 to 99 means 1900 + y.
\<close>

definition new_Date :: "int \<Rightarrow> int \<Rightarrow> date option" where
  "new_Date y m = MakeDate (if 0 \<le> y \<and> y \<le> 99 then 1900 + y else y) m"

text \<open>
  \<^verbatim>\<open>
  const getCurrentYearMonth = (d = new Date()) => {
    const year = d.getFullYear();
    const month = String(d.getMonth() + 1).padStart(2, "0");
    return `${year}-${month}`;
  };\<close>
  On an Invalid Date both getters return NaN.
\<close>

fun getCurrentYearMonth :: "date option \<Rightarrow> string" where
  "getCurrentYearMonth (Some d) =
     String_int (getFullYear d) @ ''-'' @ padStart2 (String_int (getMonth d + 1))"
| "getCurrentYearMonth None = ''NaN-NaN''"

text \<open>
  \<^verbatim>\<open>
  const parseYearMonth = (ym) => {
    const [y, m] = ym.split("-").map(Number);
    return new Date(y, m - 1, 1, 0, 0, 0, 0);
  };\<close>
  A missing second piece is \<^verbatim>\<open>undefined\<close>, whose number is NaN, and a NaN
  argument gives an Invalid Date: \<open>None\<close>, as is a piece that \<open>Number_digits\<close>
  does not model.
\<close>

definition parseYearMonth :: "string \<Rightarrow> date option" where
  "parseYearMonth ym =
     (case split_dash ym of
        ys # ms # rest \<Rightarrow>
          (case (Number_digits ys, Number_digits ms) of
             (Some y, Some m) \<Rightarrow> new_Date (int y) (int m - 1)
           | _ \<Rightarrow> None)
      | _ \<Rightarrow> None)"

text \<open>
  \<^verbatim>\<open>
  const addMonths = (date, months) => {
    const d = new Date(date);
    d.setMonth(d.getMonth() + months);
    return d;
  };\<close>
\<close>

fun addMonths :: "date option \<Rightarrow> int \<Rightarrow> date option" where
  "addMonths (Some d) months = MakeDate (getFullYear d) (getMonth d + months)"
| "addMonths None months = None"

section \<open>Plan validation\<close>

text \<open>
  \<^verbatim>\<open>
  const isValidYearMonth = (value) => {
    if (typeof value !== "string") return false;
    const m = value.match(/^(\d{4})-(\d{2})$/);
    if (!m) return false;
    const month = Number(m[2]);
    return month >= 1 && month <= 12;
  };\<close>
\<close>

definition match_year_month :: "string \<Rightarrow> bool" where
  "match_year_month s =
     (case s of
        [y1, y2, y3, y4, h, m1, m2] \<Rightarrow>
          is_digit y1 \<and> is_digit y2 \<and> is_digit y3 \<and> is_digit y4 \<and> h = CHR ''-'' \<and>
          is_digit m1 \<and> is_digit m2 \<and>
          (case Number_digits [m1, m2] of
             Some month \<Rightarrow> 1 \<le> month \<and> month \<le> 12
           | None \<Rightarrow> False)
      | _ \<Rightarrow> False)"

fun isValidYearMonth :: "jsval \<Rightarrow> bool" where
  "isValidYearMonth (JStr s) = match_year_month s"
| "isValidYearMonth v = False"

text \<open>
  \<^verbatim>\<open>name.trim() === ""\<close>: the name consists of white space and line terminators
  only (those among the 8-bit code units).
\<close>

definition is_space :: "char \<Rightarrow> bool" where
  "is_space c = (c \<in> {CHR 0x09, CHR 0x0A, CHR 0x0B, CHR 0x0C, CHR 0x0D, CHR 0x20, CHR 0xA0})"

definition trim :: "string \<Rightarrow> string" where
  "trim s = rev (dropWhile is_space (rev (dropWhile is_space s)))"

text \<open>
  The callback of \<^verbatim>\<open>plan.stages.forEach((stage, i) => ...)\<close>: the issues it
  pushes for the stage at index \<open>i\<close>.
  \<^verbatim>\<open>
    if (!stage || typeof stage.name !== "string" || stage.name.trim() === "") {
      issues.push(`Stage ${i + 1} is missing a name.`);
    }
    if (!isValidYearMonth(stage?.from)) {
      issues.push(`Stage ${i + 1} must include a valid from (YYYY-MM).`);
    }
    if (stage?.to && !isValidYearMonth(stage.to)) {
      issues.push(`Stage ${i + 1} has an invalid to (YYYY-MM).`);
    }\<close>
\<close>

definition name_missing :: "jsval \<Rightarrow> bool" where
  "name_missing stage =
     (\<not> truthy stage \<or>
      (case get stage ''name'' of JStr n \<Rightarrow> trim n = [] | _ \<Rightarrow> True))"

definition stage_issues :: "nat \<Rightarrow> jsval \<Rightarrow> string list" where
  "stage_issues i stage =
     (if name_missing stage
      then [''Stage '' @ String_nat (i + 1) @ '' is missing a name.''] else []) @
     (if \<not> isValidYearMonth (get stage ''from'')
      then [''Stage '' @ String_nat (i + 1) @ '' must include a valid from (YYYY-MM).'']
      else []) @
     (if truthy (get stage ''to'') \<and> \<not> isValidYearMonth (get stage ''to'')
      then [''Stage '' @ String_nat (i + 1) @ '' has an invalid to (YYYY-MM).''] else [])"

text \<open>\<^verbatim>\<open>forEach\<close> from index \<open>i\<close> on, pushing onto \<open>issues\<close>.\<close>

fun forEach_stage :: "nat \<Rightarrow> jsval list \<Rightarrow> string list \<Rightarrow> string list" where
  "forEach_stage i [] issues = issues"
| "forEach_stage i (stage # rest) issues =
     forEach_stage (i + 1) rest (issues @ stage_issues i stage)"

definition required :: "string list" where
  "required =
     [''target_longterm'', ''target_buffer'', ''current_longterm'', ''current_buffer'',
      ''target_year'']"

definition goal_issues :: "jsval \<Rightarrow> string list" where
  "goal_issues g =
     concat (map (\<lambda>k. if \<not> hasOwnProperty g k then [''Goal must include '' @ k @ ''.'']
                       else []) required)"

text \<open>
  \<^verbatim>\<open>
  const validatePlan = (plan) => {
    const issues = [];
    if (!plan || !Array.isArray(plan.stages) || plan.stages.length === 0) {
      issues.push("Plan must include a non-empty stages array.");
      return issues;
    }
    plan.stages.forEach((stage, i) => { ... });
    if (plan.goal) { ... required.forEach((k) => { ... }); }
    return issues;
  };\<close>
\<close>

definition validatePlan :: "jsval \<Rightarrow> string list" where
  "validatePlan plan =
     (case (if truthy plan then get plan ''stages'' else JUndefined) of
        JArr stages \<Rightarrow>
          if stages = [] then [''Plan must include a non-empty stages array.'']
          else
            (let issues = forEach_stage 0 stages [];
                 issues = (if truthy (get plan ''goal'')
                           then issues @ goal_issues (get plan ''goal'') else issues)
             in issues)
      | _ \<Rightarrow> [''Plan must include a non-empty stages array.''])"

section \<open>Stage selection\<close>

text \<open>
  A stage as the stage resolver and its callers read it: \<open>from_ym\<close> and \<open>to_ym\<close>
  are the strings that \<^verbatim>\<open>stage.from\<close> and \<^verbatim>\<open>stage.to\<close> hold, \<open>None\<close>
  when the property is absent (other JSON values in these two properties are outside
  this model; \<^verbatim>\<open>validatePlan\<close> lets none through for \<^verbatim>\<open>from\<close>). The saving
  fields are JSON values, read through \<open>safeNumber\<close>.
\<close>

record stage =
  name :: jsval
  from_ym :: "string option"
  to_ym :: "string option"
  saving_longterm :: jsval
  saving_buffer :: jsval

text \<open>
  \<^verbatim>\<open>a.localeCompare(b)\<close>, modelled as the code-unit order. On year-month strings
  \<^verbatim>\<open>YYYY-MM\<close> (digits at the same positions) the locale's collation agrees with it.
\<close>

definition localeCompare :: "string \<Rightarrow> string \<Rightarrow> int" where
  "localeCompare a b = (if a < b then - 1 else if a = b then 0 else 1)"

text \<open>
  \<^verbatim>\<open>x.from.localeCompare(y.from)\<close>: reading \<^verbatim>\<open>localeCompare\<close> of an absent
  \<^verbatim>\<open>from\<close> raises a TypeError; an absent argument is converted to the string
  \<^verbatim>\<open>"undefined"\<close>.
\<close>

definition from_localeCompare :: "stage \<Rightarrow> stage \<Rightarrow> error + int" where
  "from_localeCompare x y =
     (case from_ym x of
        None \<Rightarrow> Inl TypeError
      | Some fx \<Rightarrow>
          Inr (localeCompare fx (case from_ym y of None \<Rightarrow> ''undefined'' | Some fy \<Rightarrow> fy)))"

text \<open>
  \<^verbatim>\<open>Array.prototype.sort(comparefn)\<close> is stable; the order in which it calls
  \<open>comparefn\<close> is the engine's. The model follows V8 (Node, Chrome), which calls
  \<open>comparefn x y\<close> with \<open>x\<close> an element that stands later in the array than \<open>y\<close>:
  it is an insertion sort that takes the elements from left to right and compares the
  element being inserted, as \<open>x\<close>, with elements already placed; an exception of
  \<open>comparefn\<close> leaves the sort. A list of fewer than two elements is returned without
  a call.
\<close>

fun insert_sorted :: "('a \<Rightarrow> 'a \<Rightarrow> error + int) \<Rightarrow> 'a \<Rightarrow> 'a list \<Rightarrow> error + 'a list" where
  "insert_sorted comparefn x [] = Inr [x]"
| "insert_sorted comparefn x (y # ys) =
     (case comparefn x y of
        Inl e \<Rightarrow> Inl e
      | Inr c \<Rightarrow>
          if c < 0 then Inr (x # y # ys)
          else (case insert_sorted comparefn x ys of
                  Inl e \<Rightarrow> Inl e
                | Inr zs \<Rightarrow> Inr (y # zs)))"

fun sort_from :: "('a \<Rightarrow> 'a \<Rightarrow> error + int) \<Rightarrow> 'a list \<Rightarrow> 'a list \<Rightarrow> error + 'a list" where
  "sort_from comparefn acc [] = Inr acc"
| "sort_from comparefn acc (x # xs) =
     (case insert_sorted comparefn x acc of
        Inl e \<Rightarrow> Inl e
      | Inr acc' \<Rightarrow> sort_from comparefn acc' xs)"

definition Array_sort :: "('a \<Rightarrow> 'a \<Rightarrow> error + int) \<Rightarrow> 'a list \<Rightarrow> error + 'a list" where
  "Array_sort comparefn xs = sort_from comparefn [] xs"

text \<open>\<^verbatim>\<open>xs[0]\<close>, \<open>None\<close> for \<^verbatim>\<open>undefined\<close>.\<close>

definition first :: "'a list \<Rightarrow> 'a option" where
  "first xs = (case xs of [] \<Rightarrow> None | x # rest \<Rightarrow> Some x)"

text \<open>
  The two filters of \<^verbatim>\<open>findStageForYearMonth\<close>:
  \<^verbatim>\<open>
    (s) => {
      if (!s?.from) return false;
      const startsOk = s.from <= ym;
      const endsOk = s.to ? ym <= s.to : true;
      return startsOk && endsOk;
    }\<close>
  and \<^verbatim>\<open>(s) => s?.from && s.from <= ym\<close>. An empty string is falsy.
\<close>

definition is_candidate :: "string \<Rightarrow> stage \<Rightarrow> bool" where
  "is_candidate ym s =
     (case from_ym s of
        None \<Rightarrow> False
      | Some f \<Rightarrow>
          if f = [] then False
          else
            (let startsOk = (f \<le> ym);
                 endsOk = (case to_ym s of
                             None \<Rightarrow> True
                           | Some t \<Rightarrow> if t \<noteq> [] then ym \<le> t else True)
             in startsOk \<and> endsOk))"

definition is_prior :: "string \<Rightarrow> stage \<Rightarrow> bool" where
  "is_prior ym s = (case from_ym s of None \<Rightarrow> False | Some f \<Rightarrow> f \<noteq> [] \<and> f \<le> ym)"

text \<open>
  \<^verbatim>\<open>
  const findStageForYearMonth = (stages, ym) => {
    if (!Array.isArray(stages) || stages.length === 0) return null;
    const candidates = stages.filter(...);
    if (candidates.length) {
      candidates.sort((a, b) => b.from.localeCompare(a.from));
      return candidates[0];
    }
    const prior = stages
      .filter((s) => s?.from && s.from <= ym)
      .sort((a, b) => b.from.localeCompare(a.from));
    if (prior.length) return prior[0];
    const earliest = [...stages].sort((a, b) => a.from.localeCompare(b.from));
    return earliest[0] || null;
  };\<close>
  \<open>None\<close> is \<^verbatim>\<open>null\<close>. Every caller passes an array.
\<close>

definition findStageForYearMonth :: "stage list \<Rightarrow> string \<Rightarrow> error + stage option" where
  "findStageForYearMonth stages ym =
     (if stages = [] then Inr None
      else
        (let candidates = filter (is_candidate ym) stages
         in if candidates \<noteq> []
            then (case Array_sort (\<lambda>a b. from_localeCompare b a) candidates of
                    Inl e \<Rightarrow> Inl e
                  | Inr ordered \<Rightarrow> Inr (first ordered))
            else
              (case Array_sort (\<lambda>a b. from_localeCompare b a) (filter (is_prior ym) stages) of
                 Inl e \<Rightarrow> Inl e
               | Inr prior \<Rightarrow>
                   if prior \<noteq> [] then Inr (first prior)
                   else
                     (case Array_sort (\<lambda>a b. from_localeCompare a b) stages of
                        Inl e \<Rightarrow> Inl e
                      | Inr earliest \<Rightarrow> Inr (first earliest)))))"

section \<open>Goal state and monthly rollover\<close>

text \<open>
  \<^verbatim>\<open>const goalState = { currentLongterm: 0, currentBuffer: 0, lastRolloverYm: null };\<close>
  The module-level object is passed and returned. \<open>None\<close> is \<^verbatim>\<open>null\<close>.
\<close>

record goalState =
  currentLongterm :: real
  currentBuffer :: real
  lastRolloverYm :: "string option"

text \<open>
  \<^verbatim>\<open>
  const initGoalState = (plan) => {
    const seedLong = safeNumber(plan?.goal?.current_longterm);
    const seedBuf = safeNumber(plan?.goal?.current_buffer);
    goalState.currentLongterm = typeof seedLong === "number" ? seedLong : 0;
    goalState.currentBuffer = typeof seedBuf === "number" ? seedBuf : 0;
    goalState.lastRolloverYm = getCurrentYearMonth(new Date());
  };\<close>
  The clock \<^verbatim>\<open>new Date()\<close> is the argument \<open>now\<close>, here and below.
\<close>

definition initGoalState :: "date \<Rightarrow> jsval \<Rightarrow> goalState" where
  "initGoalState now plan =
     (let seedLong = safeNumber (get (get plan ''goal'') ''current_longterm'');
          seedBuf = safeNumber (get (get plan ''goal'') ''current_buffer'')
      in \<lparr> currentLongterm = (case seedLong of Some x \<Rightarrow> x | None \<Rightarrow> 0),
           currentBuffer = (case seedBuf of Some x \<Rightarrow> x | None \<Rightarrow> 0),
           lastRolloverYm = Some (getCurrentYearMonth (Some now)) \<rparr>)"

text \<open>
  The part of \<^verbatim>\<open>loadPlan\<close> that sets the goal state from what \<^verbatim>\<open>loadState\<close>
  returned (\<^verbatim>\<open>null\<close> when nothing is stored or the server is away):
  \<^verbatim>\<open>
    const storedLong = safeNumber(storedState?.current_longterm);
    const storedBuf = safeNumber(storedState?.current_buffer);
    const storedYm = storedState?.last_rollover_ym;
    if (typeof storedLong === "number" && typeof storedBuf === "number") {
      goalState.currentLongterm = storedLong;
      goalState.currentBuffer = storedBuf;
      goalState.lastRolloverYm = isValidYearMonth(storedYm)
        ? storedYm
        : getCurrentYearMonth(new Date());
    } else {
      initGoalState(plan);
      await saveState();
    }\<close>
\<close>

definition loadPlan_state :: "date \<Rightarrow> jsval \<Rightarrow> jsval \<Rightarrow> goalState" where
  "loadPlan_state now plan storedState =
     (let storedLong = safeNumber (get storedState ''current_longterm'');
          storedBuf = safeNumber (get storedState ''current_buffer'');
          storedYm = get storedState ''last_rollover_ym''
      in case (storedLong, storedBuf) of
           (Some l, Some b) \<Rightarrow>
             \<lparr> currentLongterm = l, currentBuffer = b,
               lastRolloverYm =
                 (case storedYm of
                    JStr s \<Rightarrow> if isValidYearMonth storedYm then Some s
                              else Some (getCurrentYearMonth (Some now))
                  | _ \<Rightarrow> Some (getCurrentYearMonth (Some now))) \<rparr>
         | _ \<Rightarrow> initGoalState now plan)"

text \<open>\<^verbatim>\<open>stage?.saving_longterm\<close>: \<^verbatim>\<open>undefined\<close> when no stage was found.\<close>

definition field_of :: "(stage \<Rightarrow> jsval) \<Rightarrow> stage option \<Rightarrow> jsval" where
  "field_of f stage = (case stage of None \<Rightarrow> JUndefined | Some s \<Rightarrow> f s)"

text \<open>
  The body of the loop of \<^verbatim>\<open>applyMonthlyRolloverIfNeeded\<close> after the stage is
  found:
  \<^verbatim>\<open>
    const addLong = safeNumber(stage?.saving_longterm);
    const addBuf = safeNumber(stage?.saving_buffer);
    if (typeof addLong === "number") { goalState.currentLongterm += addLong; changed = true; }
    if (typeof addBuf === "number") { goalState.currentBuffer += addBuf; changed = true; }
    goalState.lastRolloverYm = ym;\<close>
\<close>

definition rollover_month :: "string \<Rightarrow> stage option \<Rightarrow> goalState \<times> bool \<Rightarrow> goalState \<times> bool" where
  "rollover_month ym stage st =
     (let addLong = safeNumber (field_of saving_longterm stage);
          addBuf = safeNumber (field_of saving_buffer stage);
          st = (case addLong of
                  Some a \<Rightarrow> ((fst st)\<lparr>currentLongterm := currentLongterm (fst st) + a\<rparr>, True)
                | None \<Rightarrow> st);
          st = (case addBuf of
                  Some b \<Rightarrow> ((fst st)\<lparr>currentBuffer := currentBuffer (fst st) + b\<rparr>, True)
                | None \<Rightarrow> st)
      in ((fst st)\<lparr>lastRolloverYm := Some ym\<rparr>, snd st))"

text \<open>
  \<^verbatim>\<open>
    while (getCurrentYearMonth(cursor) <= currentYm) {
      const ym = getCurrentYearMonth(cursor);
      const stage = findStageForYearMonth(stages, ym);
      ...
      cursor = addMonths(cursor, 1);
    }
    return changed;\<close>
  with \<open>currentYm = getCurrentYearMonth now\<close>. An exception of the stage resolver
  leaves the function.
\<close>

function rollover_loop ::
  "date \<Rightarrow> stage list \<Rightarrow> date option \<Rightarrow> goalState \<times> bool \<Rightarrow> error + goalState \<times> bool" where
  "rollover_loop now stages cursor st =
     (if getCurrentYearMonth cursor \<le> getCurrentYearMonth (Some now)
      then (case findStageForYearMonth stages (getCurrentYearMonth cursor) of
              Inl e \<Rightarrow> Inl e
            | Inr stage \<Rightarrow>
                rollover_loop now stages (addMonths cursor 1)
                  (rollover_month (getCurrentYearMonth cursor) stage st))
      else Inr st)"
  by pat_completeness auto

text \<open>
  \<^verbatim>\<open>
  const applyMonthlyRolloverIfNeeded = (stages) => {
    const now = new Date();
    const currentYm = getCurrentYearMonth(now);
    if (!goalState.lastRolloverYm) {
      goalState.lastRolloverYm = currentYm;
      return false;
    }
    if (currentYm <= goalState.lastRolloverYm) return false;
    let changed = false;
    let cursor = parseYearMonth(goalState.lastRolloverYm);
    cursor = addMonths(cursor, 1);
    while (...) { ... }
    return changed;
  };\<close>
  The result is the goal state after the call and the returned flag.
\<close>

definition applyMonthlyRolloverIfNeeded ::
  "date \<Rightarrow> stage list \<Rightarrow> goalState \<Rightarrow> error + goalState \<times> bool" where
  "applyMonthlyRolloverIfNeeded now stages gs =
     (let currentYm = getCurrentYearMonth (Some now)
      in case lastRolloverYm gs of
           None \<Rightarrow> Inr (gs\<lparr>lastRolloverYm := Some currentYm\<rparr>, False)
         | Some l \<Rightarrow>
             if l = [] then Inr (gs\<lparr>lastRolloverYm := Some currentYm\<rparr>, False)
             else if currentYm \<le> l then Inr (gs, False)
             else rollover_loop now stages (addMonths (parseYearMonth l) 1) (gs, False))"

section \<open>Goal projection\<close>

text \<open>
  The growth factor of the long-term projection comes from \<^verbatim>\<open>Math.pow\<close>, and the
  specification states what the growth gives up to floating-point tolerance. So the
  arithmetic of the engine is kept where the growth is computed: \<open>round_double e x\<close> is
  the double that an operation returns whose exact result is \<open>x\<close> (and the double that
  a literal of value \<open>x\<close> denotes), and \<open>Math_pow e\<close> is \<^verbatim>\<open>Math.pow\<close>, which the
  language leaves to the engine to approximate. Both are parameters \<open>e\<close> of the
  model: what is proved of the projection holds for every engine, and a theorem that
  needs the accuracy of the engine says what it needs. Sums of amounts are exact in the
  model, in the projections as in the rollover.
\<close>

record engine =
  round_double :: "real \<Rightarrow> real"
  Math_pow :: "real \<Rightarrow> real \<Rightarrow> real"

text \<open>
  \<^verbatim>\<open>
  const annualRate = 0.08;
  const monthlyRate = Math.pow(1 + annualRate, 1 / 12) - 1;\<close>
\<close>

definition annualRate :: "engine \<Rightarrow> real" where
  "annualRate e = round_double e (8 / 100)"

definition monthlyRate :: "engine \<Rightarrow> real" where
  "monthlyRate e =
     round_double e
       (Math_pow e (round_double e (1 + annualRate e)) (round_double e (1 / 12)) - 1)"

text \<open>\<^verbatim>\<open>{ reached: false }\<close> and \<^verbatim>\<open>{ reached: true, date }\<close>.\<close>

datatype projection = NotReached | Reached "date option"

text \<open>
  The balances after one pass of the loop of \<^verbatim>\<open>projectGoalDate\<close>, given the stage
  found for the month:
  \<^verbatim>\<open>
    const addLong = safeNumber(stage?.saving_longterm);
    const addBuf = safeNumber(stage?.saving_buffer);
    if (typeof addLong === "number") longTermBalance += addLong;
    if (typeof addBuf === "number") bufferBalance += addBuf;
    longTermBalance *= 1 + monthlyRate;\<close>
\<close>

definition goal_month :: "engine \<Rightarrow> stage option \<Rightarrow> real \<times> real \<Rightarrow> real \<times> real" where
  "goal_month e stage bal =
     (let addLong = safeNumber (field_of saving_longterm stage);
          addBuf = safeNumber (field_of saving_buffer stage);
          longTermBalance = (case addLong of Some a \<Rightarrow> fst bal + a | None \<Rightarrow> fst bal);
          bufferBalance = (case addBuf of Some b \<Rightarrow> snd bal + b | None \<Rightarrow> snd bal);
          longTermBalance =
            round_double e (longTermBalance * round_double e (1 + monthlyRate e))
      in (longTermBalance, bufferBalance))"

text \<open>
  \<^verbatim>\<open>
  for (let i = 0; i < 600; i++) {
    const ym = getCurrentYearMonth(cursor);
    const stage = findStageForYearMonth(stages, ym);
    ...
    if (longTermBalance >= targetLT && bufferBalance >= targetBuf) {
      return { reached: true, date: cursor };
    }
    cursor = addMonths(cursor, 1);
  }
  return { reached: false };\<close>
\<close>

function goal_loop ::
  "engine \<Rightarrow> stage list \<Rightarrow> real \<Rightarrow> real \<Rightarrow> nat \<Rightarrow> date option \<Rightarrow> real \<times> real \<Rightarrow>
     error + projection" where
  "goal_loop e stages targetLT targetBuf i cursor bal =
     (if i < 600
      then (case findStageForYearMonth stages (getCurrentYearMonth cursor) of
              Inl e \<Rightarrow> Inl e
            | Inr stage \<Rightarrow>
                (let bal' = goal_month e stage bal
                 in if fst bal' \<ge> targetLT \<and> snd bal' \<ge> targetBuf
                    then Inr (Reached cursor)
                    else goal_loop e stages targetLT targetBuf (i + 1) (addMonths cursor 1) bal'))
      else Inr NotReached)"
  by pat_completeness auto
termination
  by (relation "measure (\<lambda>(e, stages, targetLT, targetBuf, i, cursor, bal). 600 - i)") auto

text \<open>
  \<^verbatim>\<open>
  const projectGoalDate = (stages, goal) => {
    const targetLT = safeNumber(goal?.target_longterm);
    const targetBuf = safeNumber(goal?.target_buffer);
    const seedLong = safeNumber(goalState.currentLongterm);
    const seedBuf = safeNumber(goalState.currentBuffer);
    if (typeof targetLT !== "number" || targetLT <= 0) return { reached: false };
    if (typeof targetBuf !== "number" || targetBuf < 0) return { reached: false };
    if (typeof seedLong !== "number" || typeof seedBuf !== "number") return { reached: false };
    let longTermBalance = seedLong;
    let bufferBalance = seedBuf;
    if (longTermBalance >= targetLT && bufferBalance >= targetBuf) {
      return { reached: true, date: new Date() };
    }
    ...
    const now = new Date();
    let cursor = new Date(now.getFullYear(), now.getMonth() + 1, 1, 0, 0, 0, 0);
    for (...) { ... }
    return { reached: false };
  };\<close>
  The balances of the goal state are numbers, so the third test never fires.
\<close>

definition projectGoalDate ::
  "engine \<Rightarrow> date \<Rightarrow> stage list \<Rightarrow> jsval \<Rightarrow> goalState \<Rightarrow> error + projection" where
  "projectGoalDate e now stages goal gs =
     (case safeNumber (get goal ''target_longterm'') of
        None \<Rightarrow> Inr NotReached
      | Some targetLT \<Rightarrow>
          if targetLT \<le> 0 then Inr NotReached
          else
            (case safeNumber (get goal ''target_buffer'') of
               None \<Rightarrow> Inr NotReached
             | Some targetBuf \<Rightarrow>
                 if targetBuf < 0 then Inr NotReached
                 else if currentLongterm gs \<ge> targetLT \<and> currentBuffer gs \<ge> targetBuf
                 then Inr (Reached (Some now))
                 else goal_loop e stages targetLT targetBuf 0
                        (new_Date (getFullYear now) (getMonth now + 1))
                        (currentLongterm gs, currentBuffer gs)))"

text \<open>
  The buffer balance after one pass of the loop of \<^verbatim>\<open>projectBufferDate\<close>:
  \<^verbatim>\<open>
    const addBuf = safeNumber(stage?.saving_buffer);
    if (typeof addBuf === "number") bufferBalance += addBuf;\<close>
\<close>

definition buffer_month :: "stage option \<Rightarrow> real \<Rightarrow> real" where
  "buffer_month stage bufferBalance =
     (case safeNumber (field_of saving_buffer stage) of
        Some b \<Rightarrow> bufferBalance + b
      | None \<Rightarrow> bufferBalance)"

function buffer_loop ::
  "stage list \<Rightarrow> real \<Rightarrow> nat \<Rightarrow> date option \<Rightarrow> real \<Rightarrow> error + projection" where
  "buffer_loop stages targetBuf i cursor bufferBalance =
     (if i < 600
      then (case findStageForYearMonth stages (getCurrentYearMonth cursor) of
              Inl e \<Rightarrow> Inl e
            | Inr stage \<Rightarrow>
                (let bufferBalance' = buffer_month stage bufferBalance
                 in if bufferBalance' \<ge> targetBuf
                    then Inr (Reached cursor)
                    else buffer_loop stages targetBuf (i + 1) (addMonths cursor 1)
                           bufferBalance'))
      else Inr NotReached)"
  by pat_completeness auto
termination
  by (relation "measure (\<lambda>(stages, targetBuf, i, cursor, bufferBalance). 600 - i)") auto

text \<open>
  \<^verbatim>\<open>
  const projectBufferDate = (stages, goal) => {
    const targetBuf = safeNumber(goal?.target_buffer);
    const seedBuf = safeNumber(goalState.currentBuffer);
    if (typeof targetBuf !== "number" || targetBuf <= 0) return { reached: false };
    if (typeof seedBuf !== "number") return { reached: false };
    let bufferBalance = seedBuf;
    if (bufferBalance >= targetBuf) {
      return { reached: true, date: new Date() };
    }
    const now = new Date();
    let cursor = new Date(now.getFullYear(), now.getMonth() + 1, 1, 0, 0, 0, 0);
    for (...) { ... }
    return { reached: false };
  };\<close>
\<close>

definition projectBufferDate :: "date \<Rightarrow> stage list \<Rightarrow> jsval \<Rightarrow> goalState \<Rightarrow> error + projection" where
  "projectBufferDate now stages goal gs =
     (case safeNumber (get goal ''target_buffer'') of
        None \<Rightarrow> Inr NotReached
      | Some targetBuf \<Rightarrow>
          if targetBuf \<le> 0 then Inr NotReached
          else if currentBuffer gs \<ge> targetBuf then Inr (Reached (Some now))
          else buffer_loop stages targetBuf 0
                 (new_Date (getFullYear now) (getMonth now + 1)) (currentBuffer gs))"

section \<open>The state endpoint of the server\<close>

text \<open>
  The body that \<^verbatim>\<open>express.json()\<close> hands to the handler is what \<^verbatim>\<open>JSON.parse\<close> made
  of the text of the request: its numbers are doubles or, for a number written beyond
  the range of doubles (\<^verbatim>\<open>1e400\<close>), \<^verbatim>\<open>Infinity\<close> or \<^verbatim>\<open>-Infinity\<close>. The numbers
  of the server are those and NaN, which \<^verbatim>\<open>Number\<close> can return; a finite double is
  modelled as a real, and no arithmetic is done on them.
\<close>

datatype number = Finite real | Infinity | MinusInfinity | NaN







section \<open>Notions of the specification\<close>

text \<open>
  A malformed stage, in the words of the specification of the validator: its name is
  missing or blank, its \<^verbatim>\<open>from\<close> is not a year-month, or it has a \<^verbatim>\<open>to\<close> that is
  not a year-month.
\<close>

definition malformed :: "jsval \<Rightarrow> bool" where
  "malformed stage =
     (name_missing stage \<or> \<not> isValidYearMonth (get stage ''from'') \<or>
      (truthy (get stage ''to'') \<and> \<not> isValidYearMonth (get stage ''to'')))"

text \<open>
  The three conditions of the stage resolver, in the words of its specification: a stage
  contains \<open>ym\<close> when its \<^verbatim>\<open>from\<close> is at most \<open>ym\<close> and its \<^verbatim>\<open>to\<close> is absent
  or at least \<open>ym\<close>; it has started when its \<^verbatim>\<open>from\<close> is at most \<open>ym\<close>; and
  stages are compared by their \<^verbatim>\<open>from\<close>. All comparisons are lexical.
\<close>

definition stage_contains :: "string \<Rightarrow> stage \<Rightarrow> bool" where
  "stage_contains ym s =
     ((case from_ym s of None \<Rightarrow> False | Some f \<Rightarrow> f \<le> ym) \<and>
      (case to_ym s of None \<Rightarrow> True | Some t \<Rightarrow> ym \<le> t))"

definition stage_started :: "string \<Rightarrow> stage \<Rightarrow> bool" where
  "stage_started ym s = (case from_ym s of None \<Rightarrow> False | Some f \<Rightarrow> f \<le> ym)"

definition from_le :: "stage \<Rightarrow> stage \<Rightarrow> bool" where
  "from_le a b = (case (from_ym a, from_ym b) of (Some f, Some g) \<Rightarrow> f \<le> g | _ \<Rightarrow> False)"

text \<open>
  A stage of the data model: \<^verbatim>\<open>from\<close> is a year-month, \<^verbatim>\<open>to\<close> is absent or a
  year-month. These are the stages that \<^verbatim>\<open>validatePlan\<close> accepts.
\<close>

definition year_month_stage :: "stage \<Rightarrow> bool" where
  "year_month_stage s =
     ((case from_ym s of None \<Rightarrow> False | Some f \<Rightarrow> match_year_month f) \<and>
      (case to_ym s of None \<Rightarrow> True | Some t \<Rightarrow> match_year_month t))"

text \<open>
  For the proofs about sorting: the first element of a list is least when no element
  is strictly before it; and the string that a comparison reads from a stage.
\<close>

definition least_first :: "('a \<Rightarrow> 'a \<Rightarrow> int) \<Rightarrow> 'a list \<Rightarrow> bool" where
  "least_first c zs = (case zs of [] \<Rightarrow> True | h # rest \<Rightarrow> \<forall>z \<in> set zs. \<not> c z h < 0)"

definition from_key :: "stage \<Rightarrow> string" where
  "from_key s = (case from_ym s of None \<Rightarrow> ''undefined'' | Some f \<Rightarrow> f)"



text \<open>
  One month's growth of a long-term balance \<open>x\<close>: the product with
  \<^verbatim>\<open>1 + monthlyRate\<close>, as the engine computes it.
\<close>

definition growth :: "engine \<Rightarrow> real \<Rightarrow> real" where
  "growth e x = round_double e (x * round_double e (1 + monthlyRate e))"

text \<open>
  What the numerical statement about the growth needs of the engine. The double that an
  operation returns is within a relative error of \<open>2 ^ -53\<close> of its exact result, for
  results from \<open>1 / 1024\<close> to \<open>2 ^ 20\<close> (rounding to nearest, which neither overflows
  nor underflows there); and the value that \<^verbatim>\<open>Math.pow\<close> returns for the monthly
  growth factor is within \<open>10 ^ -15\<close> of the twelfth root of 1.08. IEEE double
  arithmetic with a \<^verbatim>\<open>Math.pow\<close> that is accurate to a few units in the last place is
  such an engine.
\<close>

definition accurate :: "engine \<Rightarrow> bool" where
  "accurate e \<longleftrightarrow>
     (\<forall>x. 1 / 1024 \<le> x \<and> x \<le> 2 ^ 20 \<longrightarrow> \<bar>round_double e x - x\<bar> \<le> x / 2 ^ 53) \<and>
     \<bar>Math_pow e (round_double e (1 + annualRate e)) (round_double e (1 / 12))
        - (108 / 100) powr (1 / 12)\<bar> \<le> 1 / 10 ^ 15"

text \<open>
  The engine whose arithmetic is exact: it rounds nothing, and its \<^verbatim>\<open>Math.pow\<close> is the
  power of the reals. A theorem about every engine is tried on it.
\<close>

definition exact_engine :: engine where
  "exact_engine = \<lparr>round_double = (\<lambda>x. x), Math_pow = (\<lambda>x y. x powr y)\<rparr>"

text \<open>
  An engine that rounds as IEEE double arithmetic does wherever no exponent overflows or
  underflows. \<open>nearest_double x\<close> is the number with 53 significant bits that is
  nearest to \<open>x\<close>, and of two equally near ones the one whose last bit is even; the
  range of the exponent is not bounded in this definition. Every operation of
  \<open>rounding_engine\<close> returns the nearest double of its exact result, and so does its
  \<^verbatim>\<open>Math.pow\<close>.
\<close>

definition round_even :: "real \<Rightarrow> int" where
  "round_even r =
     (let f = \<lfloor>r\<rfloor>
      in if r - of_int f < 1 / 2 then f
         else if 1 / 2 < r - of_int f then f + 1
         else if even f then f else f + 1)"

definition nearest_double :: "real \<Rightarrow> real" where
  "nearest_double x =
     (if x = 0 then 0
      else (let q = 2 powr (of_int \<lfloor>log 2 \<bar>x\<bar>\<rfloor> - 52)
            in of_int (round_even (x / q)) * q))"

definition rounding_engine :: engine where
  "rounding_engine =
     \<lparr>round_double = nearest_double, Math_pow = (\<lambda>x y. nearest_double (x powr y))\<rparr>"

text \<open>
  The simulation of the projections, month by month: the cursor \<open>k\<close> months after the
  first one, and the balances after \<open>n\<close> passes of the loop, each pass resolving the
  stage of its month and applying \<open>goal_month\<close> (or \<open>buffer_month\<close>) once. A deposit
  that is not a number counts as 0.
\<close>

fun months_later :: "nat \<Rightarrow> date option \<Rightarrow> date option" where
  "months_later 0 cursor = cursor"
| "months_later (Suc k) cursor = months_later k (addMonths cursor 1)"

fun goal_balances ::
  "engine \<Rightarrow> stage list \<Rightarrow> date option \<Rightarrow> nat \<Rightarrow> real \<times> real \<Rightarrow> error + real \<times> real" where
  "goal_balances e stages cursor 0 bal = Inr bal"
| "goal_balances e stages cursor (Suc n) bal =
     (case findStageForYearMonth stages (getCurrentYearMonth cursor) of
        Inl err \<Rightarrow> Inl err
      | Inr stage \<Rightarrow> goal_balances e stages (addMonths cursor 1) n (goal_month e stage bal))"

fun buffer_balance :: "stage list \<Rightarrow> date option \<Rightarrow> nat \<Rightarrow> real \<Rightarrow> error + real" where
  "buffer_balance stages cursor 0 b = Inr b"
| "buffer_balance stages cursor (Suc n) b =
     (case findStageForYearMonth stages (getCurrentYearMonth cursor) of
        Inl e \<Rightarrow> Inl e
      | Inr stage \<Rightarrow> buffer_balance stages (addMonths cursor 1) n (buffer_month stage b))"

definition deposit :: "jsval \<Rightarrow> real" where
  "deposit v = (case safeNumber v of Some a \<Rightarrow> a | None \<Rightarrow> 0)"

text \<open>
  For the catch-up of the rollover: the months applied one after the other from a
  cursor on, \<open>n\<close> of them, each resolving its stage and applying \<open>rollover_month\<close>;
  a date whose year has four digits, so that its year-month has the form
  \<^verbatim>\<open>YYYY-MM\<close>; and the decimal digits of a number padded to a width.
\<close>

fun rollover_steps ::
  "stage list \<Rightarrow> date option \<Rightarrow> nat \<Rightarrow> goalState \<times> bool \<Rightarrow> error + goalState \<times> bool" where
  "rollover_steps stages cursor 0 st = Inr st"
| "rollover_steps stages cursor (Suc n) st =
     (case findStageForYearMonth stages (getCurrentYearMonth cursor) of
        Inl e \<Rightarrow> Inl e
      | Inr stage \<Rightarrow>
          rollover_steps stages (addMonths cursor 1) n
            (rollover_month (getCurrentYearMonth cursor) stage st))"

definition four_digit :: "date \<Rightarrow> bool" where
  "four_digit d = (1000 \<le> getFullYear d \<and> getFullYear d \<le> 9999 \<and> 0 \<le> getMonth d \<and> getMonth d \<le> 11)"

fun pad_digits :: "nat \<Rightarrow> nat \<Rightarrow> string" where
  "pad_digits 0 n = []"
| "pad_digits (Suc k) n = pad_digits k (n div 10) @ [digit_char (n mod 10)]"

section \<open>The rollover loop terminates\<close>

text \<open>
  The year-month of a valid date starts with a digit or a minus sign, so the string
  \<^verbatim>\<open>NaN-NaN\<close> of an Invalid Date is never below it: the loop stops when the cursor
  leaves the range of valid dates, if not before.
\<close>

lemma digit_cases: "n < 10 \<Longrightarrow> n \<in> {0, 1, 2, 3, 4, 5, 6, 7, 8, 9 :: nat}"
  by auto

lemma digit_val_digit_char: "n < 10 \<Longrightarrow> digit_val (digit_char n) = Some n"
  using digit_cases [of n] by (auto simp: digit_val_def digit_char_def decimal_digits_def)

lemma is_digit_digit_char: "n < 10 \<Longrightarrow> is_digit (digit_char n)"
  by (simp add: is_digit_def digit_val_digit_char)

lemma String_nat_hd: "\<exists>c cs. String_nat n = c # cs \<and> is_digit c"
proof (induction n rule: String_nat.induct)
  case (1 n)
  show ?case
  proof (cases "n < 10")
    case True
    then show ?thesis
      by (subst String_nat.simps) (simp add: is_digit_digit_char)
  next
    case False
    with 1 obtain c cs where "String_nat (n div 10) = c # cs" "is_digit c" by auto
    with False show ?thesis by (subst String_nat.simps) simp
  qed
qed

lemma is_digit_less_N: "is_digit c \<Longrightarrow> c < CHR ''N''"
  by (auto simp: is_digit_def digit_val_def decimal_digits_def split: if_splits)

lemma NaN_not_le: "\<not> ''NaN-NaN'' \<le> getCurrentYearMonth (Some now)"
proof -
  obtain c cs where "String_int (getFullYear now) = c # cs" "c < CHR ''N''"
  proof (cases "getFullYear now < 0")
    case True
    then show ?thesis using that by (simp add: String_int_def)
  next
    case False
    then show ?thesis using that String_nat_hd [of "nat (getFullYear now)"] is_digit_less_N
      by (auto simp: String_int_def)
  qed
  then show ?thesis by (auto simp: not_le)
qed

lemma month_index_MakeDate: "MakeDate y m = Some d \<Longrightarrow> month_index d = 12 * y + m"
  by (auto simp: MakeDate_def Let_def month_index_def split: if_splits)

lemma MakeDate_Some_le: "MakeDate y m = Some d \<Longrightarrow> month_index d \<le> max_month_index"
  by (auto simp: MakeDate_def Let_def split: if_splits)

termination rollover_loop
proof (relation "measure (\<lambda>(now, stages, cursor, st).
          case cursor of None \<Rightarrow> 0 | Some d \<Rightarrow> 1 + nat (max_month_index + 1 - month_index d))")
  show "wf (measure (\<lambda>(now, stages, cursor, st).
          case cursor of None \<Rightarrow> 0 | Some d \<Rightarrow> 1 + nat (max_month_index + 1 - month_index d)))"
    by simp
next
  fix now :: date and stages :: "stage list" and cursor :: "date option"
    and st :: "goalState \<times> bool" and x2 :: "stage option"
  assume le: "getCurrentYearMonth cursor \<le> getCurrentYearMonth (Some now)"
  from le NaN_not_le [of now] obtain d where c: "cursor = Some d"
    by (cases cursor) auto
  show "((now, stages, addMonths cursor 1, rollover_month (getCurrentYearMonth cursor) x2 st),
         now, stages, cursor, st)
        \<in> measure (\<lambda>(now, stages, cursor, st).
          case cursor of None \<Rightarrow> 0 | Some d \<Rightarrow> 1 + nat (max_month_index + 1 - month_index d))"
  proof (cases "MakeDate (getFullYear d) (getMonth d + 1)")
    case None
    with c show ?thesis by simp
  next
    case (Some d')
    from month_index_MakeDate [OF Some] MakeDate_Some_le [OF Some] c Some
    show ?thesis by (simp add: month_index_def)
  qed
qed

declare rollover_loop.simps [simp del]
declare goal_loop.simps [simp del]
declare buffer_loop.simps [simp del]

lemma getCurrentYearMonth_not_Nil: "getCurrentYearMonth c \<noteq> []"
  by (cases c) simp_all

section \<open>Rollover without an elapsed month\<close>

text \<open>
  Claim C6. For every state whose \<^verbatim>\<open>last_rollover_ym\<close> is set and every current
  year-month that is lexically at most \<^verbatim>\<open>last_rollover_ym\<close>, the rollover leaves the
  state unchanged and reports no change; applying it again to the state it returned is
  again a no-op.
\<close>

theorem rollover_noop:
  assumes "lastRolloverYm gs = Some l"
    and "getCurrentYearMonth (Some now) \<le> l"
  shows "applyMonthlyRolloverIfNeeded now stages gs = Inr (gs, False) \<and>
         (\<forall>gs' changed. applyMonthlyRolloverIfNeeded now stages gs = Inr (gs', changed) \<longrightarrow>
            applyMonthlyRolloverIfNeeded now stages gs' = Inr (gs, False))"
proof -
  from assms(2) getCurrentYearMonth_not_Nil [of "Some now"] have "l \<noteq> []"
    by auto
  with assms have "applyMonthlyRolloverIfNeeded now stages gs = Inr (gs, False)"
    by (simp add: applyMonthlyRolloverIfNeeded_def)
  then show ?thesis by simp
qed

theorem rollover_noop_witness:
  "lastRolloverYm \<lparr>currentLongterm = 5000, currentBuffer = 700, lastRolloverYm = Some ''2025-03''\<rparr>
     = Some ''2025-03'' \<and>
   getCurrentYearMonth (Some (Date 2025 2)) \<le> ''2025-03'' \<and>
   applyMonthlyRolloverIfNeeded (Date 2025 2) []
     \<lparr>currentLongterm = 5000, currentBuffer = 700, lastRolloverYm = Some ''2025-03''\<rparr>
     = Inr (\<lparr>currentLongterm = 5000, currentBuffer = 700, lastRolloverYm = Some ''2025-03''\<rparr>,
            False)"
proof -
  have h: "getCurrentYearMonth (Some (Date 2025 2)) \<le> ''2025-03''"
    by (simp add: String_int_def String_nat.simps padStart2_def digit_char_def decimal_digits_def)
  show ?thesis
    using h rollover_noop [of "\<lparr>currentLongterm = 5000, currentBuffer = 700,
        lastRolloverYm = Some ''2025-03''\<rparr>" "''2025-03''" "Date 2025 2" "[]"]
    by simp
qed

section \<open>The validator\<close>

lemma forEach_stage_eq:
  "forEach_stage i stages issues =
     issues @ concat (map (\<lambda>(j, stage). stage_issues j stage) (zip [i ..< i + length stages] stages))"
proof (induction stages arbitrary: i issues)
  case Nil
  then show ?case by simp
next
  case (Cons s stages)
  have "[i ..< i + length (s # stages)] = i # [Suc i ..< Suc i + length stages]"
    by (subst upt_rec) simp
  then show ?case using Cons.IH [of "Suc i" "issues @ stage_issues i s"] by simp
qed

lemma malformed_issue: "malformed stage \<Longrightarrow> stage_issues i stage \<noteq> []"
  by (auto simp: malformed_def stage_issues_def)

lemma count_issues:
  "length (filter malformed stages)
     \<le> length (concat (map (\<lambda>(j, stage). stage_issues j stage) (zip [i ..< i + length stages] stages)))"
proof (induction stages arbitrary: i)
  case Nil
  then show ?case by simp
next
  case (Cons s stages)
  have u: "[i ..< i + length (s # stages)] = i # [Suc i ..< Suc i + length stages]"
    by (subst upt_rec) simp
  have "malformed s \<Longrightarrow> 1 \<le> length (stage_issues i s)"
    using malformed_issue [of s i] by (cases "stage_issues i s") auto
  then show ?case using Cons.IH [of "Suc i"] unfolding u by (cases "malformed s") auto
qed

text \<open>
  Claim C8. If the plan's \<^verbatim>\<open>stages\<close> is missing, not an array or empty, the validator
  returns exactly one issue, the one about the stages array, and no per-stage issue.
  Otherwise it returns the issues of every stage, in order, followed by the issues of the
  goal; so there are at least as many issues as malformed stages.
\<close>

theorem validatePlan_issues:
  "((\<forall>stages. get plan ''stages'' \<noteq> JArr stages) \<or> get plan ''stages'' = JArr [] \<longrightarrow>
      validatePlan plan = [''Plan must include a non-empty stages array.'']) \<and>
   (\<forall>stages. get plan ''stages'' = JArr stages \<and> stages \<noteq> [] \<longrightarrow>
      validatePlan plan =
        concat (map (\<lambda>(i, stage). stage_issues i stage) (zip [0 ..< length stages] stages)) @
        (if truthy (get plan ''goal'') then goal_issues (get plan ''goal'') else []) \<and>
      length (filter malformed stages) \<le> length (validatePlan plan))"
proof (intro conjI impI allI)
  assume "(\<forall>stages. get plan ''stages'' \<noteq> JArr stages) \<or> get plan ''stages'' = JArr []"
  then show "validatePlan plan = [''Plan must include a non-empty stages array.'']"
    by (cases "get plan ''stages''") (auto simp: validatePlan_def)
next
  fix stages
  assume a: "get plan ''stages'' = JArr stages \<and> stages \<noteq> []"
  then have t: "truthy plan" by (cases plan) auto
  with a show eq: "validatePlan plan =
        concat (map (\<lambda>(i, stage). stage_issues i stage) (zip [0 ..< length stages] stages)) @
        (if truthy (get plan ''goal'') then goal_issues (get plan ''goal'') else [])"
    using forEach_stage_eq [of 0 stages "[]"] by (simp add: validatePlan_def Let_def)
  show "length (filter malformed stages) \<le> length (validatePlan plan)"
    using count_issues [of stages 0] unfolding eq by simp
qed

theorem validatePlan_issues_witness:
  "get (JObj [(''stages'', JArr [])]) ''stages'' = JArr [] \<and>
   validatePlan (JObj [(''stages'', JArr [])]) = [''Plan must include a non-empty stages array.''] \<and>
   get (JObj [(''stages'', JArr [JObj [], JObj [(''name'', JStr ''job''), (''from'', JStr ''2025-13'')]])])
     ''stages'' = JArr [JObj [], JObj [(''name'', JStr ''job''), (''from'', JStr ''2025-13'')]] \<and>
   2 \<le> length (validatePlan
     (JObj [(''stages'', JArr [JObj [], JObj [(''name'', JStr ''job''), (''from'', JStr ''2025-13'')]])]))"
proof -
  let ?st = "[JObj [], JObj [(''name'', JStr ''job''), (''from'', JStr ''2025-13'')]]"
  let ?plan = "JObj [(''stages'', JArr ?st)]"
  have g0: "get (JObj [(''stages'', JArr [])]) ''stages'' = JArr []" by simp
  have g: "get ?plan ''stages'' = JArr ?st \<and> ?st \<noteq> []" by simp
  have m: "2 \<le> length (filter malformed ?st)"
    by (simp add: malformed_def name_missing_def match_year_month_def Number_digits_def
        digit_val_def decimal_digits_def is_digit_def)
  from validatePlan_issues [of "JObj [(''stages'', JArr [])]"] g0
  have one: "validatePlan (JObj [(''stages'', JArr [])]) = [''Plan must include a non-empty stages array.'']"
    by blast
  from validatePlan_issues [of ?plan] g
  have "length (filter malformed ?st) \<le> length (validatePlan ?plan)"
    by blast
  with m have two: "2 \<le> length (validatePlan ?plan)"
    by (rule order_trans)
  from g0 one g two show ?thesis by blast
qed

section \<open>Sorting with a comparison function\<close>

lemma insert_sorted_ok:
  assumes "\<forall>y \<in> set ys. comparefn x y = Inr (c x y)"
  shows "\<exists>zs. insert_sorted comparefn x ys = Inr zs \<and> set zs = insert x (set ys) \<and>
           first zs = Some (case ys of [] \<Rightarrow> x | h # rest \<Rightarrow> if c x h < 0 then x else h)"
  using assms
proof (induction ys)
  case Nil
  then show ?case by (simp add: first_def)
next
  case (Cons y ys)
  then obtain zs where "insert_sorted comparefn x ys = Inr zs" "set zs = insert x (set ys)"
    by auto
  with Cons.prems show ?case by (auto simp: first_def)
qed

lemma sort_from_ok:
  assumes total: "\<forall>x \<in> set acc \<union> set xs. \<forall>y \<in> set acc \<union> set xs. comparefn x y = Inr (c x y)"
    and trans: "\<And>x y z. c x y < 0 \<Longrightarrow> c y z < 0 \<Longrightarrow> c x z < 0"
    and irrefl: "\<And>x. \<not> c x x < 0"
    and least: "least_first c acc"
  shows "\<exists>zs. sort_from comparefn acc xs = Inr zs \<and> set zs = set acc \<union> set xs \<and>
           least_first c zs"
  using total least
proof (induction xs arbitrary: acc)
  case Nil
  then show ?case by simp
next
  case (Cons x xs)
  from Cons.prems(1) have "\<forall>y \<in> set acc. comparefn x y = Inr (c x y)" by simp
  from insert_sorted_ok [of acc comparefn x c, OF this] obtain zs where
    zs: "insert_sorted comparefn x acc = Inr zs" "set zs = insert x (set acc)"
      "first zs = Some (case acc of [] \<Rightarrow> x | h # rest \<Rightarrow> if c x h < 0 then x else h)"
    by blast
  have "least_first c zs"
  proof (cases acc)
    case Nil
    with zs irrefl show ?thesis
      by (cases zs) (auto simp: least_first_def first_def)
  next
    case acc: (Cons h rest)
    show ?thesis
    proof (cases "c x h < 0")
      case True
      with zs acc obtain tl where z: "zs = x # tl" by (cases zs) (auto simp: first_def)
      have "\<not> c z x < 0" if "z \<in> set acc" for z
      proof
        assume "c z x < 0"
        from this True have "c z h < 0" by (rule trans)
        with that Cons.prems(2) acc show False by (auto simp: least_first_def)
      qed
      with z zs(2) irrefl show ?thesis by (auto simp: least_first_def)
    next
      case False
      with zs acc obtain tl where z: "zs = h # tl" by (cases zs) (auto simp: first_def)
      with False zs(2) acc Cons.prems(2) show ?thesis by (auto simp: least_first_def)
    qed
  qed
  moreover from Cons.prems(1) zs(2)
  have "\<forall>a \<in> set zs \<union> set xs. \<forall>b \<in> set zs \<union> set xs. comparefn a b = Inr (c a b)" by simp
  ultimately obtain ws where "sort_from comparefn zs xs = Inr ws" "set ws = set zs \<union> set xs"
    "least_first c ws"
    using Cons.IH [of zs] by blast
  with zs show ?case by auto
qed

lemma Array_sort_first:
  assumes total: "\<forall>x \<in> set xs. \<forall>y \<in> set xs. comparefn x y = Inr (c x y)"
    and trans: "\<And>x y z. c x y < 0 \<Longrightarrow> c y z < 0 \<Longrightarrow> c x z < 0"
    and irrefl: "\<And>x. \<not> c x x < 0"
    and ne: "xs \<noteq> []"
  shows "\<exists>h zs. Array_sort comparefn xs = Inr (h # zs) \<and> h \<in> set xs \<and>
           (\<forall>z \<in> set xs. \<not> c z h < 0)"
proof -
  have "least_first c []" by (simp add: least_first_def)
  moreover from total
  have "\<forall>x \<in> set [] \<union> set xs. \<forall>y \<in> set [] \<union> set xs. comparefn x y = Inr (c x y)" by simp
  ultimately have "\<exists>zs. sort_from comparefn [] xs = Inr zs \<and> set zs = set [] \<union> set xs \<and>
           least_first c zs"
    using trans irrefl by (intro sort_from_ok) blast+
  then obtain ws where ws: "sort_from comparefn [] xs = Inr ws" "set ws = set xs"
    "least_first c ws" by auto
  with ne obtain h zs where "ws = h # zs" by (cases ws) auto
  with ws show ?thesis by (auto simp: Array_sort_def least_first_def)
qed

lemma from_localeCompare_Some:
  "from_ym x \<noteq> None \<Longrightarrow> from_localeCompare x y = Inr (localeCompare (from_key x) (from_key y))"
  by (auto simp: from_localeCompare_def from_key_def split: option.splits)

lemma localeCompare_less: "localeCompare a b < 0 \<longleftrightarrow> a < b"
  by (simp add: localeCompare_def)

lemma sort_ascending:
  assumes "\<forall>x \<in> set xs. from_ym x \<noteq> None" and "xs \<noteq> []"
  shows "\<exists>h zs. Array_sort (\<lambda>a b. from_localeCompare a b) xs = Inr (h # zs) \<and> h \<in> set xs \<and>
           (\<forall>z \<in> set xs. from_key h \<le> from_key z)"
proof -
  have "\<exists>h zs. Array_sort (\<lambda>a b. from_localeCompare a b) xs = Inr (h # zs) \<and> h \<in> set xs \<and>
           (\<forall>z \<in> set xs. \<not> localeCompare (from_key z) (from_key h) < 0)"
    by (rule Array_sort_first [where c = "\<lambda>a b. localeCompare (from_key a) (from_key b)"])
      (use assms in \<open>auto simp: from_localeCompare_Some localeCompare_less\<close>)
  then show ?thesis by (auto simp: localeCompare_less not_less)
qed

lemma sort_descending:
  assumes "\<forall>x \<in> set xs. from_ym x \<noteq> None" and "xs \<noteq> []"
  shows "\<exists>h zs. Array_sort (\<lambda>a b. from_localeCompare b a) xs = Inr (h # zs) \<and> h \<in> set xs \<and>
           (\<forall>z \<in> set xs. from_key z \<le> from_key h)"
proof -
  have "\<exists>h zs. Array_sort (\<lambda>a b. from_localeCompare b a) xs = Inr (h # zs) \<and> h \<in> set xs \<and>
           (\<forall>z \<in> set xs. \<not> localeCompare (from_key h) (from_key z) < 0)"
    by (rule Array_sort_first [where c = "\<lambda>a b. localeCompare (from_key b) (from_key a)"])
      (use assms in \<open>auto simp: from_localeCompare_Some localeCompare_less\<close>)
  then show ?thesis by (auto simp: localeCompare_less not_less)
qed





section \<open>The stage resolver\<close>

lemma match_year_month_not_Nil: "match_year_month s \<Longrightarrow> s \<noteq> []"
  by (auto simp: match_year_month_def)

lemma is_candidate_contains: "year_month_stage s \<Longrightarrow> is_candidate ym s = stage_contains ym s"
  by (auto simp: is_candidate_def stage_contains_def year_month_stage_def Let_def
      dest: match_year_month_not_Nil split: option.splits)

lemma is_prior_started: "year_month_stage s \<Longrightarrow> is_prior ym s = stage_started ym s"
  by (auto simp: is_prior_def stage_started_def year_month_stage_def
      dest: match_year_month_not_Nil split: option.splits)

lemma from_key_le: "from_ym a \<noteq> None \<Longrightarrow> from_ym b \<noteq> None \<Longrightarrow> from_key a \<le> from_key b \<Longrightarrow> from_le a b"
  by (auto simp: from_le_def from_key_def)

lemma year_month_stage_from: "year_month_stage s \<Longrightarrow> from_ym s \<noteq> None"
  by (auto simp: year_month_stage_def split: option.splits)

text \<open>
  Claim C2. On a list of stages of the data model the resolver returns null exactly for
  the empty list. Otherwise it returns a stage of the list: if some stage contains
  \<open>ym\<close>, one that contains \<open>ym\<close> and has the lexically greatest \<^verbatim>\<open>from\<close> among
  those that do; else, if some stage has started by \<open>ym\<close>, one that has started and
  has the greatest \<^verbatim>\<open>from\<close> among those; else (\<open>ym\<close> precedes every \<^verbatim>\<open>from\<close>) one
  with the lexically smallest \<^verbatim>\<open>from\<close> of all.
\<close>

theorem resolve_three_tiers:
  assumes ym: "\<forall>s \<in> set stages. year_month_stage s"
  shows "(stages = [] \<longrightarrow> findStageForYearMonth stages ym = Inr None) \<and>
         (stages \<noteq> [] \<longrightarrow>
            (\<exists>r. findStageForYearMonth stages ym = Inr (Some r) \<and> r \<in> set stages \<and>
               (if \<exists>s \<in> set stages. stage_contains ym s
                then stage_contains ym r \<and> (\<forall>s \<in> set stages. stage_contains ym s \<longrightarrow> from_le s r)
                else if \<exists>s \<in> set stages. stage_started ym s
                then stage_started ym r \<and> (\<forall>s \<in> set stages. stage_started ym s \<longrightarrow> from_le s r)
                else \<forall>s \<in> set stages. from_le r s)))"
proof (intro conjI impI)
  assume "stages = []"
  then show "findStageForYearMonth stages ym = Inr None"
    by (simp add: findStageForYearMonth_def)
next
  assume ne: "stages \<noteq> []"
  from ym have has_from: "\<forall>s \<in> set stages. from_ym s \<noteq> None"
    by (auto dest: year_month_stage_from)
  from ym have cand: "filter (is_candidate ym) stages = filter (stage_contains ym) stages"
    by (intro filter_cong) (auto simp: is_candidate_contains)
  from ym have prior: "filter (is_prior ym) stages = filter (stage_started ym) stages"
    by (intro filter_cong) (auto simp: is_prior_started)
  show "\<exists>r. findStageForYearMonth stages ym = Inr (Some r) \<and> r \<in> set stages \<and>
               (if \<exists>s \<in> set stages. stage_contains ym s
                then stage_contains ym r \<and> (\<forall>s \<in> set stages. stage_contains ym s \<longrightarrow> from_le s r)
                else if \<exists>s \<in> set stages. stage_started ym s
                then stage_started ym r \<and> (\<forall>s \<in> set stages. stage_started ym s \<longrightarrow> from_le s r)
                else \<forall>s \<in> set stages. from_le r s)"
  proof (cases "\<exists>s \<in> set stages. stage_contains ym s")
    case True
    let ?c = "filter (stage_contains ym) stages"
    from True have c_ne: "?c \<noteq> []" by (auto simp: filter_empty_conv)
    from has_from have "\<forall>x \<in> set ?c. from_ym x \<noteq> None" by simp
    from sort_descending [OF this c_ne] obtain h zs where
      h: "Array_sort (\<lambda>a b. from_localeCompare b a) ?c = Inr (h # zs)" "h \<in> set ?c"
        "\<forall>z \<in> set ?c. from_key z \<le> from_key h" by blast
    from h(2,3) has_from have "\<forall>s \<in> set stages. stage_contains ym s \<longrightarrow> from_le s h"
      by (auto intro!: from_key_le)
    with h True ne c_ne show ?thesis
      by (simp add: findStageForYearMonth_def cand first_def)
  next
    case False
    then have c_e: "filter (stage_contains ym) stages = []" by (auto simp: filter_empty_conv)
    show ?thesis
    proof (cases "\<exists>s \<in> set stages. stage_started ym s")
      case True
      let ?p = "filter (stage_started ym) stages"
      from True have p_ne: "?p \<noteq> []" by (auto simp: filter_empty_conv)
      from has_from have "\<forall>x \<in> set ?p. from_ym x \<noteq> None" by simp
      from sort_descending [OF this p_ne] obtain h zs where
        h: "Array_sort (\<lambda>a b. from_localeCompare b a) ?p = Inr (h # zs)" "h \<in> set ?p"
          "\<forall>z \<in> set ?p. from_key z \<le> from_key h" by blast
      from h(2,3) has_from have "\<forall>s \<in> set stages. stage_started ym s \<longrightarrow> from_le s h"
        by (auto intro!: from_key_le)
      with h True False ne c_e show ?thesis
        by (simp add: findStageForYearMonth_def cand prior first_def)
    next
      case nostart: False
      then have p_e: "filter (stage_started ym) stages = []" by (auto simp: filter_empty_conv)
      from sort_ascending [OF has_from ne] obtain h zs where
        h: "Array_sort (\<lambda>a b. from_localeCompare a b) stages = Inr (h # zs)" "h \<in> set stages"
          "\<forall>z \<in> set stages. from_key h \<le> from_key z" by blast
      from h(2,3) has_from have "\<forall>s \<in> set stages. from_le h s"
        by (auto intro!: from_key_le)
      with h nostart False ne c_e p_e show ?thesis
        by (simp add: findStageForYearMonth_def cand prior first_def Array_sort_def)
    qed
  qed
qed

lemma findStage_single: "findStageForYearMonth [s] ym = Inr (Some s)"
  by (simp add: findStageForYearMonth_def Array_sort_def first_def)

lemma findStage_member:
  assumes "\<forall>s \<in> set stages. from_ym s \<noteq> None"
  shows "\<exists>r. findStageForYearMonth stages ym = Inr r \<and>
           (case r of None \<Rightarrow> stages = [] | Some s \<Rightarrow> s \<in> set stages)"
proof (cases "stages = []")
  case True
  then show ?thesis by (simp add: findStageForYearMonth_def)
next
  case ne: False
  note has_from = assms
  show ?thesis
  proof (cases "filter (is_candidate ym) stages = []")
    case False
    from has_from have "\<forall>x \<in> set (filter (is_candidate ym) stages). from_ym x \<noteq> None" by simp
    from sort_descending [OF this False] obtain h zs where
      "Array_sort (\<lambda>a b. from_localeCompare b a) (filter (is_candidate ym) stages) = Inr (h # zs)"
      "h \<in> set (filter (is_candidate ym) stages)" by blast
    with False ne show ?thesis by (simp add: findStageForYearMonth_def first_def)
  next
    case True
    show ?thesis
    proof (cases "filter (is_prior ym) stages = []")
      case False
      from has_from have "\<forall>x \<in> set (filter (is_prior ym) stages). from_ym x \<noteq> None" by simp
      from sort_descending [OF this False] obtain h zs where
        "Array_sort (\<lambda>a b. from_localeCompare b a) (filter (is_prior ym) stages) = Inr (h # zs)"
        "h \<in> set (filter (is_prior ym) stages)" by blast
      with True ne show ?thesis
        by (simp add: findStageForYearMonth_def first_def Array_sort_def)
    next
      case p: True
      from sort_ascending [OF has_from ne] obtain h zs where
        "Array_sort (\<lambda>a b. from_localeCompare a b) stages = Inr (h # zs)" "h \<in> set stages"
        by blast
      with True p ne show ?thesis
        by (simp add: findStageForYearMonth_def first_def Array_sort_def)
    qed
  qed
qed




lemmas ym_eval = year_month_stage_def match_year_month_def Number_digits_def digit_val_def
  decimal_digits_def is_digit_def

theorem resolve_three_tiers_witness:
  "year_month_stage \<lparr>name = JStr ''study'', from_ym = Some ''2025-01'', to_ym = Some ''2025-06'',
                   saving_longterm = JNum 1000, saving_buffer = JNum 500\<rparr> \<and>
   year_month_stage \<lparr>name = JStr ''work'', from_ym = Some ''2026-01'', to_ym = None,
                   saving_longterm = JNum 9000, saving_buffer = JNum 1500\<rparr> \<and>
   findStageForYearMonth
     [\<lparr>name = JStr ''study'', from_ym = Some ''2025-01'', to_ym = Some ''2025-06'',
        saving_longterm = JNum 1000, saving_buffer = JNum 500\<rparr>,
      \<lparr>name = JStr ''work'', from_ym = Some ''2026-01'', to_ym = None,
        saving_longterm = JNum 9000, saving_buffer = JNum 1500\<rparr>] ''2025-08''
   = Inr (Some \<lparr>name = JStr ''study'', from_ym = Some ''2025-01'', to_ym = Some ''2025-06'',
                 saving_longterm = JNum 1000, saving_buffer = JNum 500\<rparr>)"
proof -
  let ?a = "\<lparr>name = JStr ''study'', from_ym = Some ''2025-01'', to_ym = Some ''2025-06'',
        saving_longterm = JNum 1000, saving_buffer = JNum 500\<rparr>"
  let ?b = "\<lparr>name = JStr ''work'', from_ym = Some ''2026-01'', to_ym = None,
        saving_longterm = JNum 9000, saving_buffer = JNum 1500\<rparr>"
  have h: "\<forall>s \<in> set [?a, ?b]. year_month_stage s"
    by (simp add: ym_eval)
  have c: "\<not> (\<exists>s \<in> set [?a, ?b]. stage_contains ''2025-08'' s)"
    by (simp add: stage_contains_def)
  have nb: "\<not> stage_started ''2025-08'' ?b"
    by (simp add: stage_started_def)
  from resolve_three_tiers [OF h, of "''2025-08''"] obtain r where
    r: "findStageForYearMonth [?a, ?b] ''2025-08'' = Inr (Some r)" "r \<in> set [?a, ?b]"
      "if \<exists>s \<in> set [?a, ?b]. stage_contains ''2025-08'' s
       then stage_contains ''2025-08'' r \<and> (\<forall>s \<in> set [?a, ?b]. stage_contains ''2025-08'' s \<longrightarrow> from_le s r)
       else if \<exists>s \<in> set [?a, ?b]. stage_started ''2025-08'' s
       then stage_started ''2025-08'' r \<and> (\<forall>s \<in> set [?a, ?b]. stage_started ''2025-08'' s \<longrightarrow> from_le s r)
       else \<forall>s \<in> set [?a, ?b]. from_le r s"
    by blast
  from r(3) c have "stage_started ''2025-08'' r \<or> from_le r ?a"
    by (auto split: if_splits)
  with nb r(2) have "r = ?a" by (auto simp: from_le_def)
  with r(1) h show ?thesis by simp
qed


section \<open>The precondition of the buffer projection\<close>

text \<open>
  Claim C4, as stated, fails: with a \<^verbatim>\<open>target_buffer\<close> of 0 and a buffer balance of
  100 the buffer projection returns not-reached; it does not report the threshold as
  met.
\<close>

theorem projectBufferDate_zero_target:
  "projectBufferDate (Date 2025 0) [] (JObj [(''target_buffer'', JNum 0)])
     \<lparr>currentLongterm = 0, currentBuffer = 100, lastRolloverYm = None\<rparr> = Inr NotReached"
  by (simp add: projectBufferDate_def)

text \<open>
  Claim C4, amended. The buffer projection returns not-reached at once when
  \<^verbatim>\<open>target_buffer\<close> is not a positive number, so also when it is 0. For a positive
  target it reports the threshold met now when the buffer balance is at least the
  target, and simulates otherwise.
\<close>

theorem projectBufferDate_precondition:
  "((\<forall>t. safeNumber (get goal ''target_buffer'') = Some t \<longrightarrow> t \<le> 0) \<longrightarrow>
      projectBufferDate now stages goal gs = Inr NotReached) \<and>
   (\<forall>t. safeNumber (get goal ''target_buffer'') = Some t \<and> 0 < t \<longrightarrow>
      projectBufferDate now stages goal gs =
        (if t \<le> currentBuffer gs then Inr (Reached (Some now))
         else buffer_loop stages t 0 (new_Date (getFullYear now) (getMonth now + 1))
                (currentBuffer gs)))"
  by (auto simp: projectBufferDate_def split: option.splits)

theorem projectBufferDate_precondition_witness:
  "projectBufferDate (Date 2025 0) [] (JObj [(''target_buffer'', JNum 0)])
     \<lparr>currentLongterm = 0, currentBuffer = 100, lastRolloverYm = None\<rparr> = Inr NotReached \<and>
   projectBufferDate (Date 2025 0) [] (JObj [(''target_buffer'', JNum 3000)])
     \<lparr>currentLongterm = 0, currentBuffer = 3500, lastRolloverYm = None\<rparr>
     = Inr (Reached (Some (Date 2025 0)))"
proof -
  have 1: "\<forall>t. safeNumber (get (JObj [(''target_buffer'', JNum 0)]) ''target_buffer'') = Some t \<longrightarrow> t \<le> 0"
    by simp
  have 2: "safeNumber (get (JObj [(''target_buffer'', JNum 3000)]) ''target_buffer'') = Some 3000 \<and> (0::real) < 3000"
    by simp
  from projectBufferDate_precondition [of "JObj [(''target_buffer'', JNum 0)]" "Date 2025 0" "[]"
      "\<lparr>currentLongterm = 0, currentBuffer = 100, lastRolloverYm = None\<rparr>"] 1
  have a: "projectBufferDate (Date 2025 0) [] (JObj [(''target_buffer'', JNum 0)])
     \<lparr>currentLongterm = 0, currentBuffer = 100, lastRolloverYm = None\<rparr> = Inr NotReached"
    by blast
  from projectBufferDate_precondition [of "JObj [(''target_buffer'', JNum 3000)]" "Date 2025 0" "[]"
      "\<lparr>currentLongterm = 0, currentBuffer = 3500, lastRolloverYm = None\<rparr>"] 2
  have "projectBufferDate (Date 2025 0) [] (JObj [(''target_buffer'', JNum 3000)])
     \<lparr>currentLongterm = 0, currentBuffer = 3500, lastRolloverYm = None\<rparr>
     = (if (3000::real) \<le> currentBuffer \<lparr>currentLongterm = 0, currentBuffer = 3500, lastRolloverYm = None\<rparr>
        then Inr (Reached (Some (Date 2025 0)))
         else buffer_loop [] 3000 0 (new_Date (getFullYear (Date 2025 0)) (getMonth (Date 2025 0) + 1))
                (currentBuffer \<lparr>currentLongterm = 0, currentBuffer = 3500, lastRolloverYm = None\<rparr>))"
    by blast
  then have b: "projectBufferDate (Date 2025 0) [] (JObj [(''target_buffer'', JNum 3000)])
     \<lparr>currentLongterm = 0, currentBuffer = 3500, lastRolloverYm = None\<rparr>
     = Inr (Reached (Some (Date 2025 0)))" by simp
  from a b show ?thesis by simp
qed

section \<open>Writing the state\<close>








section \<open>The projections\<close>

lemma goal_month_eq:
  "goal_month e stage (lt, buf) =
     (round_double e
        ((lt + deposit (field_of saving_longterm stage)) * round_double e (1 + monthlyRate e)),
      buf + deposit (field_of saving_buffer stage))"
  by (simp add: goal_month_def deposit_def Let_def split: option.splits)

lemma buffer_month_eq:
  "buffer_month stage b = b + deposit (field_of saving_buffer stage)"
  by (simp add: buffer_month_def deposit_def split: option.splits)

lemma goal_balances_Suc:
  "findStageForYearMonth stages (getCurrentYearMonth cursor) = Inr stage \<Longrightarrow>
   goal_balances e stages cursor (Suc n) bal =
     goal_balances e stages (addMonths cursor 1) n (goal_month e stage bal)"
  by simp

lemma buffer_balance_Suc:
  "findStageForYearMonth stages (getCurrentYearMonth cursor) = Inr stage \<Longrightarrow>
   buffer_balance stages cursor (Suc n) b =
     buffer_balance stages (addMonths cursor 1) n (buffer_month stage b)"
  by simp

lemma goal_loop_reached:
  "goal_loop e stages tLT tBuf i cursor bal = Inr (Reached c) \<Longrightarrow>
   \<exists>k bal'. i + k < 600 \<and> c = months_later k cursor \<and>
     goal_balances e stages cursor (Suc k) bal = Inr bal' \<and> tLT \<le> fst bal' \<and> tBuf \<le> snd bal' \<and>
     (\<forall>j<k. \<forall>b. goal_balances e stages cursor (Suc j) bal = Inr b \<longrightarrow> \<not> (tLT \<le> fst b \<and> tBuf \<le> snd b))"
proof (induction e stages tLT tBuf i cursor bal rule: goal_loop.induct)
  case (1 e stages tLT tBuf i cursor bal)
  from "1.prems" have i: "i < 600"
    by (subst (asm) goal_loop.simps) (auto split: if_splits)
  from "1.prems" i obtain stage where
    st: "findStageForYearMonth stages (getCurrentYearMonth cursor) = Inr stage"
    by (subst (asm) goal_loop.simps) (auto split: sum.splits)
  let ?b = "goal_month e stage bal"
  show ?case
  proof (cases "tLT \<le> fst ?b \<and> tBuf \<le> snd ?b")
    case True
    with "1.prems" i st have "c = cursor"
      by (subst (asm) goal_loop.simps) (simp add: Let_def)
    with True i st show ?thesis
      by (intro exI [of _ 0] exI [of _ ?b]) simp
  next
    case False
    with "1.prems" i st
    have "goal_loop e stages tLT tBuf (i + 1) (addMonths cursor 1) ?b = Inr (Reached c)"
      by (subst (asm) goal_loop.simps) (simp add: Let_def)
    from "1.IH" [OF i st refl _ this] False obtain k bal' where
      k: "i + 1 + k < 600" "c = months_later k (addMonths cursor 1)"
        "goal_balances e stages (addMonths cursor 1) (Suc k) ?b = Inr bal'"
        "tLT \<le> fst bal'" "tBuf \<le> snd bal'"
        "\<forall>j<k. \<forall>b. goal_balances e stages (addMonths cursor 1) (Suc j) ?b = Inr b \<longrightarrow>
            \<not> (tLT \<le> fst b \<and> tBuf \<le> snd b)"
      by auto
    have "\<forall>j<Suc k. \<forall>b. goal_balances e stages cursor (Suc j) bal = Inr b \<longrightarrow>
            \<not> (tLT \<le> fst b \<and> tBuf \<le> snd b)"
    proof (intro allI impI)
      fix j b
      assume j: "j < Suc k" and b: "goal_balances e stages cursor (Suc j) bal = Inr b"
      show "\<not> (tLT \<le> fst b \<and> tBuf \<le> snd b)"
      proof (cases j)
        case 0
        with b st False show ?thesis by simp
      next
        case (Suc j')
        with b have "goal_balances e stages (addMonths cursor 1) (Suc j') ?b = Inr b"
          by (simp only: goal_balances_Suc [OF st])
        moreover from j Suc have "j' < k" by simp
        ultimately show ?thesis using k(6) by blast
      qed
    qed
    moreover from k(3) have "goal_balances e stages cursor (Suc (Suc k)) bal = Inr bal'"
      by (simp only: goal_balances_Suc [OF st])
    ultimately show ?thesis using k(1,2,4,5)
      by (intro exI [of _ "Suc k"] exI [of _ bal']) simp
  qed
qed

lemma buffer_loop_reached:
  "buffer_loop stages tBuf i cursor b = Inr (Reached c) \<Longrightarrow>
   \<exists>k b'. i + k < 600 \<and> c = months_later k cursor \<and>
     buffer_balance stages cursor (Suc k) b = Inr b' \<and> tBuf \<le> b' \<and>
     (\<forall>j<k. \<forall>x. buffer_balance stages cursor (Suc j) b = Inr x \<longrightarrow> \<not> tBuf \<le> x)"
proof (induction stages tBuf i cursor b rule: buffer_loop.induct)
  case (1 stages tBuf i cursor b)
  from "1.prems" have i: "i < 600"
    by (subst (asm) buffer_loop.simps) (auto split: if_splits)
  from "1.prems" i obtain stage where
    st: "findStageForYearMonth stages (getCurrentYearMonth cursor) = Inr stage"
    by (subst (asm) buffer_loop.simps) (auto split: sum.splits)
  let ?b = "buffer_month stage b"
  show ?case
  proof (cases "tBuf \<le> ?b")
    case True
    with "1.prems" i st have "c = cursor"
      by (subst (asm) buffer_loop.simps) (simp add: Let_def)
    with True i st show ?thesis
      by (intro exI [of _ 0] exI [of _ ?b]) simp
  next
    case False
    with "1.prems" i st
    have "buffer_loop stages tBuf (i + 1) (addMonths cursor 1) ?b = Inr (Reached c)"
      by (subst (asm) buffer_loop.simps) (simp add: Let_def)
    from "1.IH" [OF i st refl _ this] False obtain k b' where
      k: "i + 1 + k < 600" "c = months_later k (addMonths cursor 1)"
        "buffer_balance stages (addMonths cursor 1) (Suc k) ?b = Inr b'"
        "tBuf \<le> b'"
        "\<forall>j<k. \<forall>x. buffer_balance stages (addMonths cursor 1) (Suc j) ?b = Inr x \<longrightarrow> \<not> tBuf \<le> x"
      by auto
    have "\<forall>j<Suc k. \<forall>x. buffer_balance stages cursor (Suc j) b = Inr x \<longrightarrow> \<not> tBuf \<le> x"
    proof (intro allI impI)
      fix j x
      assume j: "j < Suc k" and x: "buffer_balance stages cursor (Suc j) b = Inr x"
      show "\<not> tBuf \<le> x"
      proof (cases j)
        case 0
        with x st False show ?thesis by simp
      next
        case (Suc j')
        with x have "buffer_balance stages (addMonths cursor 1) (Suc j') ?b = Inr x"
          by (simp only: buffer_balance_Suc [OF st])
        moreover from j Suc have "j' < k" by simp
        ultimately show ?thesis using k(5) by blast
      qed
    qed
    moreover from k(3) have "buffer_balance stages cursor (Suc (Suc k)) b = Inr b'"
      by (simp only: buffer_balance_Suc [OF st])
    ultimately show ?thesis using k(1,2,4)
      by (intro exI [of _ "Suc k"] exI [of _ b']) simp
  qed
qed

lemma goal_loop_not_reached:
  "(\<forall>k. i + k < 600 \<longrightarrow>
      (\<exists>b. goal_balances e stages cursor (Suc k) bal = Inr b \<and> \<not> (tLT \<le> fst b \<and> tBuf \<le> snd b))) \<Longrightarrow>
   goal_loop e stages tLT tBuf i cursor bal = Inr NotReached"
proof (induction e stages tLT tBuf i cursor bal rule: goal_loop.induct)
  case (1 e stages tLT tBuf i cursor bal)
  show ?case
  proof (cases "i < 600")
    case False
    then show ?thesis by (subst goal_loop.simps) simp
  next
    case True
    with "1.prems" obtain b where
      b: "goal_balances e stages cursor (Suc 0) bal = Inr b" "\<not> (tLT \<le> fst b \<and> tBuf \<le> snd b)"
      by (metis add_0_right)
    then obtain stage where
      st: "findStageForYearMonth stages (getCurrentYearMonth cursor) = Inr stage"
      and gm: "goal_month e stage bal = b"
      by (cases "findStageForYearMonth stages (getCurrentYearMonth cursor)") simp_all
    have next_months: "\<forall>k. i + 1 + k < 600 \<longrightarrow>
        (\<exists>b'. goal_balances e stages (addMonths cursor 1) (Suc k) (goal_month e stage bal) = Inr b' \<and>
           \<not> (tLT \<le> fst b' \<and> tBuf \<le> snd b'))"
    proof (intro allI impI)
      fix k
      assume "i + 1 + k < 600"
      then have "i + Suc k < 600" by simp
      with "1.prems" obtain b' where
        "goal_balances e stages cursor (Suc (Suc k)) bal = Inr b'"
        "\<not> (tLT \<le> fst b' \<and> tBuf \<le> snd b')" by blast
      then show "\<exists>b'. goal_balances e stages (addMonths cursor 1) (Suc k) (goal_month e stage bal) = Inr b' \<and>
           \<not> (tLT \<le> fst b' \<and> tBuf \<le> snd b')"
        by (simp only: goal_balances_Suc [OF st]) blast
    qed
    from b(2) gm have "\<not> (tLT \<le> fst (goal_month e stage bal) \<and> tBuf \<le> snd (goal_month e stage bal))"
      by simp
    from "1.IH" [OF True st refl this next_months] True st this show ?thesis
      by (subst goal_loop.simps) (simp add: Let_def)
  qed
qed

lemma root_pow12: "((108 / 100 :: real) powr (1 / 12)) ^ 12 = 108 / 100"
proof -
  have "((108 / 100 :: real) powr (1 / 12)) ^ 12 = ((108 / 100) powr (1 / 12)) powr (real 12)"
    by (subst powr_realpow) simp_all
  also have "\<dots> = (108 / 100 :: real)"
    by (simp add: powr_powr)
  finally show ?thesis .
qed

lemma root_lower: "1006 / 1000 \<le> (108 / 100 :: real) powr (1 / 12)"
proof (rule ccontr)
  let ?a = "(108 / 100 :: real) powr (1 / 12)"
  assume "\<not> 1006 / 1000 \<le> ?a"
  then have "?a < 1006 / 1000" by simp
  moreover have "0 \<le> ?a" by simp
  ultimately have "?a ^ 12 < (1006 / 1000) ^ 12" by (intro power_strict_mono) simp_all
  also have "\<dots> \<le> (108 / 100 :: real)" by (simp add: power_divide)
  finally show False unfolding root_pow12 by simp
qed

lemma root_upper: "(108 / 100 :: real) powr (1 / 12) \<le> 1007 / 1000"
proof (rule ccontr)
  let ?a = "(108 / 100 :: real) powr (1 / 12)"
  assume "\<not> ?a \<le> 1007 / 1000"
  then have "1007 / 1000 < ?a" by simp
  then have "(1007 / 1000) ^ 12 < ?a ^ 12" by (intro power_strict_mono) simp_all
  moreover have "(108 / 100 :: real) \<le> (1007 / 1000) ^ 12" by (simp add: power_divide)
  ultimately show False unfolding root_pow12 by simp
qed

lemma power_le_linear:
  fixes d :: real
  assumes "0 \<le> d" "2 * real n * d \<le> 1"
  shows "(1 + d) ^ n \<le> 1 + 2 * real n * d"
  using assms
proof (induction n)
  case 0
  then show ?case by simp
next
  case (Suc n)
  from Suc.prems have n: "2 * real n * d \<le> 1"
    by (simp add: algebra_simps)
  from Suc.IH [OF Suc.prems(1) n] Suc.prems(1)
  have "(1 + d) ^ n * (1 + d) \<le> (1 + 2 * real n * d) * (1 + d)"
    by (intro mult_right_mono) simp_all
  also have "\<dots> = 1 + 2 * real n * d + d + (2 * real n * d) * d" by (simp add: algebra_simps)
  also from n Suc.prems(1) have "(2 * real n * d) * d \<le> 1 * d" by (intro mult_right_mono) simp_all
  finally show ?case by (simp add: algebra_simps)
qed

lemma power_ge_linear:
  fixes d :: real
  assumes "0 \<le> d" "d \<le> 1"
  shows "1 - real n * d \<le> (1 - d) ^ n"
proof -
  from assms have "- 1 \<le> - d" by simp
  from Bernoulli_inequality [OF this, of n] show ?thesis by simp
qed

lemma accurate_round:
  assumes "accurate e" "1 / 1024 \<le> x" "x \<le> 1048576"
  shows "round_double e x * 8000000000000000 \<le> x * 8000000000000001"
    and "x * 7999999999999999 \<le> round_double e x * 8000000000000000"
proof -
  define y where "y = round_double e x"
  from assms have "\<bar>y - x\<bar> \<le> x / 2 ^ 53" by (simp add: accurate_def y_def)
  then have "y - x \<le> x / 2 ^ 53" "x - y \<le> x / 2 ^ 53"
    by linarith+
  then have "(y - x) * 2 ^ 53 \<le> x" "(x - y) * 2 ^ 53 \<le> x"
    by (simp_all add: pos_le_divide_eq)
  then have "y * 9007199254740992 - x * 9007199254740992 \<le> x"
    "x * 9007199254740992 - y * 9007199254740992 \<le> x" by (simp_all add: algebra_simps)
  with assms(2) have "y * 8000000000000000 \<le> x * 8000000000000001"
    and "x * 7999999999999999 \<le> y * 8000000000000000" by linarith+
  then show "round_double e x * 8000000000000000 \<le> x * 8000000000000001"
    and "x * 7999999999999999 \<le> round_double e x * 8000000000000000"
    by (simp_all only: y_def)
qed

lemma accurate_pow:
  assumes "accurate e" and "p = Math_pow e (round_double e (1 + annualRate e)) (round_double e (1 / 12))"
    and "a = (108 / 100) powr (1 / 12)"
  shows "p * 1000000000000000 \<le> a * 1000000000000000 + 1"
    and "a * 1000000000000000 \<le> p * 1000000000000000 + 1"
proof -
  from assms have "\<bar>p - a\<bar> \<le> 1 / 10 ^ 15" by (simp add: accurate_def)
  then have "p - a \<le> 1 / 10 ^ 15" "a - p \<le> 1 / 10 ^ 15" by linarith+
  then have "(p - a) * 1000000000000000 \<le> 1" "(a - p) * 1000000000000000 \<le> 1"
    by (simp_all add: pos_le_divide_eq)
  then show "p * 1000000000000000 \<le> a * 1000000000000000 + 1"
    and "a * 1000000000000000 \<le> p * 1000000000000000 + 1"
    by (simp_all add: algebra_simps)
qed

lemma growth_factor_near:
  assumes "accurate e" and "g = round_double e (1 + monthlyRate e)"
    and "a = (108 / 100) powr (1 / 12)"
  shows "g * 1000000000000000 \<le> a * 1000000000000000 + 2"
    and "a * 1000000000000000 \<le> g * 1000000000000000 + 2"
proof -
  define p where "p = Math_pow e (round_double e (1 + annualRate e)) (round_double e (1 / 12))"
  define q where "q = p - 1"
  define r where "r = round_double e q"
  define s where "s = 1 + r"
  have g: "g = round_double e s"
    by (simp only: assms(2) monthlyRate_def p_def q_def r_def s_def)
  note p = accurate_pow [OF assms(1) p_def assms(3)]
  have a: "1006 \<le> a * 1000" "a * 1000 \<le> 1007"
    using root_lower root_upper by (simp_all add: assms(3))
  from p a have pb: "1005 \<le> p * 1000" "p * 1000 \<le> 1008" by linarith+
  with q_def have "1 / 1024 \<le> q" "q \<le> 1048576" by linarith+
  note r = accurate_round [OF assms(1) this, folded r_def]
  from r pb q_def have rb: "0 \<le> r" "r \<le> 1" by linarith+
  with s_def have "1 / 1024 \<le> s" "s \<le> 1048576" by linarith+
  note gs = accurate_round [OF assms(1) this, folded g]
  from p r gs pb rb q_def s_def
  show "g * 1000000000000000 \<le> a * 1000000000000000 + 2"
    and "a * 1000000000000000 \<le> g * 1000000000000000 + 2"
    by linarith+
qed

lemma growth_step:
  assumes "accurate e" "1 \<le> x" "x \<le> 524288"
  shows "x * ((108 / 100) powr (1 / 12) - 1 / 100000000000000) \<le> growth e x"
    and "growth e x \<le> x * ((108 / 100) powr (1 / 12) + 1 / 100000000000000)"
proof -
  define a :: real where "a = (108 / 100) powr (1 / 12)"
  define g where "g = round_double e (1 + monthlyRate e)"
  define y where "y = x * g"
  define t where "t = x * a"
  define z where "z = growth e x"
  have z: "z = round_double e y" by (simp only: z_def growth_def y_def g_def)
  have a: "1006 \<le> a * 1000" "a * 1000 \<le> 1007"
    using root_lower root_upper by (simp_all add: a_def)
  note g = growth_factor_near [OF assms(1) g_def a_def]
  with a have gb: "1 \<le> g" "g \<le> 2" by linarith+
  from assms(2) have x0: "0 \<le> x" by simp
  from g(2) have "a - g \<le> 2 / 1000000000000000" by simp
  with x0 have "x * (a - g) \<le> x * (2 / 1000000000000000)" by (rule mult_left_mono [rotated]) 
  then have lo: "t * 1000000000000000 - y * 1000000000000000 \<le> x * 2"
    by (simp add: algebra_simps t_def y_def)
  from g(1) have "g - a \<le> 2 / 1000000000000000" by simp
  with x0 have "x * (g - a) \<le> x * (2 / 1000000000000000)" by (rule mult_left_mono [rotated])
  then have hi: "y * 1000000000000000 - t * 1000000000000000 \<le> x * 2"
    by (simp add: algebra_simps t_def y_def)
  from x0 gb have "x * 1 \<le> x * g" by (intro mult_left_mono) simp_all
  with assms(2) have y1: "1 / 1024 \<le> y" unfolding y_def by linarith
  from x0 gb have y2': "y \<le> x * 2" unfolding y_def by (intro mult_left_mono) simp_all
  with assms(3) have y2: "y \<le> 1048576" by linarith
  note r = accurate_round [OF assms(1) y1 y2, folded z]
  from lo r y2' x0 have 1: "t * 100000000000000 - z * 100000000000000 \<le> x" by linarith
  from hi r y2' x0 have 2: "z * 100000000000000 - t * 100000000000000 \<le> x" by linarith
  from 1 show "x * ((108 / 100) powr (1 / 12) - 1 / 100000000000000) \<le> growth e x"
    by (simp add: algebra_simps t_def z_def a_def)
  from 2 show "growth e x \<le> x * ((108 / 100) powr (1 / 12) + 1 / 100000000000000)"
    by (simp add: algebra_simps t_def z_def a_def)
qed

lemma root_band:
  fixes a lo hi :: real
  assumes a: "a = (108 / 100) powr (1 / 12)"
    and lo: "lo = a - 1 / 100000000000000" and hi: "hi = a + 1 / 100000000000000"
  shows "1005 / 1000 \<le> lo" "hi \<le> 1008 / 1000"
    and "108 / 100 - 1 / 1000000000000 \<le> lo ^ 12" and "hi ^ 12 \<le> 108 / 100 + 1 / 1000000000000"
proof -
  define d :: real where "d = 1 / 100000000000000"
  have ab: "1006 / 1000 \<le> a" "a \<le> 1007 / 1000"
    using root_lower root_upper by (simp_all add: a)
  from ab lo hi show "1005 / 1000 \<le> lo" "hi \<le> 1008 / 1000" by linarith+
  have a12: "a ^ 12 = 108 / 100" by (simp only: a root_pow12)
  have d: "0 \<le> d" "d \<le> 1" "2 * real 12 * d \<le> 1" by (simp_all add: d_def)
  from ab d(1) have "a * 1 \<le> a * a" "0 \<le> a" by (simp_all add: mult_left_mono)
  with ab d have "d * 1 \<le> d * a" by (intro mult_left_mono) linarith+
  then have le: "a * (1 - d) \<le> lo" "hi \<le> a * (1 + d)"
    by (simp_all add: lo hi d_def algebra_simps)
  from ab d have nn: "0 \<le> a * (1 - d)" by simp
  from ab hi have hn: "0 \<le> hi" by linarith
  from power_mono [OF le(1) nn, of 12]
  have "a ^ 12 * (1 - d) ^ 12 \<le> lo ^ 12" by (simp only: power_mult_distrib)
  moreover from power_ge_linear [OF d(1,2), of 12] have "1 - real 12 * d \<le> (1 - d) ^ 12" .
  then have "(108 / 100) * (1 - real 12 * d) \<le> (108 / 100) * (1 - d) ^ 12"
    by (intro mult_left_mono) simp_all
  ultimately have "(108 / 100) * (1 - real 12 * d) \<le> lo ^ 12"
    by (simp only: a12)
  then show "108 / 100 - 1 / 1000000000000 \<le> lo ^ 12"
    by (simp add: d_def)
  from power_mono [OF le(2) hn, of 12]
  have "hi ^ 12 \<le> a ^ 12 * (1 + d) ^ 12" by (simp only: power_mult_distrib)
  moreover from power_le_linear [OF d(1,3)] have "(1 + d) ^ 12 \<le> 1 + 2 * real 12 * d" .
  then have "(108 / 100) * (1 + d) ^ 12 \<le> (108 / 100) * (1 + 2 * real 12 * d)"
    by (intro mult_left_mono) simp_all
  ultimately have "hi ^ 12 \<le> (108 / 100) * (1 + 2 * real 12 * d)"
    by (simp only: a12)
  then show "hi ^ 12 \<le> 108 / 100 + 1 / 1000000000000"
    by (simp add: d_def)
qed

lemma grown_bounds:
  fixes a lo hi :: real
  assumes acc: "accurate e" and a: "a = (108 / 100) powr (1 / 12)"
    and lo: "lo = a - 1 / 100000000000000" and hi: "hi = a + 1 / 100000000000000"
  shows "n \<le> 13 \<Longrightarrow>
    100000 * lo ^ n \<le> (growth e ^^ n) 100000 \<and> (growth e ^^ n) 100000 \<le> 100000 * hi ^ n"
proof (induction n)
  case 0
  then show ?case by simp
next
  case (Suc n)
  define x where "x = (growth e ^^ n) 100000"
  note band = root_band [OF a lo hi]
  from band have lo1: "1 \<le> lo" and hi1: "1 \<le> hi" "hi \<le> 101 / 100" "0 \<le> lo" "0 \<le> hi"
    using lo hi by linarith+
  from Suc have IH: "100000 * lo ^ n \<le> x" "x \<le> 100000 * hi ^ n" by (simp_all add: x_def)
  from lo1 have "1 \<le> lo ^ n" by (rule one_le_power)
  with IH(1) have x1: "1 \<le> x" by linarith
  from hi1 have "hi ^ n \<le> (101 / 100) ^ n" by (intro power_mono) simp_all
  also from Suc.prems have "\<dots> \<le> (101 / 100 :: real) ^ 13" by (intro power_increasing) simp_all
  also have "\<dots> \<le> 5" by (simp add: power_divide)
  finally have "hi ^ n \<le> 5" .
  with IH(2) have x2: "x \<le> 524288" by linarith
  from growth_step [OF acc x1 x2]
  have s: "x * lo \<le> growth e x" "growth e x \<le> x * hi" by (simp_all only: a lo hi)
  from IH(1) lo1 have "100000 * lo ^ n * lo \<le> x * lo" by (intro mult_right_mono) simp_all
  with s(1) have 1: "100000 * lo ^ Suc n \<le> growth e x" by (simp add: mult.assoc mult.commute)
  from IH(2) hi1 have "x * hi \<le> 100000 * hi ^ n * hi" by (intro mult_right_mono) simp_all
  with s(2) have 2: "growth e x \<le> 100000 * hi ^ Suc n" by (simp add: mult.assoc mult.commute)
  from 1 2 show ?case by (simp add: x_def)
qed

lemma twelve_months:
  assumes "accurate e"
  shows "(growth e ^^ 12) 100000 \<le> 108000 + 1 / 1000000"
    and "108000 - 1 / 1000000 \<le> (growth e ^^ 12) 100000"
    and "n \<le> 11 \<Longrightarrow> (growth e ^^ n) 100000 \<le> 107500"
    and "n \<le> 12 \<Longrightarrow> (growth e ^^ n) 100000 \<le> 108000 + 1 / 1000000"
    and "108500 \<le> (growth e ^^ 13) 100000"
proof -
  define a :: real where "a = (108 / 100) powr (1 / 12)"
  define lo where "lo = a - 1 / 100000000000000"
  define hi where "hi = a + 1 / 100000000000000"
  note band = root_band [OF a_def lo_def hi_def]
  note gb = grown_bounds [OF assms a_def lo_def hi_def]
  define x where "x = (growth e ^^ 12) 100000"
  define L where "L = lo ^ 12"
  define H where "H = hi ^ 12"
  from gb [of 12] have x: "100000 * L \<le> x" "x \<le> 100000 * H" by (simp_all add: x_def L_def H_def)
  from band(3,4) have LH: "108 / 100 - 1 / 1000000000000 \<le> L" "H \<le> 108 / 100 + 1 / 1000000000000"
    by (simp_all only: L_def H_def)
  from x LH show u12: "(growth e ^^ 12) 100000 \<le> 108000 + 1 / 1000000"
    and "108000 - 1 / 1000000 \<le> (growth e ^^ 12) 100000"
    unfolding x_def [symmetric] by linarith+
  from band have hi1: "1 \<le> hi" "1006 / 1000 \<le> hi" "0 \<le> hi"
    using root_lower by (simp_all add: hi_def a_def)
  define H11 where "H11 = hi ^ 11"
  have "0 \<le> H11" using hi1 by (simp add: H11_def)
  with hi1 have "H11 * (1006 / 1000) \<le> H11 * hi" by (intro mult_left_mono) simp_all
  also have "H11 * hi = H"
  proof -
    have "(12::nat) = Suc 11" by simp
    then show ?thesis by (simp only: H11_def H_def power_Suc2)
  qed
  finally have h11: "H11 * 1006 \<le> H * 1000" by simp
  {
    assume n: "n \<le> 11"
    then have "n \<le> 13" by simp
    from gb [OF this] have "(growth e ^^ n) 100000 \<le> 100000 * hi ^ n" by simp
    moreover from hi1 n have "hi ^ n \<le> H11" unfolding H11_def by (intro power_increasing) simp_all
    ultimately show "(growth e ^^ n) 100000 \<le> 107500" using h11 LH by linarith
  }
  {
    assume n: "n \<le> 12"
    then have "n \<le> 13" by simp
    from gb [OF this] have "(growth e ^^ n) 100000 \<le> 100000 * hi ^ n" by simp
    moreover from hi1 n have "hi ^ n \<le> H" unfolding H_def by (intro power_increasing) simp_all
    ultimately show "(growth e ^^ n) 100000 \<le> 108000 + 1 / 1000000" using LH by linarith
  }
  from band have lo1: "1005 / 1000 \<le> lo" by simp
  have "0 \<le> L" using lo1 by (simp add: L_def)
  with lo1 have "L * (1005 / 1000) \<le> L * lo" by (intro mult_left_mono) simp_all
  also have "L * lo = lo ^ 13"
  proof -
    have "(13::nat) = Suc 12" by simp
    then show ?thesis by (simp only: L_def power_Suc2)
  qed
  finally have "L * 1005 \<le> lo ^ 13 * 1000" by simp
  moreover from gb [of 13] have "100000 * lo ^ 13 \<le> (growth e ^^ 13) 100000" by simp
  ultimately show "108500 \<le> (growth e ^^ 13) 100000" using LH by linarith
qed

lemma goal_month_growth:
  "goal_month e stage (lt, buf) =
     (growth e (lt + deposit (field_of saving_longterm stage)),
      buf + deposit (field_of saving_buffer stage))"
  by (simp only: goal_month_eq growth_def)

lemma goal_balances_no_deposit:
  assumes "\<forall>s \<in> set stages. from_ym s \<noteq> None \<and> deposit (saving_longterm s) = 0"
  shows "\<exists>buf'. goal_balances e stages cursor n (lt, buf) = Inr ((growth e ^^ n) lt, buf') \<and>
           ((\<forall>s \<in> set stages. deposit (saving_buffer s) = 0) \<longrightarrow> buf' = buf)"
proof (induction n arbitrary: cursor lt buf)
  case 0
  then show ?case by simp
next
  case (Suc n)
  from assms have "\<forall>s \<in> set stages. from_ym s \<noteq> None" by simp
  from findStage_member [OF this, of "getCurrentYearMonth cursor"] obtain r where
    r: "findStageForYearMonth stages (getCurrentYearMonth cursor) = Inr r"
      "case r of None \<Rightarrow> stages = [] | Some s \<Rightarrow> s \<in> set stages" by blast
  with assms have lt0: "deposit (field_of saving_longterm r) = 0"
    by (cases r) (auto simp: field_of_def deposit_def)
  from r(2) have buf0: "(\<forall>s \<in> set stages. deposit (saving_buffer s) = 0) \<longrightarrow>
      deposit (field_of saving_buffer r) = 0"
    by (cases r) (auto simp: field_of_def deposit_def)
  from lt0 have gm: "goal_month e r (lt, buf) =
      (growth e lt, buf + deposit (field_of saving_buffer r))"
    by (simp add: goal_month_growth)
  have step: "goal_balances e stages cursor (Suc n) (lt, buf) =
      goal_balances e stages (addMonths cursor 1) n
        (growth e lt, buf + deposit (field_of saving_buffer r))"
    by (simp only: goal_balances_Suc [OF r(1)] gm)
  from Suc [of "addMonths cursor 1" "growth e lt" "buf + deposit (field_of saving_buffer r)"]
  obtain buf' where b: "goal_balances e stages (addMonths cursor 1) n
        (growth e lt, buf + deposit (field_of saving_buffer r))
      = Inr ((growth e ^^ n) (growth e lt), buf')"
    "(\<forall>s \<in> set stages. deposit (saving_buffer s) = 0) \<longrightarrow>
       buf' = buf + deposit (field_of saving_buffer r)" by blast
  have "(growth e ^^ n) (growth e lt) = (growth e ^^ Suc n) lt"
    by (simp only: funpow_swap1 funpow.simps o_apply)
  with step b(1) have "goal_balances e stages cursor (Suc n) (lt, buf)
      = Inr ((growth e ^^ Suc n) lt, buf')" by simp
  moreover from b(2) buf0 have "(\<forall>s \<in> set stages. deposit (saving_buffer s) = 0) \<longrightarrow> buf' = buf"
    by simp
  ultimately show ?case by blast
qed

lemma goal_loop_reaches:
  "i + k < 600 \<Longrightarrow> goal_balances e stages cursor (Suc k) bal = Inr b \<Longrightarrow>
   tLT \<le> fst b \<and> tBuf \<le> snd b \<Longrightarrow>
   (\<forall>j<k. \<exists>b'. goal_balances e stages cursor (Suc j) bal = Inr b' \<and>
      \<not> (tLT \<le> fst b' \<and> tBuf \<le> snd b')) \<Longrightarrow>
   goal_loop e stages tLT tBuf i cursor bal = Inr (Reached (months_later k cursor))"
proof (induction k arbitrary: i cursor bal)
  case 0
  from "0.prems"(2) obtain stage where
    st: "findStageForYearMonth stages (getCurrentYearMonth cursor) = Inr stage"
    and gm: "goal_month e stage bal = b"
    by (cases "findStageForYearMonth stages (getCurrentYearMonth cursor)") simp_all
  with "0.prems"(1,3) show ?case
    by (subst goal_loop.simps) (simp add: Let_def)
next
  case (Suc k)
  from Suc.prems(4) obtain b0 where
    b0: "goal_balances e stages cursor (Suc 0) bal = Inr b0" "\<not> (tLT \<le> fst b0 \<and> tBuf \<le> snd b0)"
    by blast
  then obtain stage where
    st: "findStageForYearMonth stages (getCurrentYearMonth cursor) = Inr stage"
    and gm: "goal_month e stage bal = b0"
    by (cases "findStageForYearMonth stages (getCurrentYearMonth cursor)") simp_all
  from Suc.prems(1) have i: "i < 600" "i + 1 + k < 600" by simp_all
  from Suc.prems(2)
  have reach: "goal_balances e stages (addMonths cursor 1) (Suc k) (goal_month e stage bal) = Inr b"
    by (simp only: goal_balances_Suc [OF st])
  have before: "\<forall>j<k. \<exists>b'. goal_balances e stages (addMonths cursor 1) (Suc j) (goal_month e stage bal)
      = Inr b' \<and> \<not> (tLT \<le> fst b' \<and> tBuf \<le> snd b')"
  proof (intro allI impI)
    fix j
    assume "j < k"
    then have "Suc j < Suc k" by simp
    with Suc.prems(4) obtain b' where
      "goal_balances e stages cursor (Suc (Suc j)) bal = Inr b'"
      "\<not> (tLT \<le> fst b' \<and> tBuf \<le> snd b')" by blast
    then show "\<exists>b'. goal_balances e stages (addMonths cursor 1) (Suc j) (goal_month e stage bal)
      = Inr b' \<and> \<not> (tLT \<le> fst b' \<and> tBuf \<le> snd b')"
      by (simp only: goal_balances_Suc [OF st]) blast
  qed
  from Suc.IH [OF i(2) reach Suc.prems(3) before]
  have "goal_loop e stages tLT tBuf (i + 1) (addMonths cursor 1) (goal_month e stage bal)
      = Inr (Reached (months_later (Suc k) cursor))" by simp
  with i(1) st gm b0(2) show ?case
    by (subst goal_loop.simps) (auto simp: Let_def)
qed

lemma projectGoalDate_simulates:
  assumes "safeNumber (get goal ''target_longterm'') = Some tLT" "0 < tLT"
    "safeNumber (get goal ''target_buffer'') = Some tBuf" "0 \<le> tBuf"
    "\<not> (tLT \<le> currentLongterm gs \<and> tBuf \<le> currentBuffer gs)"
  shows "projectGoalDate e now stages goal gs =
     goal_loop e stages tLT tBuf 0 (new_Date (getFullYear now) (getMonth now + 1))
       (currentLongterm gs, currentBuffer gs)"
  using assms by (auto simp: projectGoalDate_def)

lemma zero_deposit_projection:
  assumes acc: "accurate e"
    and stages: "\<forall>s \<in> set stages. from_ym s \<noteq> None \<and> deposit (saving_longterm s) = 0 \<and>
          deposit (saving_buffer s) = 0"
    and seed: "currentLongterm gs = 100000"
    and tBuf: "safeNumber (get goal ''target_buffer'') = Some tBuf" "0 \<le> tBuf"
       "tBuf \<le> currentBuffer gs"
    and tLT: "safeNumber (get goal ''target_longterm'') = Some tLT" "100000 < tLT"
    and k: "k < 600" "tLT \<le> (growth e ^^ Suc k) 100000"
       "\<forall>j<k. (growth e ^^ Suc j) 100000 < tLT"
  shows "projectGoalDate e now stages goal gs =
     Inr (Reached (months_later k (new_Date (getFullYear now) (getMonth now + 1))))"
proof -
  let ?start = "new_Date (getFullYear now) (getMonth now + 1)"
  from stages have lt0: "\<forall>s \<in> set stages. from_ym s \<noteq> None \<and> deposit (saving_longterm s) = 0"
    and buf0: "\<forall>s \<in> set stages. deposit (saving_buffer s) = 0" by simp_all
  have bal: "goal_balances e stages ?start n (100000, currentBuffer gs)
      = Inr ((growth e ^^ n) 100000, currentBuffer gs)" for n
    using goal_balances_no_deposit [OF lt0, of e ?start n 100000 "currentBuffer gs"] buf0
    by auto
  from tLT(2) seed have not_now: "\<not> (tLT \<le> currentLongterm gs \<and> tBuf \<le> currentBuffer gs)"
    by simp
  from tLT(2) have pos: "0 < tLT" by simp
  have "goal_loop e stages tLT tBuf 0 ?start (100000, currentBuffer gs)
      = Inr (Reached (months_later k ?start))"
  proof (rule goal_loop_reaches)
    from k(1) show "0 + k < 600" by simp
    show "goal_balances e stages ?start (Suc k) (100000, currentBuffer gs)
      = Inr ((growth e ^^ Suc k) 100000, currentBuffer gs)" by (rule bal)
    from k(2) tBuf(3)
    show "tLT \<le> fst ((growth e ^^ Suc k) 100000, currentBuffer gs) \<and>
        tBuf \<le> snd ((growth e ^^ Suc k) 100000, currentBuffer gs)" by simp
    show "\<forall>j<k. \<exists>b'. goal_balances e stages ?start (Suc j) (100000, currentBuffer gs) = Inr b' \<and>
        \<not> (tLT \<le> fst b' \<and> tBuf \<le> snd b')"
    proof (intro allI impI)
      fix j
      assume "j < k"
      with k(3) have "(growth e ^^ Suc j) 100000 < tLT" by blast
      then show "\<exists>b'. goal_balances e stages ?start (Suc j) (100000, currentBuffer gs) = Inr b' \<and>
        \<not> (tLT \<le> fst b' \<and> tBuf \<le> snd b')"
        by (simp only: bal) simp
    qed
  qed
  with projectGoalDate_simulates [OF tLT(1) pos tBuf(1,2) not_now, of e now stages] seed
  show ?thesis by simp
qed

text \<open>
  Claim C3. One pass of the loop of the long-term projection adds the stage's deposits
  (a deposit that is not a number adds nothing) and then multiplies the long-term
  balance, and only it, once by \<^verbatim>\<open>1 + monthlyRate\<close>, the engine's value of
  \<open>1 + (1.08 powr (1/12) - 1)\<close>. With a positive \<^verbatim>\<open>target_longterm\<close> and a
  \<^verbatim>\<open>target_buffer\<close> that is not negative, the projection reports the present date
  when both targets are met already; otherwise it reports the first of the 600 months
  from next month on after whose pass both balances meet their targets, whichever of
  the 600 it is, reports not-reached when none of them does, and reports no month
  beyond these. On an accurate engine and with stages that deposit nothing into the
  long-term balance, 100000 becomes \<open>100000 * 1.08\<close> after 12 passes to within
  \<open>10 ^ -6\<close>; and from a long-term balance of 100000 the projection reports the 12th
  simulated month for a target of 107999.99 and the 13th for a target of 108000.01.
\<close>

theorem goal_projection_growth:
  "goal_month e stage (lt, buf) =
     (round_double e
        ((lt + deposit (field_of saving_longterm stage)) * round_double e (1 + monthlyRate e)),
      buf + deposit (field_of saving_buffer stage)) \<and>
   (safeNumber (get goal ''target_longterm'') = Some tLT \<and> 0 < tLT \<and>
    safeNumber (get goal ''target_buffer'') = Some tBuf \<and> 0 \<le> tBuf \<longrightarrow>
      (tLT \<le> currentLongterm gs \<and> tBuf \<le> currentBuffer gs \<longrightarrow>
         projectGoalDate e now stages goal gs = Inr (Reached (Some now))) \<and>
      (\<not> (tLT \<le> currentLongterm gs \<and> tBuf \<le> currentBuffer gs) \<longrightarrow>
         (\<forall>k b. k < 600 \<and>
            goal_balances e stages (new_Date (getFullYear now) (getMonth now + 1)) (Suc k)
              (currentLongterm gs, currentBuffer gs) = Inr b \<and>
            tLT \<le> fst b \<and> tBuf \<le> snd b \<and>
            (\<forall>j<k. \<exists>b'. goal_balances e stages (new_Date (getFullYear now) (getMonth now + 1))
                 (Suc j) (currentLongterm gs, currentBuffer gs) = Inr b' \<and>
               \<not> (tLT \<le> fst b' \<and> tBuf \<le> snd b')) \<longrightarrow>
            projectGoalDate e now stages goal gs =
              Inr (Reached (months_later k (new_Date (getFullYear now) (getMonth now + 1))))) \<and>
         ((\<forall>k<600. \<exists>b. goal_balances e stages (new_Date (getFullYear now) (getMonth now + 1))
               (Suc k) (currentLongterm gs, currentBuffer gs) = Inr b \<and>
             \<not> (tLT \<le> fst b \<and> tBuf \<le> snd b)) \<longrightarrow>
            projectGoalDate e now stages goal gs = Inr NotReached) \<and>
         (\<forall>c. projectGoalDate e now stages goal gs = Inr (Reached c) \<longrightarrow>
            (\<exists>k b. k < 600 \<and>
               c = months_later k (new_Date (getFullYear now) (getMonth now + 1)) \<and>
               goal_balances e stages (new_Date (getFullYear now) (getMonth now + 1)) (Suc k)
                 (currentLongterm gs, currentBuffer gs) = Inr b \<and>
               tLT \<le> fst b \<and> tBuf \<le> snd b)))) \<and>
   (accurate e \<and> (\<forall>s \<in> set stages. from_ym s \<noteq> None \<and> deposit (saving_longterm s) = 0) \<longrightarrow>
      (\<exists>lt' buf'. goal_balances e stages cursor 12 (100000, buf) = Inr (lt', buf') \<and>
         \<bar>lt' - 100000 * (108 / 100)\<bar> \<le> 1 / 1000000)) \<and>
   (accurate e \<and>
    (\<forall>s \<in> set stages. from_ym s \<noteq> None \<and> deposit (saving_longterm s) = 0 \<and>
       deposit (saving_buffer s) = 0) \<and>
    currentLongterm gs = 100000 \<and>
    safeNumber (get goal ''target_buffer'') = Some tBuf \<and> 0 \<le> tBuf \<and> tBuf \<le> currentBuffer gs \<longrightarrow>
      (safeNumber (get goal ''target_longterm'') = Some (10799999 / 100) \<longrightarrow>
         projectGoalDate e now stages goal gs =
           Inr (Reached (months_later 11 (new_Date (getFullYear now) (getMonth now + 1))))) \<and>
      (safeNumber (get goal ''target_longterm'') = Some (10800001 / 100) \<longrightarrow>
         projectGoalDate e now stages goal gs =
           Inr (Reached (months_later 12 (new_Date (getFullYear now) (getMonth now + 1))))))"
proof (intro conjI)
  show "goal_month e stage (lt, buf) =
     (round_double e
        ((lt + deposit (field_of saving_longterm stage)) * round_double e (1 + monthlyRate e)),
      buf + deposit (field_of saving_buffer stage))"
    by (rule goal_month_eq)
next
  let ?start = "new_Date (getFullYear now) (getMonth now + 1)"
  let ?seed = "(currentLongterm gs, currentBuffer gs)"
  show "safeNumber (get goal ''target_longterm'') = Some tLT \<and> 0 < tLT \<and>
    safeNumber (get goal ''target_buffer'') = Some tBuf \<and> 0 \<le> tBuf \<longrightarrow>
      (tLT \<le> currentLongterm gs \<and> tBuf \<le> currentBuffer gs \<longrightarrow>
         projectGoalDate e now stages goal gs = Inr (Reached (Some now))) \<and>
      (\<not> (tLT \<le> currentLongterm gs \<and> tBuf \<le> currentBuffer gs) \<longrightarrow>
         (\<forall>k b. k < 600 \<and> goal_balances e stages ?start (Suc k) ?seed = Inr b \<and>
            tLT \<le> fst b \<and> tBuf \<le> snd b \<and>
            (\<forall>j<k. \<exists>b'. goal_balances e stages ?start (Suc j) ?seed = Inr b' \<and>
               \<not> (tLT \<le> fst b' \<and> tBuf \<le> snd b')) \<longrightarrow>
            projectGoalDate e now stages goal gs = Inr (Reached (months_later k ?start))) \<and>
         ((\<forall>k<600. \<exists>b. goal_balances e stages ?start (Suc k) ?seed = Inr b \<and>
             \<not> (tLT \<le> fst b \<and> tBuf \<le> snd b)) \<longrightarrow>
            projectGoalDate e now stages goal gs = Inr NotReached) \<and>
         (\<forall>c. projectGoalDate e now stages goal gs = Inr (Reached c) \<longrightarrow>
            (\<exists>k b. k < 600 \<and> c = months_later k ?start \<and>
               goal_balances e stages ?start (Suc k) ?seed = Inr b \<and>
               tLT \<le> fst b \<and> tBuf \<le> snd b)))"
  proof (intro impI conjI allI)
    assume t: "safeNumber (get goal ''target_longterm'') = Some tLT \<and> 0 < tLT \<and>
      safeNumber (get goal ''target_buffer'') = Some tBuf \<and> 0 \<le> tBuf"
      and "tLT \<le> currentLongterm gs \<and> tBuf \<le> currentBuffer gs"
    then show "projectGoalDate e now stages goal gs = Inr (Reached (Some now))"
      by (auto simp: projectGoalDate_def)
  next
    fix k b
    assume t: "safeNumber (get goal ''target_longterm'') = Some tLT \<and> 0 < tLT \<and>
      safeNumber (get goal ''target_buffer'') = Some tBuf \<and> 0 \<le> tBuf"
      and n: "\<not> (tLT \<le> currentLongterm gs \<and> tBuf \<le> currentBuffer gs)"
      and k: "k < 600 \<and> goal_balances e stages ?start (Suc k) ?seed = Inr b \<and>
            tLT \<le> fst b \<and> tBuf \<le> snd b \<and>
            (\<forall>j<k. \<exists>b'. goal_balances e stages ?start (Suc j) ?seed = Inr b' \<and>
               \<not> (tLT \<le> fst b' \<and> tBuf \<le> snd b'))"
    from t n have sim: "projectGoalDate e now stages goal gs = goal_loop e stages tLT tBuf 0 ?start ?seed"
      by (intro projectGoalDate_simulates) simp_all
    from k have "0 + k < 600" "goal_balances e stages ?start (Suc k) ?seed = Inr b"
      "tLT \<le> fst b \<and> tBuf \<le> snd b"
      "\<forall>j<k. \<exists>b'. goal_balances e stages ?start (Suc j) ?seed = Inr b' \<and>
               \<not> (tLT \<le> fst b' \<and> tBuf \<le> snd b')" by simp_all
    from goal_loop_reaches [OF this] sim
    show "projectGoalDate e now stages goal gs = Inr (Reached (months_later k ?start))" by simp
  next
    assume t: "safeNumber (get goal ''target_longterm'') = Some tLT \<and> 0 < tLT \<and>
      safeNumber (get goal ''target_buffer'') = Some tBuf \<and> 0 \<le> tBuf"
      and n: "\<not> (tLT \<le> currentLongterm gs \<and> tBuf \<le> currentBuffer gs)"
      and none: "\<forall>k<600. \<exists>b. goal_balances e stages ?start (Suc k) ?seed = Inr b \<and>
             \<not> (tLT \<le> fst b \<and> tBuf \<le> snd b)"
    from t n have sim: "projectGoalDate e now stages goal gs = goal_loop e stages tLT tBuf 0 ?start ?seed"
      by (intro projectGoalDate_simulates) simp_all
    from none have "\<forall>k. 0 + k < 600 \<longrightarrow> (\<exists>b. goal_balances e stages ?start (Suc k) ?seed = Inr b \<and>
             \<not> (tLT \<le> fst b \<and> tBuf \<le> snd b))" by simp
    from goal_loop_not_reached [OF this] sim
    show "projectGoalDate e now stages goal gs = Inr NotReached" by simp
  next
    fix c
    assume t: "safeNumber (get goal ''target_longterm'') = Some tLT \<and> 0 < tLT \<and>
      safeNumber (get goal ''target_buffer'') = Some tBuf \<and> 0 \<le> tBuf"
      and n: "\<not> (tLT \<le> currentLongterm gs \<and> tBuf \<le> currentBuffer gs)"
      and r: "projectGoalDate e now stages goal gs = Inr (Reached c)"
    from t n have sim: "projectGoalDate e now stages goal gs = goal_loop e stages tLT tBuf 0 ?start ?seed"
      by (intro projectGoalDate_simulates) simp_all
    with r have "goal_loop e stages tLT tBuf 0 ?start ?seed = Inr (Reached c)" by simp
    from goal_loop_reached [OF this]
    show "\<exists>k b. k < 600 \<and> c = months_later k ?start \<and>
               goal_balances e stages ?start (Suc k) ?seed = Inr b \<and>
               tLT \<le> fst b \<and> tBuf \<le> snd b" by auto
  qed
next
  show "accurate e \<and> (\<forall>s \<in> set stages. from_ym s \<noteq> None \<and> deposit (saving_longterm s) = 0) \<longrightarrow>
      (\<exists>lt' buf'. goal_balances e stages cursor 12 (100000, buf) = Inr (lt', buf') \<and>
         \<bar>lt' - 100000 * (108 / 100)\<bar> \<le> 1 / 1000000)"
  proof
    assume a: "accurate e \<and> (\<forall>s \<in> set stages. from_ym s \<noteq> None \<and> deposit (saving_longterm s) = 0)"
    then have acc: "accurate e"
      and st: "\<forall>s \<in> set stages. from_ym s \<noteq> None \<and> deposit (saving_longterm s) = 0" by simp_all
    from goal_balances_no_deposit [OF st, of e cursor 12 100000 buf] obtain buf' where
      b: "goal_balances e stages cursor 12 (100000, buf) = Inr ((growth e ^^ 12) 100000, buf')"
      by blast
    define x where "x = (growth e ^^ 12) 100000"
    from twelve_months(1,2) [OF acc]
    have "x \<le> 108000 + 1 / 1000000" "108000 - 1 / 1000000 \<le> x" by (simp_all only: x_def)
    then have "\<bar>x - 108000\<bar> \<le> 1 / 1000000" by linarith
    then have "\<bar>(growth e ^^ 12) 100000 - 100000 * (108 / 100)\<bar> \<le> 1 / 1000000"
      by (simp add: x_def)
    with b show "\<exists>lt' buf'. goal_balances e stages cursor 12 (100000, buf) = Inr (lt', buf') \<and>
         \<bar>lt' - 100000 * (108 / 100)\<bar> \<le> 1 / 1000000" by blast
  qed
next
  let ?start = "new_Date (getFullYear now) (getMonth now + 1)"
  show "accurate e \<and>
    (\<forall>s \<in> set stages. from_ym s \<noteq> None \<and> deposit (saving_longterm s) = 0 \<and>
       deposit (saving_buffer s) = 0) \<and>
    currentLongterm gs = 100000 \<and>
    safeNumber (get goal ''target_buffer'') = Some tBuf \<and> 0 \<le> tBuf \<and> tBuf \<le> currentBuffer gs \<longrightarrow>
      (safeNumber (get goal ''target_longterm'') = Some (10799999 / 100) \<longrightarrow>
         projectGoalDate e now stages goal gs = Inr (Reached (months_later 11 ?start))) \<and>
      (safeNumber (get goal ''target_longterm'') = Some (10800001 / 100) \<longrightarrow>
         projectGoalDate e now stages goal gs = Inr (Reached (months_later 12 ?start)))"
  proof (intro impI conjI)
    assume a: "accurate e \<and>
      (\<forall>s \<in> set stages. from_ym s \<noteq> None \<and> deposit (saving_longterm s) = 0 \<and>
         deposit (saving_buffer s) = 0) \<and>
      currentLongterm gs = 100000 \<and>
      safeNumber (get goal ''target_buffer'') = Some tBuf \<and> 0 \<le> tBuf \<and> tBuf \<le> currentBuffer gs"
      and t: "safeNumber (get goal ''target_longterm'') = Some (10799999 / 100)"
    then have acc: "accurate e" by simp
    have reach: "10799999 / 100 \<le> (growth e ^^ Suc 11) 100000"
      using twelve_months(2) [OF acc] by simp
    have before: "\<forall>j<11. (growth e ^^ Suc j) 100000 < 10799999 / 100"
    proof (intro allI impI)
      fix j :: nat
      assume "j < 11"
      then have "Suc j \<le> 11" by simp
      from twelve_months(3) [OF acc this] show "(growth e ^^ Suc j) 100000 < 10799999 / 100"
        by simp
    qed
    from a t reach before show "projectGoalDate e now stages goal gs = Inr (Reached (months_later 11 ?start))"
      by (intro zero_deposit_projection [where tBuf = tBuf and tLT = "10799999 / 100"]) simp_all
  next
    assume a: "accurate e \<and>
      (\<forall>s \<in> set stages. from_ym s \<noteq> None \<and> deposit (saving_longterm s) = 0 \<and>
         deposit (saving_buffer s) = 0) \<and>
      currentLongterm gs = 100000 \<and>
      safeNumber (get goal ''target_buffer'') = Some tBuf \<and> 0 \<le> tBuf \<and> tBuf \<le> currentBuffer gs"
      and t: "safeNumber (get goal ''target_longterm'') = Some (10800001 / 100)"
    then have acc: "accurate e" by simp
    have reach: "10800001 / 100 \<le> (growth e ^^ Suc 12) 100000"
      using twelve_months(5) [OF acc] by simp
    have before: "\<forall>j<12. (growth e ^^ Suc j) 100000 < 10800001 / 100"
    proof (intro allI impI)
      fix j :: nat
      assume "j < 12"
      then have "Suc j \<le> 12" by simp
      from twelve_months(4) [OF acc this] show "(growth e ^^ Suc j) 100000 < 10800001 / 100"
        by simp
    qed
    from a t reach before show "projectGoalDate e now stages goal gs = Inr (Reached (months_later 12 ?start))"
      by (intro zero_deposit_projection [where tBuf = tBuf and tLT = "10800001 / 100"]) simp_all
  qed
qed

lemma monthlyRate_nonneg: "0 \<le> monthlyRate exact_engine"
  by (simp add: monthlyRate_def annualRate_def exact_engine_def ge_one_powr_ge_zero)

lemmas date_eval = new_Date_def MakeDate_def month_index_def min_month_index_def
  max_month_index_def Let_def

lemma round_even_near: "\<bar>of_int (round_even r) - r\<bar> \<le> 1 / 2"
proof -
  have "of_int \<lfloor>r\<rfloor> \<le> r" "r < of_int \<lfloor>r\<rfloor> + 1" by linarith+
  then show ?thesis by (auto simp: round_even_def Let_def)
qed

lemma nearest_double_near:
  assumes "0 < x"
  shows "\<bar>nearest_double x - x\<bar> \<le> x / 2 ^ 53"
proof -
  define k where "k = \<lfloor>log 2 x\<rfloor>"
  define q :: real where "q = 2 powr (of_int k - 52)"
  have q: "0 < q" by (simp add: q_def)
  from assms have nd: "nearest_double x = of_int (round_even (x / q)) * q"
    by (simp add: nearest_double_def q_def k_def Let_def)
  have "of_int k \<le> log 2 x" by (simp add: k_def)
  with assms have "2 powr of_int k \<le> x" by (simp add: powr_le_iff)
  moreover have "2 powr of_int k = q * 2 ^ 52"
    by (simp add: q_def powr_diff powr_realpow [symmetric])
  ultimately have x: "q * 2 ^ 52 \<le> x" by simp
  have "of_int (round_even (x / q)) * q - x = (of_int (round_even (x / q)) - x / q) * q"
    using q by (simp add: field_simps)
  then have "\<bar>of_int (round_even (x / q)) * q - x\<bar> = \<bar>of_int (round_even (x / q)) - x / q\<bar> * \<bar>q\<bar>"
    by (simp only: abs_mult)
  also from q have "\<bar>q\<bar> = q" by simp
  also from round_even_near [of "x / q"] q
  have "\<bar>of_int (round_even (x / q)) - x / q\<bar> * q \<le> (1 / 2) * q"
    by (intro mult_right_mono) simp_all
  also have "(1 / 2) * q = q * 2 ^ 52 / 2 ^ 53" by simp
  also from x have "\<dots> \<le> x / 2 ^ 53" by (intro divide_right_mono) simp_all
  finally show ?thesis by (simp only: nd)
qed

lemma nearest_double_band:
  assumes "0 < x"
  shows "nearest_double x * 8000000000000000 \<le> x * 8000000000000001"
    and "x * 7999999999999999 \<le> nearest_double x * 8000000000000000"
proof -
  define y where "y = nearest_double x"
  from nearest_double_near [OF assms] have "\<bar>y - x\<bar> \<le> x / 2 ^ 53" by (simp only: y_def)
  then have "y - x \<le> x / 2 ^ 53" "x - y \<le> x / 2 ^ 53" by linarith+
  then have "(y - x) * 2 ^ 53 \<le> x" "(x - y) * 2 ^ 53 \<le> x"
    by (simp_all add: pos_le_divide_eq)
  then have "y * 9007199254740992 - x * 9007199254740992 \<le> x"
    "x * 9007199254740992 - y * 9007199254740992 \<le> x" by (simp_all add: algebra_simps)
  with assms have "y * 8000000000000000 \<le> x * 8000000000000001"
    and "x * 7999999999999999 \<le> y * 8000000000000000" by linarith+
  then show "nearest_double x * 8000000000000000 \<le> x * 8000000000000001"
    and "x * 7999999999999999 \<le> nearest_double x * 8000000000000000"
    by (simp_all only: y_def)
qed

lemma small_power:
  fixes x t :: real
  assumes "1 \<le> x" "x \<le> 2" "0 \<le> t" "t \<le> 1"
  shows "1 \<le> x powr t" "x powr t \<le> 1 + 2 * t"
proof -
  from assms show "1 \<le> x powr t" by (simp add: ge_one_powr_ge_zero)
  from assms have "x powr t \<le> 2 powr t" by (intro powr_mono2) simp_all
  also have "2 powr t = exp (t * ln 2)" by (simp add: powr_def)
  also have "\<dots> \<le> exp t"
  proof -
    have "ln (2::real) \<le> 1" using ln_2_less_1 by simp
    with assms(3) have "t * ln 2 \<le> t * 1" by (intro mult_left_mono)
    then show ?thesis by simp
  qed
  also from assms have "exp t \<le> 1 + t + t\<^sup>2" by (intro exp_bound)
  also have "t\<^sup>2 \<le> t"
  proof -
    from assms have "t * t \<le> 1 * t" by (intro mult_right_mono)
    then show ?thesis by (simp add: power2_eq_square)
  qed
  finally show "x powr t \<le> 1 + 2 * t" by simp
qed

lemma twelfth_root_near:
  fixes z a w :: real
  assumes "0 \<le> z" "1 \<le> a" "z ^ 12 \<le> a ^ 12 + w" "a ^ 12 - w \<le> z ^ 12"
  shows "z \<le> a + w" "a - w \<le> z"
proof -
  define A where "A = a ^ 11"
  from assms(2) have A: "1 \<le> A" unfolding A_def by (rule one_le_power)
  have twelve: "(12::nat) = Suc 11" by simp
  have a12: "a ^ 12 = a * A" by (simp only: twelve power_Suc A_def)
  have z12: "z ^ 12 = z * z ^ 11" by (simp only: twelve power_Suc)
  show "z \<le> a + w"
  proof (cases "a \<le> z")
    case True
    with assms(2) have "a ^ 11 \<le> z ^ 11" by (intro power_mono) simp_all
    with assms(1) have "z * A \<le> z * z ^ 11" unfolding A_def by (intro mult_left_mono)
    with assms(3) have "z * A \<le> a * A + w" by (simp only: a12 z12)
    then have "(z - a) * A \<le> w" by (simp add: algebra_simps)
    moreover from True A have "(z - a) * 1 \<le> (z - a) * A" by (intro mult_left_mono) simp_all
    ultimately show ?thesis by simp
  next
    case False
    with assms(2) have "0 \<le> a ^ 12 - z ^ 12"
      using power_mono [of z a 12] assms(1) by simp
    with assms(4) have "0 \<le> w" by linarith
    with False show ?thesis by simp
  qed
  show "a - w \<le> z"
  proof (cases "z \<le> a")
    case True
    with assms(1) have "z ^ 11 \<le> a ^ 11" by (intro power_mono) simp_all
    with assms(1) have "z * z ^ 11 \<le> z * A" unfolding A_def by (intro mult_left_mono)
    with assms(4) have "a * A - w \<le> z * A" by (simp only: a12 z12)
    then have "(a - z) * A \<le> w" by (simp add: algebra_simps)
    moreover from True A have "(a - z) * 1 \<le> (a - z) * A" by (intro mult_left_mono) simp_all
    ultimately show ?thesis by simp
  next
    case False
    with assms(2) have "0 \<le> z ^ 12 - a ^ 12"
      using power_mono [of a z 12] by simp
    with assms(3) have "0 \<le> w" by linarith
    with False show ?thesis by simp
  qed
qed

lemma rounded_arguments:
  fixes X Y :: real
  assumes X: "X = nearest_double (1 + nearest_double (8 / 100))"
    and Y: "Y = nearest_double (1 / 12)"
  shows "108 / 100 - 2 / 10000000000000000 \<le> X" "X \<le> 108 / 100 + 2 / 10000000000000000"
    and "1 - 2 / 10000000000000000 \<le> 12 * Y" "12 * Y \<le> 1 + 2 / 10000000000000000"
proof -
  define r where "r = nearest_double (8 / 100)"
  define s where "s = 1 + r"
  have X': "X = nearest_double s" by (simp only: X s_def r_def)
  have "(0::real) < 8 / 100" by simp
  note r = nearest_double_band [OF this, folded r_def]
  from r have rb: "0 < r" "r \<le> 1" by linarith+
  with s_def have s: "0 < s" by linarith
  note x = nearest_double_band [OF s, folded X']
  from x r s_def show "108 / 100 - 2 / 10000000000000000 \<le> X"
    "X \<le> 108 / 100 + 2 / 10000000000000000" by linarith+
  have "(0::real) < 1 / 12" by simp
  note y = nearest_double_band [OF this, folded Y]
  from y show "1 - 2 / 10000000000000000 \<le> 12 * Y" "12 * Y \<le> 1 + 2 / 10000000000000000"
    by linarith+
qed

lemma rounded_power_near:
  fixes X Y :: real
  assumes X: "X = nearest_double (1 + nearest_double (8 / 100))"
    and Y: "Y = nearest_double (1 / 12)"
  shows "\<bar>nearest_double (X powr Y) - (108 / 100) powr (1 / 12)\<bar> \<le> 1 / 10 ^ 15"
proof -
  define a :: real where "a = (108 / 100) powr (1 / 12)"
  define d :: real where "d = 2 / 10000000000000000"
  define z where "z = X powr Y"
  define t where "t = X powr d"
  note arg = rounded_arguments [OF X Y, folded d_def]
  have d: "0 \<le> d" "d \<le> 1" "d = 2 / 10000000000000000" by (simp_all add: d_def)
  from arg(1,2) d have Xb: "1 \<le> X" "X \<le> 2" "0 < X" by linarith+
  have a: "1006 / 1000 \<le> a" "a \<le> 1007 / 1000"
    using root_lower root_upper by (simp_all add: a_def)
  have a12: "a ^ 12 = 108 / 100" by (simp only: a_def root_pow12)
  from small_power [OF Xb(1,2) d(1,2), folded t_def] have t: "1 \<le> t" "t \<le> 1 + 2 * d" .
  have z0: "0 < z" using Xb by (simp add: z_def)
  have "z ^ 12 = z powr (real 12)" using z0 by (simp only: powr_realpow)
  also have "\<dots> = X powr (12 * Y)" by (simp add: z_def powr_powr mult.commute)
  finally have z12: "z ^ 12 = X powr (12 * Y)" .
  from arg(4) Xb(1) have "X powr (12 * Y) \<le> X powr (1 + d)" by (intro powr_mono) simp_all
  also from Xb have "\<dots> = X * t" by (simp add: powr_add t_def)
  finally have up: "z ^ 12 \<le> X * t" by (simp only: z12)
  from arg(3) Xb(1) have "X powr (1 - d) \<le> X powr (12 * Y)" by (intro powr_mono) simp_all
  moreover from Xb have "X powr (1 - d) = X / t" by (simp add: powr_diff t_def)
  ultimately have "X / t \<le> z ^ 12" by (simp only: z12)
  with t have lo: "X \<le> z ^ 12 * t" by (simp add: pos_divide_le_eq)
  define P where "P = z ^ 12"
  from z0 have P0: "0 \<le> P" by (simp add: P_def)
  from arg(2) d(3) have X109: "X \<le> 109 / 100" by linarith
  from Xb t d have "X * t \<le> X * (1 + 2 * d)" by (intro mult_left_mono) simp_all
  with up have up': "P \<le> X + X * (2 * d)" by (simp add: P_def algebra_simps)
  from X109 d have "X * (2 * d) \<le> (109 / 100) * (2 * d)" by (intro mult_right_mono) simp_all
  with up' arg(2) d(3) have P_hi: "P \<le> 108 / 100 + 7 / 10000000000000000" by linarith
  then have P2: "P \<le> 109 / 100" by linarith
  from P0 t have "P * t \<le> P * (1 + 2 * d)" by (intro mult_left_mono) simp_all
  with lo have lo': "X \<le> P + P * (2 * d)" by (simp add: P_def algebra_simps)
  from P2 d have "P * (2 * d) \<le> (109 / 100) * (2 * d)" by (intro mult_right_mono) simp_all
  with lo' arg(1) d(3) have P_lo: "108 / 100 - 7 / 10000000000000000 \<le> P" by linarith
  define w :: real where "w = 7 / 10000000000000000"
  from P_hi P_lo have Pw: "z ^ 12 \<le> a ^ 12 + w" "a ^ 12 - w \<le> z ^ 12"
    by (simp_all only: a12 P_def w_def)
  from a have a1: "1 \<le> a" by linarith
  from z0 have z0': "0 \<le> z" by simp
  note zb = twelfth_root_near [OF z0' a1 Pw]
  define y where "y = nearest_double z"
  note y = nearest_double_band [OF z0, folded y_def]
  from zb a w_def have "z \<le> 2" by linarith
  with y zb w_def have "y - a \<le> 1 / 1000000000000000" "a - y \<le> 1 / 1000000000000000"
    by linarith+
  then have "\<bar>y - a\<bar> \<le> 1 / 1000000000000000" by linarith
  then show ?thesis by (simp add: y_def z_def a_def)
qed

lemma accurate_rounding_engine: "accurate rounding_engine"
proof -
  have "\<bar>nearest_double x - x\<bar> \<le> x / 2 ^ 53" if "1 / 1024 \<le> x" for x
  proof -
    from that have "0 < x" by simp
    then show ?thesis by (rule nearest_double_near)
  qed
  moreover have "\<bar>nearest_double
        (nearest_double (1 + nearest_double (8 / 100)) powr nearest_double (1 / 12))
      - (108 / 100) powr (1 / 12)\<bar> \<le> 1 / 10 ^ 15"
    by (rule rounded_power_near) simp_all
  ultimately show ?thesis
    by (simp add: accurate_def rounding_engine_def annualRate_def)
qed

lemma exact_round: "round_double exact_engine x = x"
  by (simp add: exact_engine_def)

lemma accurate_exact: "accurate exact_engine"
  by (simp add: accurate_def exact_engine_def annualRate_def)

lemma growth_exact_0: "(growth exact_engine ^^ n) 0 = 0"
  by (induction n) (simp_all add: growth_def exact_round)

theorem goal_projection_growth_witness:
  "accurate exact_engine \<and>
   projectGoalDate exact_engine (Date 2025 0)
     [\<lparr>name = JStr ''work'', from_ym = Some ''2025-01'', to_ym = None,
       saving_longterm = JNum 200, saving_buffer = JNum 500\<rparr>]
     (JObj [(''target_longterm'', JNum 100), (''target_buffer'', JNum 1000)])
     \<lparr>currentLongterm = 0, currentBuffer = 0, lastRolloverYm = None\<rparr>
     = Inr (Reached (Some (Date 2025 2))) \<and>
   (\<exists>k b. k < 600 \<and> Some (Date 2025 2) = months_later k (new_Date 2025 1) \<and>
      goal_balances exact_engine
        [\<lparr>name = JStr ''work'', from_ym = Some ''2025-01'', to_ym = None,
          saving_longterm = JNum 200, saving_buffer = JNum 500\<rparr>]
        (new_Date 2025 1) (Suc k) (0, 0) = Inr b \<and> 100 \<le> fst b \<and> 1000 \<le> snd b) \<and>
   projectGoalDate exact_engine (Date 2025 0)
     [\<lparr>name = JStr ''work'', from_ym = Some ''2025-01'', to_ym = None,
       saving_longterm = JNum 200, saving_buffer = JNum 500\<rparr>]
     (JObj [(''target_longterm'', JNum 100), (''target_buffer'', JNum 1000)])
     \<lparr>currentLongterm = 150, currentBuffer = 1000, lastRolloverYm = None\<rparr>
     = Inr (Reached (Some (Date 2025 0))) \<and>
   projectGoalDate exact_engine (Date 2025 0)
     [\<lparr>name = JStr ''idle'', from_ym = Some ''2025-01'', to_ym = None,
       saving_longterm = JNum 0, saving_buffer = JNull\<rparr>]
     (JObj [(''target_longterm'', JNum 100), (''target_buffer'', JNum 0)])
     \<lparr>currentLongterm = 0, currentBuffer = 0, lastRolloverYm = None\<rparr>
     = Inr NotReached \<and>
   accurate rounding_engine \<and>
   (\<exists>lt' buf'. goal_balances rounding_engine
      [\<lparr>name = JStr ''idle'', from_ym = Some ''2025-01'', to_ym = None,
         saving_longterm = JNum 0, saving_buffer = JNull\<rparr>]
      (Some (Date 2025 1)) 12 (100000, 0) = Inr (lt', buf') \<and>
      \<bar>lt' - 108000\<bar> \<le> 1 / 1000000) \<and>
   projectGoalDate rounding_engine (Date 2025 0)
     [\<lparr>name = JStr ''idle'', from_ym = Some ''2025-01'', to_ym = None,
       saving_longterm = JNum 0, saving_buffer = JNull\<rparr>]
     (JObj [(''target_longterm'', JNum (10799999 / 100)), (''target_buffer'', JNum 0)])
     \<lparr>currentLongterm = 100000, currentBuffer = 0, lastRolloverYm = None\<rparr>
     = Inr (Reached (Some (Date 2026 0))) \<and>
   projectGoalDate rounding_engine (Date 2025 0)
     [\<lparr>name = JStr ''idle'', from_ym = Some ''2025-01'', to_ym = None,
       saving_longterm = JNum 0, saving_buffer = JNull\<rparr>]
     (JObj [(''target_longterm'', JNum (10800001 / 100)), (''target_buffer'', JNum 0)])
     \<lparr>currentLongterm = 100000, currentBuffer = 0, lastRolloverYm = None\<rparr>
     = Inr (Reached (Some (Date 2026 1)))"
proof -
  let ?e = exact_engine
  let ?r = rounding_engine
  let ?now = "Date 2025 0"
  let ?s = "\<lparr>name = JStr ''work'', from_ym = Some ''2025-01'', to_ym = None,
       saving_longterm = JNum 200, saving_buffer = JNum 500\<rparr>"
  let ?z = "\<lparr>name = JStr ''idle'', from_ym = Some ''2025-01'', to_ym = None,
       saving_longterm = JNum 0, saving_buffer = JNull\<rparr>"
  let ?goal = "JObj [(''target_longterm'', JNum 100), (''target_buffer'', JNum 1000)]"
  let ?goalZ = "JObj [(''target_longterm'', JNum 100), (''target_buffer'', JNum 0)]"
  let ?goalA = "JObj [(''target_longterm'', JNum (10799999 / 100)), (''target_buffer'', JNum 0)]"
  let ?goalB = "JObj [(''target_longterm'', JNum (10800001 / 100)), (''target_buffer'', JNum 0)]"
  let ?gs = "\<lparr>currentLongterm = 0, currentBuffer = 0, lastRolloverYm = None\<rparr>"
  let ?met = "\<lparr>currentLongterm = 150, currentBuffer = 1000, lastRolloverYm = None\<rparr>"
  let ?seeded = "\<lparr>currentLongterm = 100000, currentBuffer = 0, lastRolloverYm = None\<rparr>"
  let ?start = "new_Date (getFullYear ?now) (getMonth ?now + 1)"
  define G where "G = 1 + monthlyRate exact_engine"
  have G: "1 \<le> G" using monthlyRate_nonneg by (simp add: G_def)
  have start: "?start = Some (Date 2025 1)" by (simp add: date_eval)
  have next_month: "addMonths (Some (Date 2025 1)) 1 = Some (Date 2025 2)" by (simp add: date_eval)
  have gm: "goal_month ?e (Some ?s) (lt, buf) = ((lt + 200) * G, buf + 500)" for lt buf
    by (simp add: goal_month_eq field_of_def deposit_def exact_round G_def)
  have one: "goal_balances ?e [?s] ?start (Suc 0) (0, 0) = Inr (200 * G, 500)"
    by (simp add: findStage_single gm del: getCurrentYearMonth.simps)
  have "goal_balances ?e [?s] ?start (Suc (Suc 0)) (0, 0) = Inr ((200 * G + 200) * G, 1000)"
    by (simp add: findStage_single gm del: getCurrentYearMonth.simps addMonths.simps)
  then have two: "goal_balances ?e [?s] ?start (Suc 1) (0, 0) = Inr ((200 * G + 200) * G, 1000)"
    by (simp only: One_nat_def)
  from G have "400 * 1 \<le> (200 * G + 200) * G" by (intro mult_mono) simp_all
  then have ge: "100 \<le> (200 * G + 200) * G" by linarith
  have t: "safeNumber (get ?goal ''target_longterm'') = Some 100 \<and> (0::real) < 100 \<and>
      safeNumber (get ?goal ''target_buffer'') = Some 1000 \<and> (0::real) \<le> 1000" by simp
  have not_now: "\<not> ((100::real) \<le> currentLongterm ?gs \<and> (1000::real) \<le> currentBuffer ?gs)" by simp
  have first_fails: "\<forall>j<1. \<exists>b'. goal_balances ?e [?s] ?start (Suc j) (currentLongterm ?gs, currentBuffer ?gs) = Inr b' \<and>
      \<not> (100 \<le> fst b' \<and> 1000 \<le> snd b')"
    using one by simp
  from two ge have second: "(1::nat) < 600 \<and>
      goal_balances ?e [?s] ?start (Suc 1) (currentLongterm ?gs, currentBuffer ?gs)
        = Inr ((200 * G + 200) * G, 1000) \<and>
      100 \<le> fst ((200 * G + 200) * G, 1000 :: real) \<and> 1000 \<le> snd ((200 * G + 200) * G, 1000 :: real)"
    by simp
  from goal_projection_growth [where e = ?e and now = ?now and stages = "[?s]" and goal = ?goal
      and gs = ?gs and tLT = 100 and tBuf = 1000] t not_now
  have sim: "(\<forall>k b. k < 600 \<and>
            goal_balances ?e [?s] ?start (Suc k) (currentLongterm ?gs, currentBuffer ?gs) = Inr b \<and>
            100 \<le> fst b \<and> 1000 \<le> snd b \<and>
            (\<forall>j<k. \<exists>b'. goal_balances ?e [?s] ?start (Suc j) (currentLongterm ?gs, currentBuffer ?gs) = Inr b' \<and>
               \<not> (100 \<le> fst b' \<and> 1000 \<le> snd b')) \<longrightarrow>
            projectGoalDate ?e ?now [?s] ?goal ?gs = Inr (Reached (months_later k ?start)))"
    and only: "\<forall>c. projectGoalDate ?e ?now [?s] ?goal ?gs = Inr (Reached c) \<longrightarrow>
            (\<exists>k b. k < 600 \<and> c = months_later k ?start \<and>
               goal_balances ?e [?s] ?start (Suc k) (currentLongterm ?gs, currentBuffer ?gs) = Inr b \<and>
               100 \<le> fst b \<and> 1000 \<le> snd b)"
    by blast+
  from sim second first_fails
  have "projectGoalDate ?e ?now [?s] ?goal ?gs = Inr (Reached (months_later 1 ?start))"
    by blast
  then have run: "projectGoalDate ?e ?now [?s] ?goal ?gs = Inr (Reached (Some (Date 2025 2)))"
    by (simp only: start One_nat_def months_later.simps next_month)
  from only run
  have "\<exists>k b. k < 600 \<and> Some (Date 2025 2) = months_later k ?start \<and>
      goal_balances ?e [?s] ?start (Suc k) (currentLongterm ?gs, currentBuffer ?gs) = Inr b \<and>
      100 \<le> fst b \<and> 1000 \<le> snd b" by blast
  then have found: "\<exists>k b. k < 600 \<and> Some (Date 2025 2) = months_later k (new_Date 2025 1) \<and>
      goal_balances ?e [?s] (new_Date 2025 1) (Suc k) (0, 0) = Inr b \<and> 100 \<le> fst b \<and> 1000 \<le> snd b"
    by simp
  have met: "(100::real) \<le> currentLongterm ?met \<and> (1000::real) \<le> currentBuffer ?met" by simp
  from goal_projection_growth [where e = ?e and now = ?now and stages = "[?s]" and goal = ?goal
      and gs = ?met and tLT = 100 and tBuf = 1000] t met
  have already: "projectGoalDate ?e ?now [?s] ?goal ?met = Inr (Reached (Some ?now))"
    by blast
  have z: "\<forall>s \<in> set [?z]. from_ym s \<noteq> None \<and> deposit (saving_longterm s) = 0"
    and zz: "\<forall>s \<in> set [?z]. from_ym s \<noteq> None \<and> deposit (saving_longterm s) = 0 \<and>
       deposit (saving_buffer s) = 0"
    by (simp_all add: deposit_def)
  have t0: "safeNumber (get ?goalZ ''target_longterm'') = Some 100 \<and> (0::real) < 100 \<and>
      safeNumber (get ?goalZ ''target_buffer'') = Some 0 \<and> (0::real) \<le> 0" by simp
  have not_now0: "\<not> ((100::real) \<le> currentLongterm ?gs \<and> (0::real) \<le> currentBuffer ?gs)" by simp
  have idle: "\<forall>k<600. \<exists>b. goal_balances ?e [?z] ?start (Suc k) (currentLongterm ?gs, currentBuffer ?gs) = Inr b \<and>
      \<not> (100 \<le> fst b \<and> 0 \<le> snd b)"
  proof (intro allI impI)
    fix k :: nat
    from goal_balances_no_deposit [OF z, of ?e ?start "Suc k" 0 0]
    obtain buf' where "goal_balances ?e [?z] ?start (Suc k) (0, 0)
        = Inr ((growth ?e ^^ Suc k) 0, buf')" by blast
    then show "\<exists>b. goal_balances ?e [?z] ?start (Suc k) (currentLongterm ?gs, currentBuffer ?gs) = Inr b \<and>
      \<not> (100 \<le> fst b \<and> 0 \<le> snd b)"
      by (simp add: growth_exact_0 del: funpow.simps goal_balances.simps)
  qed
  from goal_projection_growth [where e = ?e and now = ?now and stages = "[?z]" and goal = ?goalZ
      and gs = ?gs and tLT = 100 and tBuf = 0] t0 not_now0 idle
  have never: "projectGoalDate ?e ?now [?z] ?goalZ ?gs = Inr NotReached"
    by blast
  from goal_projection_growth [where e = ?r and stages = "[?z]" and cursor = "Some (Date 2025 1)"
      and buf = 0] accurate_rounding_engine z
  have "\<exists>lt' buf'. goal_balances ?r [?z] (Some (Date 2025 1)) 12 (100000, 0) = Inr (lt', buf') \<and>
      \<bar>lt' - 100000 * (108 / 100)\<bar> \<le> 1 / 1000000" by blast
  then have twelve: "\<exists>lt' buf'. goal_balances ?r [?z] (Some (Date 2025 1)) 12 (100000, 0) = Inr (lt', buf') \<and>
      \<bar>lt' - 108000\<bar> \<le> 1 / 1000000" by simp
  have hyp: "accurate ?r \<and>
      (\<forall>s \<in> set [?z]. from_ym s \<noteq> None \<and> deposit (saving_longterm s) = 0 \<and>
         deposit (saving_buffer s) = 0) \<and>
      currentLongterm ?seeded = 100000 \<and>
      safeNumber (get ?goalA ''target_buffer'') = Some 0 \<and> (0::real) \<le> 0 \<and> 0 \<le> currentBuffer ?seeded"
    and hypB: "accurate ?r \<and>
      (\<forall>s \<in> set [?z]. from_ym s \<noteq> None \<and> deposit (saving_longterm s) = 0 \<and>
         deposit (saving_buffer s) = 0) \<and>
      currentLongterm ?seeded = 100000 \<and>
      safeNumber (get ?goalB ''target_buffer'') = Some 0 \<and> (0::real) \<le> 0 \<and> 0 \<le> currentBuffer ?seeded"
    using accurate_rounding_engine zz by simp_all
  have tA: "safeNumber (get ?goalA ''target_longterm'') = Some (10799999 / 100)"
    and tB: "safeNumber (get ?goalB ''target_longterm'') = Some (10800001 / 100)" by simp_all
  have later: "months_later 11 ?start = Some (Date 2026 0)" "months_later 12 ?start = Some (Date 2026 1)"
    by (simp_all add: date_eval eval_nat_numeral)
  from goal_projection_growth [where e = ?r and now = ?now and stages = "[?z]" and goal = ?goalA
      and gs = ?seeded and tBuf = 0] hyp tA
  have "projectGoalDate ?r ?now [?z] ?goalA ?seeded = Inr (Reached (months_later 11 ?start))"
    by blast
  then have twelfth: "projectGoalDate ?r ?now [?z] ?goalA ?seeded = Inr (Reached (Some (Date 2026 0)))"
    by (simp only: later)
  from goal_projection_growth [where e = ?r and now = ?now and stages = "[?z]" and goal = ?goalB
      and gs = ?seeded and tBuf = 0] hypB tB
  have "projectGoalDate ?r ?now [?z] ?goalB ?seeded = Inr (Reached (months_later 12 ?start))"
    by blast
  then have thirteenth: "projectGoalDate ?r ?now [?z] ?goalB ?seeded = Inr (Reached (Some (Date 2026 1)))"
    by (simp only: later)
  from accurate_exact accurate_rounding_engine run found already never twelve twelfth thirteenth
  show ?thesis
    by (intro conjI)
qed

lemma buffer_four_months:
  assumes "saving_buffer s = JNum 500"
  shows "buffer_loop [s] 3000 0 start 1000 = Inr (Reached (months_later 3 start))"
proof -
  have m: "buffer_month (Some s) b = b + 500" for b
    using assms by (simp add: buffer_month_def field_of_def)
  have "buffer_loop [s] 3000 3 (months_later 3 start) 2500 = Inr (Reached (months_later 3 start))"
    by (subst buffer_loop.simps) (simp add: findStage_single m Let_def)
  then have "buffer_loop [s] 3000 2 (months_later 2 start) 2000 = Inr (Reached (months_later 3 start))"
    by (subst buffer_loop.simps) (simp add: findStage_single m Let_def eval_nat_numeral)
  then have "buffer_loop [s] 3000 1 (months_later 1 start) 1500 = Inr (Reached (months_later 3 start))"
    by (subst buffer_loop.simps) (simp add: findStage_single m Let_def eval_nat_numeral)
  then show ?thesis
    by (subst buffer_loop.simps) (simp add: findStage_single m Let_def eval_nat_numeral)
qed

text \<open>
  Claim C5. When the long-term projection reports a date, either both balances meet
  their targets now, or the date is that of the first simulated month (of at most 600)
  after whose deposit and growth the long-term balance meets \<^verbatim>\<open>target_longterm\<close> and
  the buffer balance meets \<^verbatim>\<open>target_buffer\<close>. The buffer projection tests the buffer
  target alone, and one pass of its loop adds the deposit to the buffer balance and
  nothing else. With a buffer balance of 1000, a deposit of 500 a month and a target of
  3000 the buffer projection reports the fourth simulated month.
\<close>

theorem projection_thresholds:
  "(\<forall>c tLT tBuf. projectGoalDate e now stages goal gs = Inr (Reached c) \<and>
      safeNumber (get goal ''target_longterm'') = Some tLT \<and>
      safeNumber (get goal ''target_buffer'') = Some tBuf \<longrightarrow>
      c = Some now \<and> tLT \<le> currentLongterm gs \<and> tBuf \<le> currentBuffer gs \<or>
      (\<exists>k bal'. k < 600 \<and>
         c = months_later k (new_Date (getFullYear now) (getMonth now + 1)) \<and>
         goal_balances e stages (new_Date (getFullYear now) (getMonth now + 1)) (Suc k)
           (currentLongterm gs, currentBuffer gs) = Inr bal' \<and>
         tLT \<le> fst bal' \<and> tBuf \<le> snd bal' \<and>
         (\<forall>j<k. \<forall>b. goal_balances e stages (new_Date (getFullYear now) (getMonth now + 1)) (Suc j)
              (currentLongterm gs, currentBuffer gs) = Inr b \<longrightarrow>
            \<not> (tLT \<le> fst b \<and> tBuf \<le> snd b)))) \<and>
   (\<forall>c tBuf. projectBufferDate now stages goal gs = Inr (Reached c) \<and>
      safeNumber (get goal ''target_buffer'') = Some tBuf \<longrightarrow>
      c = Some now \<and> tBuf \<le> currentBuffer gs \<or>
      (\<exists>k b'. k < 600 \<and>
         c = months_later k (new_Date (getFullYear now) (getMonth now + 1)) \<and>
         buffer_balance stages (new_Date (getFullYear now) (getMonth now + 1)) (Suc k)
           (currentBuffer gs) = Inr b' \<and>
         tBuf \<le> b' \<and>
         (\<forall>j<k. \<forall>x. buffer_balance stages (new_Date (getFullYear now) (getMonth now + 1)) (Suc j)
              (currentBuffer gs) = Inr x \<longrightarrow> \<not> tBuf \<le> x))) \<and>
   buffer_month stage b = b + deposit (field_of saving_buffer stage) \<and>
   (saving_buffer s = JNum 500 \<and> safeNumber (get goal ''target_buffer'') = Some 3000 \<and>
    currentBuffer gs = 1000 \<longrightarrow>
      projectBufferDate now [s] goal gs =
        Inr (Reached (months_later 3 (new_Date (getFullYear now) (getMonth now + 1)))))"
proof (intro conjI allI impI)
  fix c tLT tBuf
  assume a: "projectGoalDate e now stages goal gs = Inr (Reached c) \<and>
      safeNumber (get goal ''target_longterm'') = Some tLT \<and>
      safeNumber (get goal ''target_buffer'') = Some tBuf"
  let ?start = "new_Date (getFullYear now) (getMonth now + 1)"
  show "c = Some now \<and> tLT \<le> currentLongterm gs \<and> tBuf \<le> currentBuffer gs \<or>
      (\<exists>k bal'. k < 600 \<and> c = months_later k ?start \<and>
         goal_balances e stages ?start (Suc k) (currentLongterm gs, currentBuffer gs) = Inr bal' \<and>
         tLT \<le> fst bal' \<and> tBuf \<le> snd bal' \<and>
         (\<forall>j<k. \<forall>b. goal_balances e stages ?start (Suc j)
              (currentLongterm gs, currentBuffer gs) = Inr b \<longrightarrow>
            \<not> (tLT \<le> fst b \<and> tBuf \<le> snd b)))"
  proof (cases "tLT \<le> currentLongterm gs \<and> tBuf \<le> currentBuffer gs")
    case True
    with a show ?thesis by (auto simp: projectGoalDate_def split: if_splits)
  next
    case False
    with a have "goal_loop e stages tLT tBuf 0 ?start (currentLongterm gs, currentBuffer gs)
        = Inr (Reached c)"
      by (auto simp: projectGoalDate_def split: if_splits)
    from goal_loop_reached [OF this] show ?thesis by auto
  qed
next
  fix c tBuf
  assume a: "projectBufferDate now stages goal gs = Inr (Reached c) \<and>
      safeNumber (get goal ''target_buffer'') = Some tBuf"
  let ?start = "new_Date (getFullYear now) (getMonth now + 1)"
  show "c = Some now \<and> tBuf \<le> currentBuffer gs \<or>
      (\<exists>k b'. k < 600 \<and> c = months_later k ?start \<and>
         buffer_balance stages ?start (Suc k) (currentBuffer gs) = Inr b' \<and> tBuf \<le> b' \<and>
         (\<forall>j<k. \<forall>x. buffer_balance stages ?start (Suc j) (currentBuffer gs) = Inr x \<longrightarrow>
            \<not> tBuf \<le> x))"
  proof (cases "tBuf \<le> currentBuffer gs")
    case True
    with a show ?thesis by (auto simp: projectBufferDate_def split: if_splits)
  next
    case False
    with a have "buffer_loop stages tBuf 0 ?start (currentBuffer gs) = Inr (Reached c)"
      by (auto simp: projectBufferDate_def split: if_splits)
    from buffer_loop_reached [OF this] show ?thesis by auto
  qed
next
  show "buffer_month stage b = b + deposit (field_of saving_buffer stage)"
    by (rule buffer_month_eq)
next
  assume "saving_buffer s = JNum 500 \<and> safeNumber (get goal ''target_buffer'') = Some 3000 \<and>
    currentBuffer gs = 1000"
  then show "projectBufferDate now [s] goal gs =
        Inr (Reached (months_later 3 (new_Date (getFullYear now) (getMonth now + 1))))"
    by (simp add: projectBufferDate_def buffer_four_months)
qed

theorem projection_thresholds_witness:
  "saving_buffer \<lparr>name = JStr ''work'', from_ym = Some ''2025-01'', to_ym = None,
       saving_longterm = JNum 200, saving_buffer = JNum 500\<rparr> = JNum 500 \<and>
   safeNumber (get (JObj [(''target_longterm'', JNum 100), (''target_buffer'', JNum 3000)])
     ''target_buffer'') = Some 3000 \<and>
   currentBuffer \<lparr>currentLongterm = 0, currentBuffer = 1000, lastRolloverYm = None\<rparr> = 1000 \<and>
   projectBufferDate (Date 2025 0)
     [\<lparr>name = JStr ''work'', from_ym = Some ''2025-01'', to_ym = None,
       saving_longterm = JNum 200, saving_buffer = JNum 500\<rparr>]
     (JObj [(''target_longterm'', JNum 100), (''target_buffer'', JNum 3000)])
     \<lparr>currentLongterm = 0, currentBuffer = 1000, lastRolloverYm = None\<rparr>
     = Inr (Reached (Some (Date 2025 4))) \<and>
   (\<exists>k b'. k < 600 \<and> Some (Date 2025 4) = months_later k (new_Date 2025 1) \<and>
      buffer_balance
        [\<lparr>name = JStr ''work'', from_ym = Some ''2025-01'', to_ym = None,
          saving_longterm = JNum 200, saving_buffer = JNum 500\<rparr>]
        (new_Date 2025 1) (Suc k) 1000 = Inr b' \<and> 3000 \<le> b') \<and>
   safeNumber (get (JObj [(''target_longterm'', JNum 100), (''target_buffer'', JNum 3000)])
     ''target_longterm'') = Some 100 \<and>
   projectGoalDate exact_engine (Date 2025 0)
     [\<lparr>name = JStr ''work'', from_ym = Some ''2025-01'', to_ym = None,
       saving_longterm = JNum 200, saving_buffer = JNum 500\<rparr>]
     (JObj [(''target_longterm'', JNum 100), (''target_buffer'', JNum 3000)])
     \<lparr>currentLongterm = 0, currentBuffer = 3000, lastRolloverYm = None\<rparr>
     = Inr (Reached (Some (Date 2025 1))) \<and>
   (\<exists>k bal'. k < 600 \<and> Some (Date 2025 1) = months_later k (new_Date 2025 1) \<and>
      goal_balances exact_engine
        [\<lparr>name = JStr ''work'', from_ym = Some ''2025-01'', to_ym = None,
          saving_longterm = JNum 200, saving_buffer = JNum 500\<rparr>]
        (new_Date 2025 1) (Suc k) (0, 3000) = Inr bal' \<and> 100 \<le> fst bal' \<and> 3000 \<le> snd bal')"
proof -
  let ?now = "Date 2025 0"
  let ?s = "\<lparr>name = JStr ''work'', from_ym = Some ''2025-01'', to_ym = None,
       saving_longterm = JNum 200, saving_buffer = JNum 500\<rparr>"
  let ?goal = "JObj [(''target_longterm'', JNum 100), (''target_buffer'', JNum 3000)]"
  let ?gs = "\<lparr>currentLongterm = 0, currentBuffer = 1000, lastRolloverYm = None\<rparr>"
  let ?gs2 = "\<lparr>currentLongterm = 0, currentBuffer = 3000, lastRolloverYm = None\<rparr>"
  have h: "saving_buffer ?s = JNum 500 \<and> safeNumber (get ?goal ''target_buffer'') = Some 3000 \<and>
    currentBuffer ?gs = 1000" by simp
  have later: "months_later 3 (new_Date (getFullYear ?now) (getMonth ?now + 1)) = Some (Date 2025 4)"
    by (simp add: date_eval eval_nat_numeral)
  from projection_thresholds [where e = exact_engine and now = ?now and s = ?s and goal = ?goal and gs = ?gs] h
  have "projectBufferDate ?now [?s] ?goal ?gs =
        Inr (Reached (months_later 3 (new_Date (getFullYear ?now) (getMonth ?now + 1))))"
    by blast
  then have run: "projectBufferDate ?now [?s] ?goal ?gs = Inr (Reached (Some (Date 2025 4)))"
    by (simp only: later)
  from projection_thresholds [where e = exact_engine and now = ?now and stages = "[?s]" and goal = ?goal and gs = ?gs] run h
  have "Some (Date 2025 4) = Some ?now \<and> 3000 \<le> currentBuffer ?gs \<or>
      (\<exists>k b'. k < 600 \<and>
         Some (Date 2025 4) = months_later k (new_Date (getFullYear ?now) (getMonth ?now + 1)) \<and>
         buffer_balance [?s] (new_Date (getFullYear ?now) (getMonth ?now + 1)) (Suc k)
           (currentBuffer ?gs) = Inr b' \<and>
         3000 \<le> b' \<and>
         (\<forall>j<k. \<forall>x. buffer_balance [?s] (new_Date (getFullYear ?now) (getMonth ?now + 1)) (Suc j)
              (currentBuffer ?gs) = Inr x \<longrightarrow> \<not> 3000 \<le> x))"
    by blast
  then have sim: "\<exists>k b'. k < 600 \<and> Some (Date 2025 4) = months_later k (new_Date 2025 1) \<and>
      buffer_balance [?s] (new_Date 2025 1) (Suc k) 1000 = Inr b' \<and> 3000 \<le> b'"
    by auto
  have gm: "goal_month exact_engine (Some ?s) (0, 3000) = (200 * (1 + monthlyRate exact_engine), 3500)"
    by (simp add: goal_month_def field_of_def Let_def exact_engine_def)
  have ge: "100 \<le> 200 * (1 + monthlyRate exact_engine)"
    using monthlyRate_nonneg by simp
  have start: "new_Date 2025 1 = Some (Date 2025 1)"
    by (simp add: date_eval)
  have loop: "goal_loop exact_engine [?s] 100 3000 0 (Some (Date 2025 1)) (0, 3000)
      = Inr (Reached (Some (Date 2025 1)))"
    using ge by (subst goal_loop.simps) (simp add: findStage_single gm Let_def)
  have g: "projectGoalDate exact_engine ?now [?s] ?goal ?gs2 = Inr (Reached (Some (Date 2025 1)))"
    using loop by (simp add: projectGoalDate_def start)
  have t: "safeNumber (get ?goal ''target_longterm'') = Some 100" by simp
  from projection_thresholds [where e = exact_engine and now = ?now and stages = "[?s]" and goal = ?goal and gs = ?gs2] g t h
  have "Some (Date 2025 1) = Some ?now \<and> 100 \<le> currentLongterm ?gs2 \<and> 3000 \<le> currentBuffer ?gs2 \<or>
      (\<exists>k bal'. k < 600 \<and>
         Some (Date 2025 1) = months_later k (new_Date (getFullYear ?now) (getMonth ?now + 1)) \<and>
         goal_balances exact_engine [?s] (new_Date (getFullYear ?now) (getMonth ?now + 1)) (Suc k)
           (currentLongterm ?gs2, currentBuffer ?gs2) = Inr bal' \<and>
         100 \<le> fst bal' \<and> 3000 \<le> snd bal' \<and>
         (\<forall>j<k. \<forall>b. goal_balances exact_engine [?s] (new_Date (getFullYear ?now) (getMonth ?now + 1)) (Suc j)
              (currentLongterm ?gs2, currentBuffer ?gs2) = Inr b \<longrightarrow>
            \<not> (100 \<le> fst b \<and> 3000 \<le> snd b)))"
    by blast
  then have gsim: "\<exists>k bal'. k < 600 \<and> Some (Date 2025 1) = months_later k (new_Date 2025 1) \<and>
      goal_balances exact_engine [?s] (new_Date 2025 1) (Suc k) (0, 3000) = Inr bal' \<and>
      100 \<le> fst bal' \<and> 3000 \<le> snd bal'"
    by auto
  from h run sim t g gsim show ?thesis by simp
qed

section \<open>Year-months of four-digit years\<close>

lemma length_pad_digits [simp]: "length (pad_digits k n) = k"
  by (induction k arbitrary: n) auto

lemma of_char_digit_char: "a < 10 \<Longrightarrow> of_char (digit_char a) = 48 + a"
  using digit_cases [of a] by (auto simp: digit_char_def decimal_digits_def)

lemma digit_char_less: "a < 10 \<Longrightarrow> b < 10 \<Longrightarrow> digit_char a < digit_char b \<longleftrightarrow> a < b"
  by (simp add: less_char_def of_char_digit_char)

lemma digit_char_eq: "a < 10 \<Longrightarrow> b < 10 \<Longrightarrow> digit_char a = digit_char b \<longleftrightarrow> a = b"
  by (metis of_char_digit_char add_left_cancel)

lemma digit_char_not_dash: "a < 10 \<Longrightarrow> digit_char a \<noteq> CHR ''-''"
  using digit_cases [of a] by (auto simp: digit_char_def decimal_digits_def)

lemma snoc_less:
  fixes xs ys :: "'a::linorder list"
  shows "length xs = length ys \<Longrightarrow> xs @ zs < ys @ ws \<longleftrightarrow> xs < ys \<or> xs = ys \<and> zs < ws"
  by (induction xs ys rule: list_induct2) auto

lemma snoc_le:
  fixes xs ys :: "'a::linorder list"
  shows "length xs = length ys \<Longrightarrow> xs @ zs \<le> ys @ ws \<longleftrightarrow> xs < ys \<or> xs = ys \<and> zs \<le> ws"
  by (induction xs ys rule: list_induct2) auto

lemma div10_less: "n < 10 ^ Suc k \<Longrightarrow> n div 10 < (10::nat) ^ k"
proof -
  assume "n < 10 ^ Suc k"
  then have "n < 10 ^ k * 10" by (simp only: power_Suc mult.commute)
  then show ?thesis by (rule less_mult_imp_div_less)
qed

lemma div_mod10_repr:
  obtains q r where "(n::nat) = 10 * q + r" and "r < 10" and "n div 10 = q" and "n mod 10 = r"
proof
  show "n = 10 * (n div 10) + n mod 10" by (simp only: mult_div_mod_eq)
  show "n mod 10 < 10" by (rule mod_less_divisor) simp
qed (rule refl)+

lemma nat_eq_div_mod10: "(n::nat) = m \<longleftrightarrow> n div 10 = m div 10 \<and> n mod 10 = m mod 10"
proof
  assume "n = m"
  then show "n div 10 = m div 10 \<and> n mod 10 = m mod 10" by simp
next
  assume a: "n div 10 = m div 10 \<and> n mod 10 = m mod 10"
  have "n = 10 * (n div 10) + n mod 10" by (simp only: mult_div_mod_eq)
  also have "\<dots> = 10 * (m div 10) + m mod 10" using a by simp
  also have "\<dots> = m" by (simp only: mult_div_mod_eq)
  finally show "n = m" .
qed

lemma nat_less_div_mod10:
  "(n::nat) < m \<longleftrightarrow> n div 10 < m div 10 \<or> n div 10 = m div 10 \<and> n mod 10 < m mod 10"
proof -
  obtain q r where n: "n = 10 * q + r" "r < 10" "n div 10 = q" "n mod 10 = r"
    by (rule div_mod10_repr)
  obtain q' r' where m: "m = 10 * q' + r'" "r' < 10" "m div 10 = q'" "m mod 10 = r'"
    by (rule div_mod10_repr)
  have "10 * q + r < 10 * q' + r' \<longleftrightarrow> q < q' \<or> q = q' \<and> r < r'"
  proof
    assume "10 * q + r < 10 * q' + r'"
    with n(2) m(2) have "q \<le> q'" by linarith
    with \<open>10 * q + r < 10 * q' + r'\<close> show "q < q' \<or> q = q' \<and> r < r'" by (cases "q = q'") simp_all
  next
    assume "q < q' \<or> q = q' \<and> r < r'"
    with n(2) m(2) show "10 * q + r < 10 * q' + r'" by linarith
  qed
  then show ?thesis by (simp only: n(3,4) m(3,4)) (simp only: n(1) m(1))
qed

lemma pad_digits_eq: "n < 10 ^ k \<Longrightarrow> m < 10 ^ k \<Longrightarrow> pad_digits k n = pad_digits k m \<longleftrightarrow> n = m"
proof (induction k arbitrary: n m)
  case 0
  then show ?case by simp
next
  case (Suc k)
  have b1: "n div 10 < 10 ^ k" using Suc.prems(1) by (rule div10_less)
  have b2: "m div 10 < 10 ^ k" using Suc.prems(2) by (rule div10_less)
  have "pad_digits (Suc k) n = pad_digits (Suc k) m \<longleftrightarrow>
      pad_digits k (n div 10) = pad_digits k (m div 10) \<and>
      digit_char (n mod 10) = digit_char (m mod 10)"
    by simp
  also have "\<dots> \<longleftrightarrow> n div 10 = m div 10 \<and> n mod 10 = m mod 10"
    by (simp only: Suc.IH [OF b1 b2] digit_char_eq [of "n mod 10" "m mod 10"] mod_less_divisor
        zero_less_numeral)
  also have "\<dots> \<longleftrightarrow> n = m"
    by (rule nat_eq_div_mod10 [symmetric])
  finally show ?case .
qed

lemma pad_digits_less: "n < 10 ^ k \<Longrightarrow> m < 10 ^ k \<Longrightarrow> pad_digits k n < pad_digits k m \<longleftrightarrow> n < m"
proof (induction k arbitrary: n m)
  case 0
  then show ?case by simp
next
  case (Suc k)
  have b1: "n div 10 < 10 ^ k" using Suc.prems(1) by (rule div10_less)
  have b2: "m div 10 < 10 ^ k" using Suc.prems(2) by (rule div10_less)
  have "pad_digits (Suc k) n < pad_digits (Suc k) m \<longleftrightarrow>
      pad_digits k (n div 10) < pad_digits k (m div 10) \<or>
      pad_digits k (n div 10) = pad_digits k (m div 10) \<and>
      digit_char (n mod 10) < digit_char (m mod 10)"
    by (simp add: snoc_less)
  also have "\<dots> \<longleftrightarrow> n div 10 < m div 10 \<or> n div 10 = m div 10 \<and> n mod 10 < m mod 10"
    by (simp only: Suc.IH [OF b1 b2] pad_digits_eq [OF b1 b2]
        digit_char_less [of "n mod 10" "m mod 10"] mod_less_divisor zero_less_numeral)
  also have "\<dots> \<longleftrightarrow> n < m"
    by (rule nat_less_div_mod10 [symmetric])
  finally show ?case .
qed

lemma pad_digits_le:
  assumes "n < 10 ^ k" and "m < 10 ^ k"
  shows "pad_digits k n \<le> pad_digits k m \<longleftrightarrow> n \<le> m"
proof -
  have "pad_digits k n \<le> pad_digits k m \<longleftrightarrow>
      pad_digits k n < pad_digits k m \<or> pad_digits k n = pad_digits k m"
    by (rule le_less)
  also have "\<dots> \<longleftrightarrow> n < m \<or> n = m"
    by (simp only: pad_digits_less [OF assms] pad_digits_eq [OF assms])
  also have "\<dots> \<longleftrightarrow> n \<le> m"
    by (rule le_less [symmetric])
  finally show ?thesis .
qed

lemma String_nat_pad: "10 ^ k \<le> n \<Longrightarrow> n < 10 ^ Suc k \<Longrightarrow> String_nat n = pad_digits (Suc k) n"
proof (induction k arbitrary: n)
  case 0
  then have "n < 10" by simp
  then have "String_nat n = [digit_char n]" by (subst String_nat.simps) simp
  with \<open>n < 10\<close> show ?case by simp
next
  case (Suc k)
  have "(10::nat) \<le> 10 ^ Suc k" by simp
  with Suc.prems(1) have ge: "\<not> n < 10" by linarith
  from Suc.prems(1) have "10 ^ k * 10 \<le> n" by (simp add: mult.commute)
  then have lo: "10 ^ k \<le> n div 10" by (simp add: less_eq_div_iff_mult_less_eq)
  have hi: "n div 10 < 10 ^ Suc k" using Suc.prems(2) by (rule div10_less)
  from ge have "String_nat n = String_nat (n div 10) @ [digit_char (n mod 10)]"
    by (subst String_nat.simps) simp
  also have "String_nat (n div 10) = pad_digits (Suc k) (n div 10)"
    using lo hi by (rule Suc.IH)
  finally show ?case by simp
qed

lemma digit_char_0: "digit_char 0 = CHR ''0''"
  by (simp add: digit_char_def decimal_digits_def)

lemma pad_digits_2: "pad_digits 2 n = [digit_char (n div 10 mod 10), digit_char (n mod 10)]"
proof -
  have "(2::nat) = Suc (Suc 0)" by simp
  then show ?thesis by (simp only: pad_digits.simps append_Nil append_Cons)
qed

lemma padStart2_String_nat: "n < 100 \<Longrightarrow> padStart2 (String_nat n) = pad_digits 2 n"
proof (cases "n < 10")
  case True
  then have s: "String_nat n = [digit_char n]" by (subst String_nat.simps) simp
  from True have "n div 10 = 0" "n mod 10 = n" by simp_all
  then have "pad_digits 2 n = [CHR ''0'', digit_char n]"
    by (simp only: pad_digits_2 digit_char_0 mod_0)
  moreover have "padStart2 [digit_char n] = [CHR ''0'', digit_char n]"
    by (simp add: padStart2_def)
  ultimately show ?thesis by (simp only: s)
next
  case False
  assume "n < 100"
  with False have "10 ^ 1 \<le> n" "n < 10 ^ Suc 1" by simp_all
  then have "String_nat n = pad_digits (Suc 1) n" by (rule String_nat_pad)
  then have s: "String_nat n = pad_digits 2 n" by (simp add: pad_digits_2)
  have "padStart2 (pad_digits 2 n) = pad_digits 2 n"
    by (simp add: padStart2_def)
  then show ?thesis by (simp only: s)
qed

lemma four_digitD:
  assumes "four_digit d"
  shows "1000 \<le> getFullYear d" and "getFullYear d \<le> 9999" and "0 \<le> getMonth d"
    and "getMonth d \<le> 11"
  using assms by (simp_all add: four_digit_def)

lemma ym_four_digit:
  assumes "four_digit d"
  shows "getCurrentYearMonth (Some d) =
           pad_digits 4 (nat (getFullYear d)) @ CHR ''-'' # pad_digits 2 (nat (getMonth d + 1))"
proof -
  note fd = four_digitD [OF assms]
  from fd have y: "10 ^ 3 \<le> nat (getFullYear d)" "nat (getFullYear d) < 10 ^ Suc 3"
    by simp_all
  have "Suc 3 = 4" by simp
  with String_nat_pad [OF y]
  have 4: "String_nat (nat (getFullYear d)) = pad_digits 4 (nat (getFullYear d))"
    by (simp only:)
  from fd have "nat (getMonth d + 1) < 100" by simp
  then have 2: "padStart2 (String_nat (nat (getMonth d + 1))) = pad_digits 2 (nat (getMonth d + 1))"
    by (rule padStart2_String_nat)
  from fd have "\<not> getFullYear d < 0" "\<not> getMonth d + 1 < 0" by simp_all
  then show ?thesis
    by (simp only: getCurrentYearMonth.simps String_int_def if_False 4 2 append_Cons append_Nil)
qed

lemma pad_bounds:
  assumes "four_digit d"
  shows "nat (getFullYear d) < 10 ^ 4" and "nat (getMonth d + 1) < 10 ^ 2"
  using four_digitD [OF assms] by simp_all

lemma ym_le_iff:
  assumes "four_digit d" and "four_digit e"
  shows "getCurrentYearMonth (Some d) \<le> getCurrentYearMonth (Some e) \<longleftrightarrow>
           month_index d \<le> month_index e"
proof -
  note fd = four_digitD [OF assms(1)] and fe = four_digitD [OF assms(2)]
  let ?yd = "nat (getFullYear d)" and ?ye = "nat (getFullYear e)"
  let ?md = "nat (getMonth d + 1)" and ?me = "nat (getMonth e + 1)"
  have "getCurrentYearMonth (Some d) \<le> getCurrentYearMonth (Some e) \<longleftrightarrow>
      pad_digits 4 ?yd < pad_digits 4 ?ye \<or>
      pad_digits 4 ?yd = pad_digits 4 ?ye \<and> pad_digits 2 ?md \<le> pad_digits 2 ?me"
    by (simp only: ym_four_digit [OF assms(1)] ym_four_digit [OF assms(2)])
      (simp add: snoc_le)
  also have "\<dots> \<longleftrightarrow> ?yd < ?ye \<or> ?yd = ?ye \<and> ?md \<le> ?me"
    by (simp only: pad_digits_less [OF pad_bounds(1) [OF assms(1)] pad_bounds(1) [OF assms(2)]]
        pad_digits_eq [OF pad_bounds(1) [OF assms(1)] pad_bounds(1) [OF assms(2)]]
        pad_digits_le [OF pad_bounds(2) [OF assms(1)] pad_bounds(2) [OF assms(2)]])
  also have "\<dots> \<longleftrightarrow> getFullYear d < getFullYear e \<or>
      getFullYear d = getFullYear e \<and> getMonth d \<le> getMonth e"
    using fd fe by auto
  also have "\<dots> \<longleftrightarrow> month_index d \<le> month_index e"
  proof (cases "getFullYear d < getFullYear e")
    case True
    with fd fe show ?thesis by (simp add: month_index_def)
  next
    case False
    show ?thesis
    proof (cases "getFullYear d = getFullYear e")
      case True
      then show ?thesis by (simp add: month_index_def)
    next
      case ne: False
      with False have "getFullYear e < getFullYear d" by simp
      with fd fe ne False show ?thesis by (simp add: month_index_def)
    qed
  qed
  finally show ?thesis .
qed

lemma four_digit_eqI:
  assumes "four_digit d" and "four_digit e" and "month_index d = month_index e"
  shows "d = e"
proof -
  note fd = four_digitD [OF assms(1)] and fe = four_digitD [OF assms(2)]
  from assms(3) have i: "12 * getFullYear d + getMonth d = 12 * getFullYear e + getMonth e"
    by (simp add: month_index_def)
  have "\<not> getFullYear d < getFullYear e" using i fd fe by linarith
  moreover have "\<not> getFullYear e < getFullYear d" using i fd fe by linarith
  ultimately have y: "getFullYear d = getFullYear e" by simp
  with i have "getMonth d = getMonth e" by simp
  with y show ?thesis by (simp add: date.expand)
qed

lemma addMonths_four_digit:
  assumes "four_digit d" and "month_index d < 119999"
  shows "\<exists>d'. addMonths (Some d) 1 = Some d' \<and> four_digit d' \<and> month_index d' = month_index d + 1"
proof (cases "getMonth d = 11")
  case True
  with assms have "getFullYear d \<le> 9998" by (simp add: month_index_def)
  with True four_digitD [OF assms(1)] show ?thesis
    by (simp add: MakeDate_def Let_def month_index_def four_digit_def min_month_index_def
        max_month_index_def)
next
  case False
  with four_digitD [OF assms(1)] have m: "0 \<le> getMonth d + 1" "getMonth d + 1 < 12" by simp_all
  then have "(getMonth d + 1) div 12 = 0" "(getMonth d + 1) mod 12 = getMonth d + 1"
    by simp_all
  with m four_digitD [OF assms(1)] show ?thesis
    by (simp add: MakeDate_def Let_def month_index_def four_digit_def min_month_index_def
        max_month_index_def)
qed

lemma split_dash_no_dash: "CHR ''-'' \<notin> set ys \<Longrightarrow> split_dash ys = [ys]"
  by (induction ys) auto

lemma split_dash_append:
  "CHR ''-'' \<notin> set xs \<Longrightarrow> split_dash (xs @ CHR ''-'' # ys) = xs # split_dash ys"
  by (induction xs) auto

lemma pad_digits_no_dash: "CHR ''-'' \<notin> set (pad_digits k n)"
proof (induction k arbitrary: n)
  case 0
  then show ?case by simp
next
  case (Suc k)
  have "n mod 10 < 10" by (rule mod_less_divisor) simp
  then have "digit_char (n mod 10) \<noteq> CHR ''-''" by (rule digit_char_not_dash)
  with Suc show ?case by simp
qed

lemma digits_value_snoc:
  "digits_value acc (xs @ [c]) =
     (case digits_value acc xs of
        None \<Rightarrow> None
      | Some v \<Rightarrow> (case digit_val c of None \<Rightarrow> None | Some d \<Rightarrow> Some (10 * v + d)))"
  by (induction xs arbitrary: acc) (auto split: option.splits)

lemma digits_value_pad: "n < 10 ^ k \<Longrightarrow> digits_value 0 (pad_digits k n) = Some n"
proof (induction k arbitrary: n)
  case 0
  then show ?case by simp
next
  case (Suc k)
  have b: "n div 10 < 10 ^ k" using Suc.prems by (rule div10_less)
  have m: "n mod 10 < 10" by (rule mod_less_divisor) simp
  have "digits_value 0 (pad_digits (Suc k) n) = Some (10 * (n div 10) + n mod 10)"
    by (simp only: pad_digits.simps digits_value_snoc Suc.IH [OF b] digit_val_digit_char [OF m]
        option.case)
  then show ?case by (simp only: mult_div_mod_eq)
qed

lemma parse_ym_four_digit:
  assumes "four_digit d"
  shows "parseYearMonth (getCurrentYearMonth (Some d)) = Some d"
proof -
  note fd = four_digitD [OF assms]
  let ?y = "nat (getFullYear d)" and ?m = "nat (getMonth d + 1)"
  have sp: "split_dash (pad_digits 4 ?y @ CHR ''-'' # pad_digits 2 ?m)
      = [pad_digits 4 ?y, pad_digits 2 ?m]"
    by (simp only: split_dash_append [OF pad_digits_no_dash] split_dash_no_dash [OF pad_digits_no_dash])
  have ny: "Number_digits (pad_digits 4 ?y) = Some ?y"
    unfolding Number_digits_def using pad_bounds(1) [OF assms] by (rule digits_value_pad)
  have nm: "Number_digits (pad_digits 2 ?m) = Some ?m"
    unfolding Number_digits_def using pad_bounds(2) [OF assms] by (rule digits_value_pad)
  from fd have iy: "int ?y = getFullYear d" and im: "int ?m - 1 = getMonth d" by simp_all
  from fd have dm: "getMonth d div 12 = 0" "getMonth d mod 12 = getMonth d" by simp_all
  have "new_Date (getFullYear d) (getMonth d) = Some d"
    using fd by (simp add: new_Date_def MakeDate_def Let_def dm month_index_def
        min_month_index_def max_month_index_def)
  then show ?thesis
    by (simp only: ym_four_digit [OF assms] parseYearMonth_def sp ny nm iy im list.case
        prod.case option.case)
qed

section \<open>The rollover catch-up\<close>

lemma rollover_month_eq:
  "rollover_month ym stage (gs, changed) =
     (gs\<lparr>currentLongterm := currentLongterm gs + deposit (field_of saving_longterm stage),
         currentBuffer := currentBuffer gs + deposit (field_of saving_buffer stage),
         lastRolloverYm := Some ym\<rparr>,
      changed \<or> safeNumber (field_of saving_longterm stage) \<noteq> None
        \<or> safeNumber (field_of saving_buffer stage) \<noteq> None)"
  by (simp add: rollover_month_def deposit_def Let_def split: option.splits)

lemma rollover_month_last: "lastRolloverYm (fst (rollover_month ym stage st)) = Some ym"
  by (simp add: rollover_month_def Let_def split: option.splits)

lemma rollover_steps_Suc:
  "findStageForYearMonth stages (getCurrentYearMonth cursor) = Inr stage \<Longrightarrow>
   rollover_steps stages cursor (Suc n) st =
     rollover_steps stages (addMonths cursor 1) n
       (rollover_month (getCurrentYearMonth cursor) stage st)"
  by simp

lemma not_last_month:
  assumes "four_digit now" "now \<noteq> Date 9999 11"
  shows "month_index now \<le> 119998"
proof (cases now)
  case (Date y m)
  with assms show ?thesis by (auto simp: four_digit_def month_index_def)
qed

lemma rollover_loop_steps:
  assumes now: "four_digit now" "now \<noteq> Date 9999 11"
  shows "four_digit c \<Longrightarrow> month_index c \<le> month_index now + 1 \<Longrightarrow>
         n = nat (month_index now + 1 - month_index c) \<Longrightarrow>
         rollover_loop now stages (Some c) st = rollover_steps stages (Some c) n st"
proof (induction n arbitrary: c st)
  case 0
  then have "\<not> month_index c \<le> month_index now" by simp
  with ym_le_iff [OF "0.prems"(1) now(1)]
  have "\<not> getCurrentYearMonth (Some c) \<le> getCurrentYearMonth (Some now)" by simp
  then show ?case by (subst rollover_loop.simps) simp
next
  case (Suc n)
  then have le: "month_index c \<le> month_index now" by simp
  with ym_le_iff [OF Suc.prems(1) now(1)]
  have cond: "getCurrentYearMonth (Some c) \<le> getCurrentYearMonth (Some now)" by simp
  from now have "month_index now \<le> 119998" by (rule not_last_month)
  with le have "month_index c < 119999" by simp
  from addMonths_four_digit [OF Suc.prems(1) this] obtain c' where
    c': "addMonths (Some c) 1 = Some c'" "four_digit c'" "month_index c' = month_index c + 1"
    by blast
  from c'(3) le Suc.prems(3) have n: "month_index c' \<le> month_index now + 1"
    "n = nat (month_index now + 1 - month_index c')" by simp_all
  show ?case
  proof (cases "findStageForYearMonth stages (getCurrentYearMonth (Some c))")
    case (Inl e)
    with cond show ?thesis by (subst rollover_loop.simps) (simp del: getCurrentYearMonth.simps)
  next
    case (Inr stage)
    with cond c'(1) Suc.IH [OF c'(2) n] show ?thesis
      by (subst rollover_loop.simps) (simp del: getCurrentYearMonth.simps)
  qed
qed

lemma rollover_steps_last:
  "rollover_steps stages (Some c) (Suc n) st = Inr (gs', changed) \<Longrightarrow> four_digit c \<Longrightarrow>
   month_index c + int n \<le> 119999 \<Longrightarrow>
   \<exists>c'. four_digit c' \<and> month_index c' = month_index c + int n \<and>
        lastRolloverYm gs' = Some (getCurrentYearMonth (Some c'))"
proof (induction n arbitrary: c st)
  case 0
  then obtain stage where "findStageForYearMonth stages (getCurrentYearMonth (Some c)) = Inr stage"
    "rollover_month (getCurrentYearMonth (Some c)) stage st = (gs', changed)"
    by (auto simp del: getCurrentYearMonth.simps split: sum.splits)
  with rollover_month_last [of "getCurrentYearMonth (Some c)" stage st] "0.prems"(2)
  show ?case by (intro exI [of _ c]) (simp del: getCurrentYearMonth.simps)
next
  case (Suc n)
  from Suc.prems(3) have "month_index c < 119999" by simp
  from addMonths_four_digit [OF Suc.prems(2) this] obtain c' where
    c': "addMonths (Some c) 1 = Some c'" "four_digit c'" "month_index c' = month_index c + 1"
    by blast
  from Suc.prems(1) obtain stage where
    st: "findStageForYearMonth stages (getCurrentYearMonth (Some c)) = Inr stage"
    by (cases "findStageForYearMonth stages (getCurrentYearMonth (Some c))")
      (simp_all del: getCurrentYearMonth.simps)
  from Suc.prems(1)
  have "rollover_steps stages (Some c') (Suc n)
      (rollover_month (getCurrentYearMonth (Some c)) stage st) = Inr (gs', changed)"
    by (simp only: rollover_steps_Suc [OF st] c'(1))
  from Suc.IH [OF this c'(2)] c'(3) Suc.prems(3) show ?case by auto
qed

lemmas ym_eval_simps = String_int_def String_nat.simps padStart2_def digit_char_def decimal_digits_def

lemma ym_2025:
  "getCurrentYearMonth (Some (Date 2025 0)) = ''2025-01''"
  "getCurrentYearMonth (Some (Date 2025 1)) = ''2025-02''"
  "getCurrentYearMonth (Some (Date 2025 2)) = ''2025-03''"
  "getCurrentYearMonth (Some (Date 2025 3)) = ''2025-04''"
  "getCurrentYearMonth (Some (Date 2025 4)) = ''2025-05''"
  by (simp_all add: ym_eval_simps)

lemma addMonths_2025:
  "addMonths (Some (Date 2025 0)) 1 = Some (Date 2025 1)"
  "addMonths (Some (Date 2025 1)) 1 = Some (Date 2025 2)"
  "addMonths (Some (Date 2025 2)) 1 = Some (Date 2025 3)"
  "addMonths (Some (Date 2025 3)) 1 = Some (Date 2025 4)"
  by (simp_all add: date_eval)

lemma parse_2025_01: "parseYearMonth ''2025-01'' = Some (Date 2025 0)"
  by (simp add: parseYearMonth_def Number_digits_def digit_val_def decimal_digits_def date_eval)

lemma rollover_three_months:
  assumes "saving_longterm s = JNum 1000" and "lastRolloverYm gs = Some ''2025-01''"
  shows "applyMonthlyRolloverIfNeeded (Date 2025 3) [s] gs =
           Inr (gs\<lparr>currentLongterm := currentLongterm gs + 3000,
                    currentBuffer := currentBuffer gs + 3 * deposit (saving_buffer s),
                    lastRolloverYm := Some ''2025-04''\<rparr>, True)"
proof -
  have m: "rollover_month ym (Some s) (g, c) =
      (g\<lparr>currentLongterm := currentLongterm g + 1000,
         currentBuffer := currentBuffer g + deposit (saving_buffer s),
         lastRolloverYm := Some ym\<rparr>, True)" for ym g c
    using assms(1) by (simp add: rollover_month_eq field_of_def deposit_def)
  have 4: "rollover_loop (Date 2025 3) [s] (Some (Date 2025 4)) st = Inr st" for st
    by (subst rollover_loop.simps) (simp add: ym_2025 del: getCurrentYearMonth.simps)
  have 3: "rollover_loop (Date 2025 3) [s] (Some (Date 2025 3)) (g, c) =
      Inr (g\<lparr>currentLongterm := currentLongterm g + 1000,
         currentBuffer := currentBuffer g + deposit (saving_buffer s),
         lastRolloverYm := Some ''2025-04''\<rparr>, True)" for g c
    by (subst rollover_loop.simps)
      (simp add: ym_2025 addMonths_2025 findStage_single m 4 del: getCurrentYearMonth.simps addMonths.simps)
  have 2: "rollover_loop (Date 2025 3) [s] (Some (Date 2025 2)) (g, c) =
      Inr (g\<lparr>currentLongterm := currentLongterm g + 2000,
         currentBuffer := currentBuffer g + 2 * deposit (saving_buffer s),
         lastRolloverYm := Some ''2025-04''\<rparr>, True)" for g c
    by (subst rollover_loop.simps)
      (simp add: ym_2025 addMonths_2025 findStage_single m 3 del: getCurrentYearMonth.simps addMonths.simps)
  have 1: "rollover_loop (Date 2025 3) [s] (Some (Date 2025 1)) (g, c) =
      Inr (g\<lparr>currentLongterm := currentLongterm g + 3000,
         currentBuffer := currentBuffer g + 3 * deposit (saving_buffer s),
         lastRolloverYm := Some ''2025-04''\<rparr>, True)" for g c
    by (subst rollover_loop.simps)
      (simp add: ym_2025 addMonths_2025 findStage_single m 2 del: getCurrentYearMonth.simps addMonths.simps)
  show ?thesis
    using assms(2)
    by (simp add: applyMonthlyRolloverIfNeeded_def ym_2025 parse_2025_01 addMonths_2025 1
        del: getCurrentYearMonth.simps addMonths.simps)
qed

lemma rollover_loop_not_ahead:
  "rollover_loop now stages cursor st = Inr (gs', changed) \<Longrightarrow>
   (\<exists>l. lastRolloverYm (fst st) = Some l \<and> l \<le> getCurrentYearMonth (Some now)) \<Longrightarrow>
   \<exists>l'. lastRolloverYm gs' = Some l' \<and> l' \<le> getCurrentYearMonth (Some now)"
proof (induction now stages cursor st rule: rollover_loop.induct)
  case (1 now stages cursor st)
  show ?case
  proof (cases "getCurrentYearMonth cursor \<le> getCurrentYearMonth (Some now)")
    case False
    with "1.prems" show ?thesis
      by (subst (asm) rollover_loop.simps) (auto simp del: getCurrentYearMonth.simps)
  next
    case True
    with "1.prems"(1) obtain stage where
      st: "findStageForYearMonth stages (getCurrentYearMonth cursor) = Inr stage"
      by (subst (asm) rollover_loop.simps) (auto simp del: getCurrentYearMonth.simps split: sum.splits)
    with True "1.prems"(1)
    have run: "rollover_loop now stages (addMonths cursor 1)
        (rollover_month (getCurrentYearMonth cursor) stage st) = Inr (gs', changed)"
      by (subst (asm) rollover_loop.simps) (simp del: getCurrentYearMonth.simps addMonths.simps)
    have "\<exists>l. lastRolloverYm (fst (rollover_month (getCurrentYearMonth cursor) stage st)) = Some l \<and>
        l \<le> getCurrentYearMonth (Some now)"
      using True by (simp only: rollover_month_last) simp
    with "1.IH" [OF True st run] show ?thesis by blast
  qed
qed

text \<open>
  Claim C1: the code departs from it where the year of \<^verbatim>\<open>last_rollover_ym\<close> is below
  100. \<^verbatim>\<open>parseYearMonth\<close> reads the year as a number, and \<^verbatim>\<open>new Date\<close> takes a year
  from 0 to 99 as 1900 plus that year: from \<^verbatim>\<open>last_rollover_ym = "0099-12"\<close>, which
  \<^verbatim>\<open>isValidYearMonth\<close> accepts, the cursor starts in January 2000, not in January of
  the year 100. With the clock in January 2000 the rollover applies one deposit, where
  the claim has the 22801 months from \<^verbatim>\<open>0100-01\<close> through \<^verbatim>\<open>2000-01\<close> applied.
\<close>

theorem rollover_two_digit_year:
  "applyMonthlyRolloverIfNeeded (Date 2000 0)
     [\<lparr>name = JStr ''job'', from_ym = Some ''0001-01'', to_ym = None,
       saving_longterm = JNum 1000, saving_buffer = JNull\<rparr>]
     \<lparr>currentLongterm = 0, currentBuffer = 0, lastRolloverYm = Some ''0099-12''\<rparr>
   = Inr (\<lparr>currentLongterm = 1000, currentBuffer = 0, lastRolloverYm = Some ''2000-01''\<rparr>, True)"
proof -
  let ?s = "\<lparr>name = JStr ''job'', from_ym = Some ''0001-01'', to_ym = None,
       saving_longterm = JNum 1000, saving_buffer = JNull\<rparr>"
  have ym: "getCurrentYearMonth (Some (Date 2000 0)) = ''2000-01''"
    "getCurrentYearMonth (Some (Date 2000 1)) = ''2000-02''"
    by (simp_all add: ym_eval_simps)
  have p: "parseYearMonth ''0099-12'' = Some (Date 1999 11)"
    by (simp add: parseYearMonth_def Number_digits_def digit_val_def decimal_digits_def date_eval)
  have a: "addMonths (Some (Date 1999 11)) 1 = Some (Date 2000 0)"
    "addMonths (Some (Date 2000 0)) 1 = Some (Date 2000 1)"
    by (simp_all add: date_eval)
  have 2: "rollover_loop (Date 2000 0) [?s] (Some (Date 2000 1)) st = Inr st" for st
    by (subst rollover_loop.simps) (simp add: ym del: getCurrentYearMonth.simps)
  have 1: "rollover_loop (Date 2000 0) [?s] (Some (Date 2000 0))
      (\<lparr>currentLongterm = 0, currentBuffer = 0, lastRolloverYm = Some ''0099-12''\<rparr>, False)
      = Inr (\<lparr>currentLongterm = 1000, currentBuffer = 0, lastRolloverYm = Some ''2000-01''\<rparr>, True)"
    by (subst rollover_loop.simps)
      (simp add: ym a findStage_single 2 rollover_month_def field_of_def Let_def
        del: getCurrentYearMonth.simps addMonths.simps)
  show ?thesis
    by (simp add: applyMonthlyRolloverIfNeeded_def ym p a 1
        del: getCurrentYearMonth.simps addMonths.simps)
qed

lemma rollover_catch_up_dates:
  assumes last: "lastRolloverYm gs = Some (getCurrentYearMonth (Some l))"
    and l: "four_digit l"
    and now: "four_digit now" "now \<noteq> Date 9999 11"
    and earlier: "getCurrentYearMonth (Some l) < getCurrentYearMonth (Some now)"
  shows "applyMonthlyRolloverIfNeeded now stages gs =
           rollover_steps stages (addMonths (Some l) 1) (nat (month_index now - month_index l))
             (gs, False) \<and>
         0 < month_index now - month_index l \<and>
         (\<forall>gs' changed. applyMonthlyRolloverIfNeeded now stages gs = Inr (gs', changed) \<longrightarrow>
            lastRolloverYm gs' = Some (getCurrentYearMonth (Some now)))"
proof (intro conjI)
  from earlier have "\<not> getCurrentYearMonth (Some now) \<le> getCurrentYearMonth (Some l)"
    by simp
  with ym_le_iff [OF now(1) l] have lt: "month_index l < month_index now" by simp
  then show "0 < month_index now - month_index l" by simp
  from now have "month_index now \<le> 119998" by (rule not_last_month)
  with lt have "month_index l < 119999" by simp
  from addMonths_four_digit [OF l this] obtain c where
    c: "addMonths (Some l) 1 = Some c" "four_digit c" "month_index c = month_index l + 1"
    by blast
  from c(3) lt have "month_index c \<le> month_index now + 1"
    "nat (month_index now - month_index l) = nat (month_index now + 1 - month_index c)"
    by simp_all
  from rollover_loop_steps [OF now c(2) this]
  have loop: "rollover_loop now stages (Some c) (gs, False) =
      rollover_steps stages (Some c) (nat (month_index now - month_index l)) (gs, False)" .
  have ne: "getCurrentYearMonth (Some l) \<noteq> []" by (rule getCurrentYearMonth_not_Nil)
  from last ne \<open>\<not> getCurrentYearMonth (Some now) \<le> getCurrentYearMonth (Some l)\<close>
  have "applyMonthlyRolloverIfNeeded now stages gs =
      rollover_loop now stages (addMonths (parseYearMonth (getCurrentYearMonth (Some l))) 1) (gs, False)"
    by (simp add: applyMonthlyRolloverIfNeeded_def del: getCurrentYearMonth.simps addMonths.simps)
  then show eq: "applyMonthlyRolloverIfNeeded now stages gs =
      rollover_steps stages (addMonths (Some l) 1) (nat (month_index now - month_index l)) (gs, False)"
    by (simp only: parse_ym_four_digit [OF l] c(1) loop)
  show "\<forall>gs' changed. applyMonthlyRolloverIfNeeded now stages gs = Inr (gs', changed) \<longrightarrow>
            lastRolloverYm gs' = Some (getCurrentYearMonth (Some now))"
  proof (intro allI impI)
    fix gs' changed
    assume r: "applyMonthlyRolloverIfNeeded now stages gs = Inr (gs', changed)"
    from lt obtain n where n: "nat (month_index now - month_index l) = Suc n"
      by (cases "nat (month_index now - month_index l)") simp_all
    with r have "rollover_steps stages (Some c) (Suc n) (gs, False) = Inr (gs', changed)"
      by (simp only: eq c(1))
    moreover from n c(3) \<open>month_index now \<le> 119998\<close> have i: "month_index c + int n = month_index now"
      by simp
    ultimately obtain c' where c': "four_digit c'" "month_index c' = month_index c + int n"
      "lastRolloverYm gs' = Some (getCurrentYearMonth (Some c'))"
      using rollover_steps_last [of stages c n "(gs, False)" gs' changed] c(2)
        \<open>month_index now \<le> 119998\<close> by auto
    from c'(1) now(1) c'(2) i have "c' = now" by (intro four_digit_eqI) simp_all
    with c'(3) show "lastRolloverYm gs' = Some (getCurrentYearMonth (Some now))" by simp
  qed
qed

lemma digit_val_Some: "digit_val c = Some d \<Longrightarrow> d < 10 \<and> digit_char d = c"
  by (auto simp: digit_val_def digit_char_def decimal_digits_def split: if_splits)

lemma digits_value_digits:
  "\<forall>c \<in> set s. is_digit c \<Longrightarrow>
   \<exists>n. digits_value 0 s = Some n \<and> n < 10 ^ length s \<and> pad_digits (length s) n = s"
proof (induction s rule: rev_induct)
  case Nil
  then show ?case by simp
next
  case (snoc c s)
  then obtain n where n: "digits_value 0 s = Some n" "n < 10 ^ length s" "pad_digits (length s) n = s"
    by auto
  from snoc.prems obtain d where d: "digit_val c = Some d"
    by (auto simp: is_digit_def)
  from digit_val_Some [OF d] have d10: "d < 10" and dc: "digit_char d = c" by simp_all
  have v: "digits_value 0 (s @ [c]) = Some (10 * n + d)"
    by (simp only: digits_value_snoc n(1) d option.case)
  from d10 have dm: "(10 * n + d) div 10 = n" "(10 * n + d) mod 10 = d" by simp_all
  have "length (s @ [c]) = Suc (length s)" by simp
  then have p: "pad_digits (length (s @ [c])) (10 * n + d) = s @ [c]"
    by (simp only: pad_digits.simps dm n(3) dc)
  from n(2) have "10 * n + 10 \<le> 10 * 10 ^ length s" by simp
  with d10 have b: "10 * n + d < 10 ^ length (s @ [c])" by simp
  from v b p show ?case by blast
qed


lemma pad_digits_4:
  "pad_digits 4 n =
     [digit_char (n div 10 div 10 div 10 mod 10), digit_char (n div 10 div 10 mod 10),
      digit_char (n div 10 mod 10), digit_char (n mod 10)]"
proof -
  have "(4::nat) = Suc (Suc (Suc (Suc 0)))" by simp
  then show ?thesis by (simp only: pad_digits.simps append_Nil append_Cons)
qed

lemma year_month_of_date:
  assumes "match_year_month s" and "\<not> s < ''1000''"
  shows "\<exists>l. four_digit l \<and> getCurrentYearMonth (Some l) = s"
proof -
  from assms(1) obtain y1 y2 y3 y4 m1 m2 where
    s: "s = [y1, y2, y3, y4, CHR ''-'', m1, m2]"
    and dy: "\<forall>c \<in> set [y1, y2, y3, y4]. is_digit c"
    and dm: "\<forall>c \<in> set [m1, m2]. is_digit c"
    and month: "case Number_digits [m1, m2] of Some month \<Rightarrow> 1 \<le> month \<and> month \<le> 12 | None \<Rightarrow> False"
    by (auto simp: match_year_month_def split: list.splits)
  have l4: "length [y1, y2, y3, y4] = 4" and l2: "length [m1, m2] = 2" by simp_all
  from digits_value_digits [OF dy] have "\<exists>n. digits_value 0 [y1, y2, y3, y4] = Some n \<and>
      n < 10 ^ 4 \<and> pad_digits 4 n = [y1, y2, y3, y4]"
    by (simp only: l4)
  then obtain y where
    y: "digits_value 0 [y1, y2, y3, y4] = Some y" "y < 10 ^ 4" "pad_digits 4 y = [y1, y2, y3, y4]"
    by blast
  from digits_value_digits [OF dm] have "\<exists>n. digits_value 0 [m1, m2] = Some n \<and>
      n < 10 ^ 2 \<and> pad_digits 2 n = [m1, m2]"
    by (simp only: l2)
  then obtain m where
    m: "digits_value 0 [m1, m2] = Some m" "m < 10 ^ 2" "pad_digits 2 m = [m1, m2]"
    by blast
  from month m(1) have m12: "1 \<le> m" "m \<le> 12" by (simp_all add: Number_digits_def)
  have "1000 \<le> y"
  proof (rule ccontr)
    assume "\<not> 1000 \<le> y"
    then have "y < 1000" by simp
    moreover have "(1000::nat) < 10 ^ 4" by simp
    ultimately have "pad_digits 4 y < pad_digits 4 1000"
      using y(2) by (simp only: pad_digits_less)
    moreover have "pad_digits 4 1000 = ''1000''"
      by (simp add: pad_digits_4 digit_char_def decimal_digits_def)
    ultimately have "[y1, y2, y3, y4] < ''1000''" by (simp only: y(3))
    with assms(2) show False by (auto simp: s)
  qed
  let ?l = "Date (int y) (int m - 1)"
  from \<open>1000 \<le> y\<close> y(2) m12 have fd: "four_digit ?l" by (simp add: four_digit_def)
  from m12 have "nat (int m - 1 + 1) = m" by simp
  with ym_four_digit [OF fd] have "getCurrentYearMonth (Some ?l) = pad_digits 4 y @ CHR ''-'' # pad_digits 2 m"
    by simp
  with y(3) m(3) s fd show ?thesis by (intro exI [of _ ?l]) simp
qed

text \<open>
  On year-months of four-digit years the catch-up does what its specification says. Let
  \<^verbatim>\<open>last_rollover_ym\<close> be a year-month \<^verbatim>\<open>YYYY-MM\<close> with a year of at least 1000,
  lexically strictly less than the year-month of the clock \<open>now\<close>, whose year has four
  digits and which is not in December 9999 (the month after that has a year of five
  digits, which the lexical test of the loop takes for an earlier one). Then
  \<^verbatim>\<open>last_rollover_ym\<close> is the year-month of the date \<open>l\<close> it parses to, and the
  rollover applies the months from the one after \<open>l\<close> through the one of \<open>now\<close>, one
  calendar month at a time, as many as lie between the two dates; for each it resolves
  the stage of that month, adds the stage's \<^verbatim>\<open>saving_longterm\<close> and
  \<^verbatim>\<open>saving_buffer\<close> to the balances where they are numbers (a value that is not a
  number adds nothing and does not set the flag), and moves \<^verbatim>\<open>last_rollover_ym\<close> to
  that month; if no stage resolution raises, it ends with \<^verbatim>\<open>last_rollover_ym\<close> the
  year-month of \<open>now\<close>. With \<^verbatim>\<open>last_rollover_ym = "2025-01"\<close>, the clock in April 2025
  and a single stage with \<^verbatim>\<open>saving_longterm = 1000\<close> the long-term balance grows by 3000
  and \<^verbatim>\<open>last_rollover_ym\<close> becomes \<^verbatim>\<open>"2025-04"\<close>.
\<close>

theorem rollover_catch_up_four_digit:
  assumes prev: "lastRolloverYm gs = Some prev"
    and ym: "match_year_month prev" "\<not> prev < ''1000''"
    and now: "four_digit now" "now \<noteq> Date 9999 11"
    and earlier: "prev < getCurrentYearMonth (Some now)"
  shows "\<exists>l. parseYearMonth prev = Some l \<and> getCurrentYearMonth (Some l) = prev \<and>
           0 < month_index now - month_index l \<and>
           applyMonthlyRolloverIfNeeded now stages gs =
             rollover_steps stages (addMonths (Some l) 1) (nat (month_index now - month_index l))
               (gs, False) \<and>
           (\<forall>gs' changed. applyMonthlyRolloverIfNeeded now stages gs = Inr (gs', changed) \<longrightarrow>
              lastRolloverYm gs' = Some (getCurrentYearMonth (Some now))) \<and>
           rollover_month month stage (g, ch) =
             (g\<lparr>currentLongterm := currentLongterm g + deposit (field_of saving_longterm stage),
                currentBuffer := currentBuffer g + deposit (field_of saving_buffer stage),
                lastRolloverYm := Some month\<rparr>,
              ch \<or> safeNumber (field_of saving_longterm stage) \<noteq> None
                \<or> safeNumber (field_of saving_buffer stage) \<noteq> None) \<and>
           (prev = ''2025-01'' \<and> now = Date 2025 3 \<and> stages = [s] \<and>
            saving_longterm s = JNum 1000 \<longrightarrow>
              (\<exists>gs'. applyMonthlyRolloverIfNeeded now stages gs = Inr (gs', True) \<and>
                 currentLongterm gs' = currentLongterm gs + 3000 \<and>
                 lastRolloverYm gs' = Some ''2025-04''))"
proof -
  from year_month_of_date [OF ym] obtain l where
    l: "four_digit l" "getCurrentYearMonth (Some l) = prev" by blast
  from prev l(2) have prev': "lastRolloverYm gs = Some (getCurrentYearMonth (Some l))" by simp
  from earlier l(2) have earlier': "getCurrentYearMonth (Some l) < getCurrentYearMonth (Some now)"
    by simp
  have p: "parseYearMonth prev = Some l"
    using parse_ym_four_digit [OF l(1)] by (simp only: l(2))
  have ex: "prev = ''2025-01'' \<and> now = Date 2025 3 \<and> stages = [s] \<and>
            saving_longterm s = JNum 1000 \<longrightarrow>
              (\<exists>gs'. applyMonthlyRolloverIfNeeded now stages gs = Inr (gs', True) \<and>
                 currentLongterm gs' = currentLongterm gs + 3000 \<and>
                 lastRolloverYm gs' = Some ''2025-04'')"
  proof
    assume a: "prev = ''2025-01'' \<and> now = Date 2025 3 \<and> stages = [s] \<and>
            saving_longterm s = JNum 1000"
    with prev have "lastRolloverYm gs = Some ''2025-01''" by simp
    with a rollover_three_months [of s gs]
    show "\<exists>gs'. applyMonthlyRolloverIfNeeded now stages gs = Inr (gs', True) \<and>
                 currentLongterm gs' = currentLongterm gs + 3000 \<and>
                 lastRolloverYm gs' = Some ''2025-04''"
      by simp
  qed
  from rollover_catch_up_dates [OF prev' l(1) now earlier', of stages] p l(2) ex
    rollover_month_eq [of month stage g ch]
  show ?thesis by (intro exI [of _ l]) blast
qed

lemma rollover_catch_up_example:
  "lastRolloverYm \<lparr>currentLongterm = 50000, currentBuffer = 700, lastRolloverYm = Some ''2025-01''\<rparr>
     = Some ''2025-01'' \<and>
   match_year_month ''2025-01'' \<and> \<not> ''2025-01'' < ''1000'' \<and>
   four_digit (Date 2025 3) \<and> Date 2025 3 \<noteq> Date 9999 11 \<and>
   ''2025-01'' < getCurrentYearMonth (Some (Date 2025 3)) \<and>
   (\<exists>gs'. applyMonthlyRolloverIfNeeded (Date 2025 3)
        [\<lparr>name = JStr ''job'', from_ym = Some ''2024-01'', to_ym = None,
          saving_longterm = JNum 1000, saving_buffer = JStr ''none''\<rparr>]
        \<lparr>currentLongterm = 50000, currentBuffer = 700, lastRolloverYm = Some ''2025-01''\<rparr>
      = Inr (gs', True) \<and>
      currentLongterm gs' = 53000 \<and> lastRolloverYm gs' = Some ''2025-04'')"
proof -
  let ?gs = "\<lparr>currentLongterm = 50000, currentBuffer = 700, lastRolloverYm = Some ''2025-01''\<rparr>"
  let ?s = "\<lparr>name = JStr ''job'', from_ym = Some ''2024-01'', to_ym = None,
          saving_longterm = JNum 1000, saving_buffer = JStr ''none''\<rparr>"
  have h1: "lastRolloverYm ?gs = Some ''2025-01''" by simp
  have h2: "match_year_month ''2025-01''"
    by (simp add: match_year_month_def Number_digits_def digit_val_def decimal_digits_def is_digit_def)
  have h3: "\<not> ''2025-01'' < ''1000''" by simp
  have h4: "four_digit (Date 2025 3)" by (simp add: four_digit_def)
  have h5: "Date 2025 3 \<noteq> Date 9999 11" by simp
  have h6: "''2025-01'' < getCurrentYearMonth (Some (Date 2025 3))"
    by (simp only: ym_2025) simp
  have h7: "''2025-01'' = ''2025-01'' \<and> Date 2025 3 = Date 2025 3 \<and> [?s] = [?s] \<and>
      saving_longterm ?s = JNum 1000" by simp
  from rollover_catch_up_four_digit [OF h1 h2 h3 h4 h5 h6, where stages = "[?s]" and s = ?s] h7
  have "\<exists>gs'. applyMonthlyRolloverIfNeeded (Date 2025 3) [?s] ?gs = Inr (gs', True) \<and>
      currentLongterm gs' = currentLongterm ?gs + 3000 \<and> lastRolloverYm gs' = Some ''2025-04''"
    by blast
  then have "\<exists>gs'. applyMonthlyRolloverIfNeeded (Date 2025 3) [?s] ?gs = Inr (gs', True) \<and>
      currentLongterm gs' = 53000 \<and> lastRolloverYm gs' = Some ''2025-04''"
    by simp
  with h1 h2 h3 h4 h5 h6 show ?thesis by blast
qed

text \<open>
  Claim C7. Each operation that sets \<^verbatim>\<open>last_rollover_ym\<close> keeps it lexically at most
  the year-month of the clock: the initialisation sets it to that year-month; the
  restoring at load keeps the stored value when it is a year-month, so it is not ahead
  when the stored value is not, and otherwise sets the clock's; and after a rollover
  that started from a state not ahead of the clock the state is not ahead of it.
\<close>

theorem last_rollover_not_ahead:
  "lastRolloverYm (initGoalState now plan) = Some (getCurrentYearMonth (Some now)) \<and>
   ((\<forall>s. get storedState ''last_rollover_ym'' = JStr s \<and> match_year_month s \<longrightarrow>
        s \<le> getCurrentYearMonth (Some now)) \<longrightarrow>
      (\<exists>l. lastRolloverYm (loadPlan_state now plan storedState) = Some l \<and>
           l \<le> getCurrentYearMonth (Some now))) \<and>
   ((\<forall>l. lastRolloverYm gs = Some l \<longrightarrow> l \<le> getCurrentYearMonth (Some now)) \<and>
    applyMonthlyRolloverIfNeeded now stages gs = Inr (gs', changed) \<longrightarrow>
      (\<exists>l'. lastRolloverYm gs' = Some l' \<and> l' \<le> getCurrentYearMonth (Some now)))"
proof (intro conjI impI)
  show init: "lastRolloverYm (initGoalState now plan) = Some (getCurrentYearMonth (Some now))"
    by (simp add: initGoalState_def Let_def del: getCurrentYearMonth.simps)
  {
    assume a: "\<forall>s. get storedState ''last_rollover_ym'' = JStr s \<and> match_year_month s \<longrightarrow>
        s \<le> getCurrentYearMonth (Some now)"
    show "\<exists>l. lastRolloverYm (loadPlan_state now plan storedState) = Some l \<and>
           l \<le> getCurrentYearMonth (Some now)"
    proof (cases "safeNumber (get storedState ''current_longterm'') = None \<or>
        safeNumber (get storedState ''current_buffer'') = None")
      case True
      then have "loadPlan_state now plan storedState = initGoalState now plan"
        by (auto simp: loadPlan_state_def Let_def split: option.splits)
      with init show ?thesis by simp
    next
      case False
      then obtain x y where "safeNumber (get storedState ''current_longterm'') = Some x"
        "safeNumber (get storedState ''current_buffer'') = Some y" by auto
      with a show ?thesis
        by (cases "get storedState ''last_rollover_ym''")
          (auto simp: loadPlan_state_def Let_def simp del: getCurrentYearMonth.simps)
    qed
  }
  {
    assume a: "(\<forall>l. lastRolloverYm gs = Some l \<longrightarrow> l \<le> getCurrentYearMonth (Some now)) \<and>
      applyMonthlyRolloverIfNeeded now stages gs = Inr (gs', changed)"
    let ?now = "getCurrentYearMonth (Some now)"
    show "\<exists>l'. lastRolloverYm gs' = Some l' \<and> l' \<le> ?now"
    proof (cases "lastRolloverYm gs")
      case None
      with a show ?thesis
        by (auto simp: applyMonthlyRolloverIfNeeded_def Let_def simp del: getCurrentYearMonth.simps)
    next
      case (Some l)
      show ?thesis
      proof (cases "l = [] \<or> ?now \<le> l")
        case True
        with a Some show ?thesis
          by (auto simp: applyMonthlyRolloverIfNeeded_def Let_def
              simp del: getCurrentYearMonth.simps split: if_splits)
      next
        case False
        with a Some
        have "rollover_loop now stages (addMonths (parseYearMonth l) 1) (gs, False) = Inr (gs', changed)"
          by (simp add: applyMonthlyRolloverIfNeeded_def Let_def
              del: getCurrentYearMonth.simps addMonths.simps)
        moreover from a Some have "\<exists>l. lastRolloverYm (fst (gs, False)) = Some l \<and> l \<le> ?now"
          by simp
        ultimately show ?thesis by (rule rollover_loop_not_ahead)
      qed
    qed
  }
qed

theorem last_rollover_not_ahead_witness:
  "get (JObj [(''current_longterm'', JNum 1), (''current_buffer'', JNum 2),
              (''last_rollover_ym'', JStr ''2025-01'')]) ''last_rollover_ym'' = JStr ''2025-01'' \<and>
   match_year_month ''2025-01'' \<and> ''2025-01'' \<le> getCurrentYearMonth (Some (Date 2025 3)) \<and>
   lastRolloverYm (loadPlan_state (Date 2025 3) JNull
     (JObj [(''current_longterm'', JNum 1), (''current_buffer'', JNum 2),
            (''last_rollover_ym'', JStr ''2025-01'')])) = Some ''2025-01'' \<and>
   (\<exists>l'. lastRolloverYm
       \<lparr>currentLongterm = 3001, currentBuffer = 2, lastRolloverYm = Some ''2025-04''\<rparr> = Some l' \<and>
      l' \<le> getCurrentYearMonth (Some (Date 2025 3)))"
proof -
  let ?stored = "JObj [(''current_longterm'', JNum 1), (''current_buffer'', JNum 2),
            (''last_rollover_ym'', JStr ''2025-01'')]"
  let ?gs = "\<lparr>currentLongterm = 1, currentBuffer = 2, lastRolloverYm = Some ''2025-01''\<rparr>"
  let ?gs' = "\<lparr>currentLongterm = 3001, currentBuffer = 2, lastRolloverYm = Some ''2025-04''\<rparr>"
  let ?s = "\<lparr>name = JStr ''job'', from_ym = Some ''2024-01'', to_ym = None,
          saving_longterm = JNum 1000, saving_buffer = JStr ''none''\<rparr>"
  have g: "get ?stored ''last_rollover_ym'' = JStr ''2025-01''" by simp
  have v: "match_year_month ''2025-01''"
    by (simp add: match_year_month_def Number_digits_def digit_val_def decimal_digits_def is_digit_def)
  have le: "''2025-01'' \<le> getCurrentYearMonth (Some (Date 2025 3))"
    by (simp only: ym_2025) simp
  have st: "\<forall>s. get ?stored ''last_rollover_ym'' = JStr s \<and> match_year_month s \<longrightarrow>
        s \<le> getCurrentYearMonth (Some (Date 2025 3))"
    using le by simp
  have load: "loadPlan_state (Date 2025 3) JNull ?stored = ?gs"
    using v by (simp add: loadPlan_state_def Let_def del: getCurrentYearMonth.simps)
  have run: "applyMonthlyRolloverIfNeeded (Date 2025 3) [?s] ?gs = Inr (?gs', True)"
    using rollover_three_months [of ?s ?gs] by (simp add: deposit_def)
  have pre: "\<forall>l. lastRolloverYm ?gs = Some l \<longrightarrow> l \<le> getCurrentYearMonth (Some (Date 2025 3))"
    using le by simp
  from last_rollover_not_ahead [of "Date 2025 3" JNull ?stored ?gs "[?s]" ?gs' True] st
  have 1: "\<exists>l. lastRolloverYm (loadPlan_state (Date 2025 3) JNull ?stored) = Some l \<and>
      l \<le> getCurrentYearMonth (Some (Date 2025 3))"
    by blast
  from last_rollover_not_ahead [of "Date 2025 3" JNull ?stored ?gs "[?s]" ?gs' True] pre run
  have 2: "\<exists>l'. lastRolloverYm ?gs' = Some l' \<and> l' \<le> getCurrentYearMonth (Some (Date 2025 3))"
    by blast
  from load have 3: "lastRolloverYm (loadPlan_state (Date 2025 3) JNull ?stored) = Some ''2025-01''"
    by simp
  from g v le 3 2 show ?thesis by blast
qed

end
